(* ===== verification/Prelude.thy ===== *)
theory Prelude
  imports Main "HOL-Library.Word"
begin

text \<open>
  The part of Go and of its standard library that the operator uses, and the proof
  layer the components share.

  \<^item> Machine integers: \<open>uint32\<close>, \<open>int32\<close>, \<open>int64\<close> and \<open>int\<close> (64 bits) are words; the
    signed types are compared through \<^const>\<open>sint\<close>, the conversions keep bits as Go's do.
  \<^item> \<open>fmt.Sprintf("%d")\<close>, \<open>strconv.ParseInt\<close>, \<open>strings.LastIndex\<close>.
  \<^item> A Go function that can fail, changes state and may panic is a function from a state
    to an outcome and a state (type \<open>gom\<close>): \<open>bindM\<close> is \<open>x, err := f(); if err != nil
    { return err }\<close>, \<open>tryM\<close> keeps the error as a value for the code that inspects it.
  \<^item> A Hoare layer \<open>valid P m Q E\<close> with one rule per construct, collected in \<open>vrules\<close>.
\<close>

section \<open>Machine integers\<close>

type_synonym u32 = "32 word"
type_synonym i32 = "32 word"
type_synonym i64 = "64 word"

text \<open>\<open>int(x)\<close> of a \<open>uint32\<close> zero-extends, of an \<open>int32\<close> sign-extends;
  \<open>int32(x)\<close> of an \<open>int\<close> or a \<open>uint32\<close> keeps the low 32 bits.\<close>

definition int_of_u32 :: "u32 \<Rightarrow> i64" where
  "int_of_u32 x = ucast x"

definition int_of_i32 :: "i32 \<Rightarrow> i64" where
  "int_of_i32 x = scast x"

definition i32_of_int :: "i64 \<Rightarrow> i32" where
  "i32_of_int x = ucast x"

definition i32_of_u32 :: "u32 \<Rightarrow> i32" where
  "i32_of_u32 x = x"

text \<open>\<open>len(xs)\<close>: the length of a slice is a non-negative \<open>int\<close>, whatever the slice; it never
  wraps.\<close>

abbreviation len :: "'a list \<Rightarrow> int" where
  "len xs \<equiv> int (length xs)"

section \<open>Decimal printing and parsing\<close>

definition digit_char :: "nat \<Rightarrow> char" where
  "digit_char d = char_of (48 + d)"

definition digit_val :: "char \<Rightarrow> nat option" where
  "digit_val c = (let k = (of_char c :: nat) in
     if 48 \<le> k \<and> k \<le> 57 then Some (k - 48) else None)"

fun utoa :: "nat \<Rightarrow> string" where
  "utoa n = (if n < 10 then [digit_char n] else utoa (n div 10) @ [digit_char (n mod 10)])"

declare utoa.simps [simp del]

definition itoa :: "int \<Rightarrow> string" where
  "itoa i = (if i < 0 then CHR ''-'' # utoa (nat (- i)) else utoa (nat i))"

text \<open>\<open>strconv.ParseUint(s, 10, 64)\<close>: one digit at a time, stopping at the first bad
  character or at the first overflow.\<close>

datatype numError = ErrSyntax | ErrRange

fun parseUintLoop :: "nat \<Rightarrow> string \<Rightarrow> nat \<times> numError option" where
  "parseUintLoop n [] = (n, None)"
| "parseUintLoop n (c # cs) =
     (case digit_val c of
        None \<Rightarrow> (0, Some ErrSyntax)
      | Some d \<Rightarrow> (let n1 = n * 10 + d in
          if n1 \<ge> 2 ^ 64 then (2 ^ 64 - 1, Some ErrRange) else parseUintLoop n1 cs))"

definition ParseUint :: "string \<Rightarrow> nat \<times> numError option" where
  "ParseUint s = (if s = [] then (0, Some ErrSyntax) else parseUintLoop 0 s)"

text \<open>\<open>strconv.ParseInt(s, 10, 64)\<close>: the value is meaningful on a range error too
  (it is clamped), which the caller that ignores the error observes.\<close>

definition ParseInt :: "string \<Rightarrow> i64 \<times> numError option" where
  "ParseInt s =
     (case s of
        [] \<Rightarrow> (0, Some ErrSyntax)
      | c # cs \<Rightarrow>
          (let neg = (c = CHR ''-'');
               (un, e) = ParseUint (if c = CHR ''+'' \<or> c = CHR ''-'' then cs else s)
           in if e = Some ErrSyntax then (0, Some ErrSyntax)
              else if \<not> neg \<and> un \<ge> 2 ^ 63 then (of_nat (2 ^ 63 - 1), Some ErrRange)
              else if neg \<and> un > 2 ^ 63 then (- of_nat (2 ^ 63), Some ErrRange)
              else (if neg then - of_nat un else of_nat un, None)))"

text \<open>\<open>strings.LastIndex(s, c)\<close> for a one-byte separator, and the slice \<open>s[i:]\<close>.\<close>

definition LastIndex :: "string \<Rightarrow> char \<Rightarrow> int" where
  "LastIndex s c =
     (if c \<in> set s then int (length s) - 1 - int (length (takeWhile (\<lambda>x. x \<noteq> c) (rev s)))
      else - 1)"

definition slice_from :: "string \<Rightarrow> int \<Rightarrow> string option" where
  "slice_from s i = (if 0 \<le> i \<and> i \<le> int (length s) then Some (drop (nat i) s) else None)"

definition FormatBool :: "bool \<Rightarrow> string" where
  "FormatBool b = (if b then ''true'' else ''false'')"

section \<open>Go functions as state transformers\<close>

datatype ('e, 'a) res = Ok 'a | Err 'e | Panic string

type_synonym ('s, 'e, 'a) gom = "'s \<Rightarrow> ('e, 'a) res \<times> 's"

definition returnM :: "'a \<Rightarrow> ('s, 'e, 'a) gom" where
  "returnM x = (\<lambda>s. (Ok x, s))"

definition throwM :: "'e \<Rightarrow> ('s, 'e, 'a) gom" where
  "throwM e = (\<lambda>s. (Err e, s))"

definition panicM :: "string \<Rightarrow> ('s, 'e, 'a) gom" where
  "panicM p = (\<lambda>s. (Panic p, s))"

definition bindM :: "('s, 'e, 'a) gom \<Rightarrow> ('a \<Rightarrow> ('s, 'e, 'b) gom) \<Rightarrow> ('s, 'e, 'b) gom" where
  "bindM m f = (\<lambda>s. case m s of
     (Ok x, s') \<Rightarrow> f x s' | (Err e, s') \<Rightarrow> (Err e, s') | (Panic p, s') \<Rightarrow> (Panic p, s'))"

definition tryM :: "('s, 'e, 'a) gom \<Rightarrow> ('s, 'e, 'e + 'a) gom" where
  "tryM m = (\<lambda>s. case m s of
     (Ok x, s') \<Rightarrow> (Ok (Inr x), s') | (Err e, s') \<Rightarrow> (Ok (Inl e), s') | (Panic p, s') \<Rightarrow> (Panic p, s'))"

text \<open>A value of a sum type as a computation: \<open>Inl\<close> is the error.\<close>

definition liftM :: "'e + 'a \<Rightarrow> ('s, 'e, 'a) gom" where
  "liftM r = (case r of Inl e \<Rightarrow> throwM e | Inr x \<Rightarrow> returnM x)"

text \<open>\<open>for _, x := range xs { ... }\<close> with a body that may return early.\<close>

fun forM :: "'x list \<Rightarrow> ('x \<Rightarrow> ('s, 'e, unit) gom) \<Rightarrow> ('s, 'e, unit) gom" where
  "forM [] f = returnM ()"
| "forM (x # xs) f = bindM (f x) (\<lambda>_. forM xs f)"

text \<open>The same with a loop variable: \<open>acc\<close> is the tuple of the variables the body assigns.\<close>

fun foldM :: "('a \<Rightarrow> 'x \<Rightarrow> ('s, 'e, 'a) gom) \<Rightarrow> 'a \<Rightarrow> 'x list \<Rightarrow> ('s, 'e, 'a) gom" where
  "foldM f acc [] = returnM acc"
| "foldM f acc (x # xs) = bindM (f acc x) (\<lambda>a. foldM f a xs)"

text \<open>\<open>for i := a; i != b; i++ { xs = append(xs, f(i)) }\<close>, with the counter's
  wrap-around: the loop ends for every \<open>b\<close>, after \<open>b - a\<close> steps modulo the width.\<close>

function countUp :: "'n::len word \<Rightarrow> 'n word \<Rightarrow> ('n word \<Rightarrow> 'b) \<Rightarrow> 'b list" where
  "countUp a b f = (if a = b then [] else f a # countUp (a + 1) b f)"
  by pat_completeness auto
termination
proof (relation "measure (\<lambda>(a, b, f). unat (b - a))", goal_cases)
  case (2 a b f)
  then have "b - a \<noteq> 0" by simp
  then have "unat (b - a - 1) < unat (b - a)"
    by (simp add: unat_minus_one unat_gt_0)
  then show ?case by (simp add: diff_diff_eq)
qed simp

declare countUp.simps [simp del]

section \<open>Lemmas on integers and decimal text\<close>

lemma countUp_eq: "countUp a b f = map (\<lambda>k. f (a + of_nat k)) [0..<unat (b - a)]"
proof (induction a b f rule: countUp.induct)
  case (1 a b f)
  show ?case
  proof (cases "a = b")
    case True
    then show ?thesis by (simp add: countUp.simps)
  next
    case False
    then have "unat (b - a) = Suc (unat (b - (a + 1)))"
      by (simp add: diff_diff_eq [symmetric] unat_minus_one unat_gt_0)
    then have "map (\<lambda>k. f (a + of_nat k)) [0..<unat (b - a)] =
        f a # map (\<lambda>k. f (a + of_nat (Suc k))) [0..<unat (b - (a + 1))]"
      by (simp add: map_upt_Suc del: upt_Suc)
    with False "1.IH" show ?thesis
      by (simp add: countUp.simps [of a b] add.assoc)
  qed
qed

lemma countUp_0: "countUp 0 b f = map (\<lambda>k. f (of_nat k)) [0..<unat b]"
  by (simp add: countUp_eq)

lemma sint_int_of_u32: "sint (int_of_u32 x) = uint x"
proof -
  have "uint x < 2 ^ 32" using uint_bounded [of x] by simp
  moreover have "- (2 ^ 63) \<le> uint x" by (rule order_trans [of _ 0]) simp_all
  ultimately show ?thesis
    by (simp add: int_of_u32_def sint_uint unsigned_ucast_eq take_bit_int_eq_self
        signed_take_bit_int_eq_self)
qed

lemma sint_int_of_i32: "sint (int_of_i32 x) = sint x"
proof -
  have "- (2 ^ 31) \<le> sint x" "sint x < 2 ^ 31"
    using sint_ge [of x] sint_lt [of x] by simp_all
  then show ?thesis
    by (simp add: int_of_i32_def signed_scast_eq signed_take_bit_int_eq_self)
qed

lemma digit_val_digit_char [simp]: "d < 10 \<Longrightarrow> digit_val (digit_char d) = Some d"
  by (simp add: digit_val_def digit_char_def of_char_of)

lemma digit_val_minus [simp]: "digit_val (CHR ''-'') = None"
  and digit_val_plus [simp]: "digit_val (CHR ''+'') = None"
  by (simp_all add: digit_val_def)

lemma utoa_digits: "c \<in> set (utoa n) \<Longrightarrow> \<exists>d. digit_val c = Some d"
proof (induction n rule: utoa.induct)
  case (1 n)
  show ?case
  proof (cases "n < 10")
    case True
    with "1.prems" show ?thesis by (auto simp: utoa.simps [of n])
  next
    case False
    with "1.prems" have "c \<in> set (utoa (n div 10)) \<or> c = digit_char (n mod 10)"
      by (auto simp: utoa.simps [of n])
    with False "1.IH" show ?thesis by auto
  qed
qed

lemma utoa_not_Nil [simp]: "utoa n \<noteq> []" "[] \<noteq> utoa n"
  by (subst utoa.simps, simp)+

lemma utoa_no_sign: "CHR ''-'' \<notin> set (utoa n)" "CHR ''+'' \<notin> set (utoa n)"
  using utoa_digits [of _ n] by fastforce+

lemma parseUintLoop_append:
  "parseUintLoop n xs = (k, None) \<Longrightarrow> parseUintLoop n (xs @ ys) = parseUintLoop k ys"
  by (induction xs arbitrary: n) (auto split: option.splits if_splits simp: Let_def)

lemma parseUintLoop_utoa: "n < 2 ^ 64 \<Longrightarrow> parseUintLoop 0 (utoa n) = (n, None)"
proof (induction n rule: utoa.induct)
  case (1 n)
  show ?case
  proof (cases "n < 10")
    case True
    then show ?thesis by (simp add: utoa.simps [of n])
  next
    case False
    then have "parseUintLoop 0 (utoa (n div 10)) = (n div 10, None)"
      using "1.prems" "1.IH" by simp
    from parseUintLoop_append [OF this, of "[digit_char (n mod 10)]"] False "1.prems"
    show ?thesis by (simp add: utoa.simps [of n])
  qed
qed

lemma ParseUint_utoa: "n < 2 ^ 64 \<Longrightarrow> ParseUint (utoa n) = (n, None)"
  by (simp add: ParseUint_def parseUintLoop_utoa)

text \<open>Printing an \<open>int64\<close> and parsing it back gives the same value and no error.\<close>

lemma ParseInt_utoa: "n < 2 ^ 63 \<Longrightarrow> ParseInt (utoa n) = (of_nat n, None)"
proof -
  assume n: "n < 2 ^ 63"
  obtain c cs where cs: "utoa n = c # cs" by (cases "utoa n") auto
  moreover have "c \<noteq> CHR ''-''" "c \<noteq> CHR ''+''" using utoa_no_sign [of n] cs by auto
  moreover have "ParseUint (c # cs) = (n, None)" using ParseUint_utoa [of n] n cs by simp
  ultimately show ?thesis using n by (simp add: ParseInt_def)
qed

lemma ParseInt_itoa: "ParseInt (itoa (sint w)) = (w, None)" for w :: i64
proof -
  have lo: "- (2 ^ 63) \<le> sint w" and hi: "sint w < 2 ^ 63"
    using sint_ge [of w] sint_lt [of w] by simp_all
  show ?thesis
  proof (cases "sint w < 0")
    case True
    define k where "k = nat (- sint w)"
    have "k \<le> 2 ^ 63" using lo by (simp add: k_def nat_le_iff)
    moreover have "- of_nat k = w"
      using True by (simp add: k_def)
    ultimately show ?thesis
      using True ParseUint_utoa [of k] by (simp add: itoa_def ParseInt_def flip: k_def)
  next
    case False
    then have "nat (sint w) < 2 ^ 63" using hi by (simp add: nat_less_iff)
    with False show ?thesis by (simp add: itoa_def ParseInt_utoa)
  qed
qed

lemma utoa_inj: "utoa m = utoa n \<Longrightarrow> m = n"
proof (induction m arbitrary: n rule: utoa.induct)
  case (1 m)
  have dc: "digit_char a = digit_char b \<Longrightarrow> a = b" if "a < 10" "b < 10" for a b :: nat
    using that by (metis digit_val_digit_char option.inject)
  show ?case
  proof (cases "m < 10 \<or> n < 10")
    case True
    with "1.prems" show ?thesis
      by (auto simp: utoa.simps [of m] utoa.simps [of n] dest: dc split: if_splits)
  next
    case False
    with "1.prems" have "utoa (m div 10) = utoa (n div 10)"
      and "digit_char (m mod 10) = digit_char (n mod 10)"
      by (auto simp: utoa.simps [of m] utoa.simps [of n])
    moreover from this have "m mod 10 = n mod 10" by (intro dc) simp_all
    moreover from calculation False "1.IH" [of "n div 10"] have "m div 10 = n div 10" by simp
    ultimately show ?thesis by (metis div_mult_mod_eq)
  qed
qed

section \<open>Lemmas on strings\<close>

text \<open>The slice after the last separator, as \<open>s[strings.LastIndex(s, "-")+1:]\<close> computes
  it, never goes out of range, and is the last piece of the text.\<close>

lemma slice_LastIndex_in_range: "slice_from s (LastIndex s c + 1) \<noteq> None"
proof -
  have "length (takeWhile (\<lambda>x. x \<noteq> c) (rev s)) \<le> length s"
    using length_takeWhile_le [of _ "rev s"] by simp
  then show ?thesis by (auto simp: slice_from_def LastIndex_def)
qed

lemma slice_LastIndex_suffix:
  "c \<notin> set t \<Longrightarrow> slice_from (p @ c # t) (LastIndex (p @ c # t) c + 1) = Some t"
proof -
  assume "c \<notin> set t"
  then have "takeWhile (\<lambda>x. x \<noteq> c) (rev t @ c # rev p) = rev t"
    by (auto simp: takeWhile_append)
  then show ?thesis by (simp add: slice_from_def LastIndex_def nat_add_distrib)
qed

text \<open>Splitting a text at a separator that the tails do not contain is unambiguous.\<close>

lemma append_sep_inj:
  "p @ c # t = q @ c # u \<Longrightarrow> c \<notin> set t \<Longrightarrow> c \<notin> set u \<Longrightarrow> p = q \<and> t = u"
  for c :: char
  using slice_LastIndex_suffix [of c t p] slice_LastIndex_suffix [of c u q] by simp

section \<open>Reasoning about computations\<close>

text \<open>
  \<open>valid P m Q E\<close>: run from a state with \<open>P\<close>, \<open>m\<close> ends in \<open>Q\<close> with the value it
  returns, or in \<open>E\<close>, with \<open>Some e\<close> for an error \<open>e\<close> and \<open>None\<close> for a panic. Every
  computation of the model is total, so this is total correctness.
\<close>

definition valid :: "('s \<Rightarrow> bool) \<Rightarrow> ('s, 'e, 'a) gom \<Rightarrow> ('a \<Rightarrow> 's \<Rightarrow> bool) \<Rightarrow> ('e option \<Rightarrow> 's \<Rightarrow> bool) \<Rightarrow> bool" where
  "valid P m Q E \<longleftrightarrow> (\<forall>s. P s \<longrightarrow>
     (case m s of (Ok x, s') \<Rightarrow> Q x s' | (Err e, s') \<Rightarrow> E (Some e) s' | (Panic p, s') \<Rightarrow> E None s'))"

named_theorems vrules \<open>one rule of the Hoare layer per construct\<close>

lemma bindM_Ok: "bindM m f s = (Ok y, t) \<longleftrightarrow> (\<exists>x u. m s = (Ok x, u) \<and> f x u = (Ok y, t))"
  by (auto simp: bindM_def split: prod.splits res.splits)

lemma bindM_returnM [simp]: "bindM (returnM x) f = f x"
  by (simp add: bindM_def returnM_def)

lemma bindM_throwM [simp]: "bindM (throwM e) f = throwM e"
  by (simp add: bindM_def throwM_def)

lemma bindM_panicM [simp]: "bindM (panicM p) f = panicM p"
  by (simp add: bindM_def panicM_def)

lemma bindM_assoc: "bindM (bindM m f) g = bindM m (\<lambda>x. bindM (f x) g)"
  by (auto simp: bindM_def fun_eq_iff split: prod.splits res.splits)

lemma bindM_right_id [simp]: "bindM m returnM = m"
  by (auto simp: bindM_def returnM_def fun_eq_iff split: prod.splits res.splits)

lemma validI:
  assumes "\<And>s x s'. P s \<Longrightarrow> m s = (Ok x, s') \<Longrightarrow> Q x s'"
    and "\<And>s e s'. P s \<Longrightarrow> m s = (Err e, s') \<Longrightarrow> E (Some e) s'"
    and "\<And>s p s'. P s \<Longrightarrow> m s = (Panic p, s') \<Longrightarrow> E None s'"
  shows "valid P m Q E"
  using assms by (auto simp: valid_def split: prod.splits res.splits)

lemma validD:
  assumes "valid P m Q E" and "P s"
  shows "m s = (Ok x, s') \<Longrightarrow> Q x s'" and "m s = (Err e, s') \<Longrightarrow> E (Some e) s'"
    and "m s = (Panic p, s') \<Longrightarrow> E None s'"
  using assms by (auto simp: valid_def)

lemma valid_conseq:
  assumes "valid P m Q E" and "\<And>s. P' s \<Longrightarrow> P s" and "\<And>x s. Q x s \<Longrightarrow> Q' x s"
    and "\<And>e s. E e s \<Longrightarrow> E' e s"
  shows "valid P' m Q' E'"
  by (rule validI) (use assms(2-4) validD [OF assms(1)] in blast)+

lemma valid_return [vrules]: "(\<And>s. P s \<Longrightarrow> Q x s) \<Longrightarrow> valid P (returnM x) Q E"
  by (simp add: valid_def returnM_def)

lemma valid_throw [vrules]: "(\<And>s. P s \<Longrightarrow> E (Some e) s) \<Longrightarrow> valid P (throwM e) Q E"
  by (simp add: valid_def throwM_def)

lemma valid_panic [vrules]: "(\<And>s. P s \<Longrightarrow> E None s) \<Longrightarrow> valid P (panicM p) Q E"
  by (simp add: valid_def panicM_def)

lemma valid_bind:
  assumes "valid P m R E" and "\<And>x. valid (R x) (f x) Q E"
  shows "valid P (bindM m f) Q E"
proof -
  have "case bindM m f s of (Ok x, s') \<Rightarrow> Q x s' | (Err e, s') \<Rightarrow> E (Some e) s'
      | (Panic p, s') \<Rightarrow> E None s'" if "P s" for s
  proof (cases "m s")
    case (Pair r u)
    show ?thesis
    proof (cases r)
      case (Ok x)
      with Pair that assms(1) have "R x u" by (simp add: validD)
      with assms(2) [of x] have "case f x u of (Ok x, s') \<Rightarrow> Q x s'
          | (Err e, s') \<Rightarrow> E (Some e) s' | (Panic p, s') \<Rightarrow> E None s'"
        by (simp add: valid_def)
      with Pair Ok show ?thesis by (simp add: bindM_def)
    qed (use Pair that validD [OF assms(1)] in \<open>auto simp: bindM_def\<close>)
  qed
  then show ?thesis by (simp add: valid_def)
qed

lemma valid_try:
  assumes "valid P m (\<lambda>x. Q (Inr x)) (\<lambda>e. case e of Some e \<Rightarrow> Q (Inl e) | None \<Rightarrow> E None)"
  shows "valid P (tryM m) Q E"
  by (rule validI) (auto simp: tryM_def split: prod.splits res.splits dest: validD [OF assms])

lemma valid_lift [vrules]:
  assumes "\<And>x s. r = Inr x \<Longrightarrow> P s \<Longrightarrow> Q x s" and "\<And>e s. r = Inl e \<Longrightarrow> P s \<Longrightarrow> E (Some e) s"
  shows "valid P (liftM r) Q E"
  using assms by (cases r) (auto simp: liftM_def valid_def throwM_def returnM_def)

lemma valid_if [vrules]:
  "(b \<Longrightarrow> valid P m Q E) \<Longrightarrow> (\<not> b \<Longrightarrow> valid P n Q E) \<Longrightarrow> valid P (if b then m else n) Q E"
  by simp

lemma valid_forM:
  "(\<And>x. x \<in> set xs \<Longrightarrow> valid I (f x) (\<lambda>_. I) E) \<Longrightarrow> valid I (forM xs f) (\<lambda>_. I) E"
  by (induction xs) (auto intro!: vrules valid_bind)

lemma valid_foldM:
  "(\<And>x a. x \<in> set xs \<Longrightarrow> valid (I a) (f a x) I E) \<Longrightarrow> valid (I a) (foldM f a xs) I E"
  by (induction xs arbitrary: a) (auto intro!: vrules valid_bind)

end
