(* ===== verification/Types.thy ===== *)
theory Types
  imports Prelude
begin

text \<open>
  The data the operator handles: the \<open>Undermoon\<close> custom resource
  (\<open>pkg/apis/undermoon/v1alpha1/undermoon_types.go\<close>), the payloads of the broker's HTTP API
  (\<open>broker_client.go\<close>), its error values, and of the Kubernetes API objects the fields that
  the operator sets or reads. A Go pointer that may be nil is an \<open>option\<close>, a Go map with string
  keys a partial function, a fixed array of two strings a pair.
\<close>

section \<open>Errors\<close>

text \<open>The three sentinel errors are compared by identity in the code
  (\<open>err == errRetryReconciliation\<close>), all other errors only by the predicates of
  \<open>k8s.io/apimachinery/pkg/api/errors\<close> (\<open>StatusError\<close>) or not at all.\<close>

datatype statusReason = ReasonNotFound | ReasonAlreadyExists | ReasonConflict | ReasonOther

datatype goerr =
    errRetryReconciliation
  | errMigrationRunning
  | errFreeNodeFound
  | Errorf string
  | StatusError statusReason string
  | ClientError string

definition IsNotFound :: "goerr \<Rightarrow> bool" where
  "IsNotFound e = (case e of StatusError r _ \<Rightarrow> r = ReasonNotFound | _ \<Rightarrow> False)"

definition IsAlreadyExists :: "goerr \<Rightarrow> bool" where
  "IsAlreadyExists e = (case e of StatusError r _ \<Rightarrow> r = ReasonAlreadyExists | _ \<Rightarrow> False)"

definition IsConflict :: "goerr \<Rightarrow> bool" where
  "IsConflict e = (case e of StatusError r _ \<Rightarrow> r = ReasonConflict | _ \<Rightarrow> False)"

section \<open>Kubernetes API objects\<close>

type_synonym labels = "string \<rightharpoonup> string"

record namespacedName =
  nn_Name :: string
  nn_Namespace :: string

record objectMeta =
  meta_Name :: string
  meta_Namespace :: string
  meta_Labels :: labels
  meta_OwnerReferences :: "string list"
  meta_ResourceVersion :: string

record resourceRequirements =
  res_Limits :: "string \<rightharpoonup> string"
  res_Requests :: "string \<rightharpoonup> string"

record envVar =
  env_Name :: string
  env_Value :: string
  env_FieldPath :: "string option"  \<comment> \<open>\<open>ValueFrom.FieldRef.FieldPath\<close>\<close>

record probe =
  probe_Command :: "string list"
  probe_PeriodSeconds :: int
  probe_SuccessThreshold :: int
  probe_FailureThreshold :: int

record container =
  ctr_Name :: string
  ctr_Image :: string
  ctr_ImagePullPolicy :: string
  ctr_Command :: "string list"
  ctr_Args :: "string list"
  ctr_Env :: "envVar list"
  ctr_Resources :: resourceRequirements
  ctr_PreStop :: "string list option"  \<comment> \<open>\<open>Lifecycle.PreStop.Exec.Command\<close>\<close>
  ctr_ReadinessProbe :: "probe option"

record weightedAffinity =
  aff_Weight :: int
  aff_MatchLabels :: labels
  aff_Namespaces :: "string list"
  aff_TopologyKey :: string

record podTemplate =
  tpl_Labels :: labels
  tpl_Containers :: "container list"
  tpl_Affinity :: "weightedAffinity list"  \<comment> \<open>preferred anti-affinity terms\<close>

record servicePort =
  port_Name :: string
  port_Port :: i32
  port_Protocol :: string

record service =
  svc_Meta :: objectMeta
  svc_Ports :: "servicePort list"
  svc_ClusterIP :: string
  svc_Selector :: labels
  svc_PublishNotReadyAddresses :: bool

record statefulSet =
  ss_Kind :: string
  ss_APIVersion :: string
  ss_Meta :: objectMeta
  ss_Selector :: labels
  ss_ServiceName :: string
  ss_Replicas :: "i32 option"
  ss_Template :: podTemplate
  ss_PodManagementPolicy :: string
  ss_StatusReplicas :: i32
  ss_StatusReadyReplicas :: i32
  ss_StatusCurrentReplicas :: i32

record endpointAddress =
  ep_Hostname :: string
  ep_IP :: string

record endpointSubset =
  sub_Addresses :: "endpointAddress list"
  sub_NotReadyAddresses :: "endpointAddress list"

record endpoints =
  eps_Subsets :: "endpointSubset list"

section \<open>The custom resource\<close>

record undermoonSpec =
  ClusterName :: string
  ChunkNumber :: u32
  MaxMemory :: u32
  Port :: u32
  ActiveRedirection :: bool
  ProxyThreads :: u32
  UndermoonImage :: string
  UndermoonImagePullPolicy :: string
  RedisImage :: string
  BrokerResources :: resourceRequirements
  CoordinatorResources :: resourceRequirements
  ProxyResources :: resourceRequirements
  RedisResources :: resourceRequirements

record undermoonStatus =
  MasterBrokerAddress :: string

record undermoon =
  um_Meta :: objectMeta
  Spec :: undermoonSpec
  Status :: undermoonStatus

abbreviation crName :: "undermoon \<Rightarrow> string" where
  "crName cr \<equiv> meta_Name (um_Meta cr)"

abbreviation crNamespace :: "undermoon \<Rightarrow> string" where
  "crNamespace cr \<equiv> meta_Namespace (um_Meta cr)"

text \<open>The validation rules of the resource (the \<open>+kubebuilder:validation\<close> markers), which
  the API server enforces before the operator sees a resource.\<close>

definition validSpec :: "undermoonSpec \<Rightarrow> bool" where
  "validSpec sp \<longleftrightarrow>
     1 \<le> length (ClusterName sp) \<and> length (ClusterName sp) \<le> 30 \<and>
     1 \<le> unat (ChunkNumber sp) \<and>
     1 \<le> unat (MaxMemory sp) \<and>
     1 \<le> unat (Port sp) \<and> unat (Port sp) \<le> 65535 \<and>
     1 \<le> unat (ProxyThreads sp) \<and>
     1 \<le> length (UndermoonImage sp) \<and>
     1 \<le> length (RedisImage sp)"

section \<open>Payloads of the broker's HTTP API\<close>

record errorResponse =
  er_Error :: string

record brokerConfig =
  ReplicaAddresses :: "string list"

record queryServerProxyResponse =
  Addresses :: "string list"

record serverProxyMeta =
  ProxyAddress :: string
  RedisAddresses :: "string \<times> string"
  Host :: string
  Index :: i64

record brokerConfigPayload =
  payload_ReplicaAddresses :: "string list"

record createClusterPayload =
  NodeNumber :: i64

record queryClusterNamesPayload =
  Names :: "string list"

record clusterInfo =
  info_Name :: string
  info_NodeNumber :: i64
  NodeNumberWithSlots :: i64
  IsMigrating :: bool

text \<open>A value behind \<open>interface{}\<close>: what \<open>SetBody\<close> takes and what \<open>Result()\<close> and
  \<open>Error()\<close> give back. The accessors are the type assertions \<open>x, ok := v.(*T)\<close>.\<close>

datatype payload =
    PErrorResponse errorResponse
  | PBrokerConfig brokerConfig
  | PServerProxies queryServerProxyResponse
  | PServerProxyMeta serverProxyMeta
  | PBrokerConfigPayload brokerConfigPayload
  | PCreateCluster createClusterPayload
  | PClusterNames queryClusterNamesPayload
  | PClusterInfo clusterInfo

datatype payloadKind = KErrorResponse | KBrokerConfig | KServerProxies | KClusterNames | KClusterInfo

fun asErrorResponse :: "payload option \<Rightarrow> errorResponse option" where
  "asErrorResponse (Some (PErrorResponse x)) = Some x"
| "asErrorResponse _ = None"

fun asBrokerConfig :: "payload option \<Rightarrow> brokerConfig option" where
  "asBrokerConfig (Some (PBrokerConfig x)) = Some x"
| "asBrokerConfig _ = None"

fun asServerProxies :: "payload option \<Rightarrow> queryServerProxyResponse option" where
  "asServerProxies (Some (PServerProxies x)) = Some x"
| "asServerProxies _ = None"

fun asClusterNames :: "payload option \<Rightarrow> queryClusterNamesPayload option" where
  "asClusterNames (Some (PClusterNames x)) = Some x"
| "asClusterNames _ = None"

fun asClusterInfo :: "payload option \<Rightarrow> clusterInfo option" where
  "asClusterInfo (Some (PClusterInfo x)) = Some x"
| "asClusterInfo _ = None"

section \<open>HTTP and Redis messages\<close>

datatype httpMethod = GET | PUT | POST | DELETE

record httpRequest =
  req_Method :: httpMethod
  req_Url :: string
  req_Body :: "payload option"
  req_SetResult :: "payloadKind option"
  req_SetError :: "payloadKind option"

record httpResponse =
  StatusCode :: int
  resp_Body :: string
  resp_Result :: "payload option"
  resp_Error :: "payload option"

text \<open>A Redis command after \<open>Process\<close>: its reply and its error.\<close>

record redisCmd =
  cmd_Int :: i64
  cmd_Str :: string
  cmd_Err :: "goerr option"

section \<open>The result of a reconciliation\<close>

record reconcileResult =
  Requeue :: bool
  RequeueAfter :: int  \<comment> \<open>nanoseconds\<close>

definition Second :: int where
  "Second = 1000000000"

record reconcileRequest =
  NamespacedName :: namespacedName

end
