(* ===== verification/World.thy ===== *)
theory World
  imports Types
begin

text \<open>
  What the operator talks to, and the state it runs on.

  The Kubernetes API server (through the client of controller-runtime), the HTTP servers of the
  brokers (through resty) and the Redis servers of coordinators and server proxies (through
  go-redis) are not code of this repository: they are the fields of a record \<open>env\<close>, over a type
  \<open>'w\<close> of world states about which nothing is assumed. A call may change the world in any way
  and may fail. \<open>history\<close> is a ghost variable: every call is recorded there with its answer,
  newest first, and no code reads it; the properties are stated over it.
\<close>

section \<open>The environment\<close>

record 'w env =
  Get_Undermoon :: "namespacedName \<Rightarrow> 'w \<Rightarrow> (goerr + undermoon) \<times> 'w"
  Get_Service :: "namespacedName \<Rightarrow> 'w \<Rightarrow> (goerr + service) \<times> 'w"
  Get_StatefulSet :: "namespacedName \<Rightarrow> 'w \<Rightarrow> (goerr + statefulSet) \<times> 'w"
  Get_Endpoints :: "namespacedName \<Rightarrow> 'w \<Rightarrow> (goerr + endpoints) \<times> 'w"
  Create_Service :: "service \<Rightarrow> 'w \<Rightarrow> (goerr + service) \<times> 'w"
  Create_StatefulSet :: "statefulSet \<Rightarrow> 'w \<Rightarrow> (goerr + statefulSet) \<times> 'w"
  Update_StatefulSet :: "statefulSet \<Rightarrow> 'w \<Rightarrow> (goerr + statefulSet) \<times> 'w"
  Update_Status :: "undermoon \<Rightarrow> 'w \<Rightarrow> (goerr + undermoon) \<times> 'w"
  SetControllerReference_Service :: "undermoon \<Rightarrow> service \<Rightarrow> goerr + service"
  SetControllerReference_StatefulSet :: "undermoon \<Rightarrow> statefulSet \<Rightarrow> goerr + statefulSet"
  Http :: "httpRequest \<Rightarrow> 'w \<Rightarrow> (goerr + httpResponse) \<times> 'w"
  Redis_Process :: "string \<Rightarrow> string list \<Rightarrow> 'w \<Rightarrow> (goerr option \<times> redisCmd) \<times> 'w"

datatype event =
    EvGetUndermoon namespacedName "goerr + undermoon"
  | EvGetService namespacedName "goerr + service"
  | EvGetStatefulSet namespacedName "goerr + statefulSet"
  | EvGetEndpoints namespacedName "goerr + endpoints"
  | EvCreateService service "goerr + service"
  | EvCreateStatefulSet statefulSet "goerr + statefulSet"
  | EvUpdateStatefulSet statefulSet "goerr + statefulSet"
  | EvUpdateStatus undermoon "goerr + undermoon"
  | EvHttp httpRequest "goerr + httpResponse"
  | EvRedis string "string list" "goerr option \<times> redisCmd"

section \<open>The state of the operator\<close>

text \<open>Between reconciliations the operator keeps only the two pools of Redis clients
  (\<open>utils.go\<close>). A client is a pointer: its number is its identity, \<open>nextClient\<close> counts the
  clients made so far.\<close>

record redisClient =
  client_Id :: nat
  client_Addr :: string

record redisClientPool =
  clients :: "string \<rightharpoonup> redisClient"

record 'w sys =
  world :: 'w
  history :: "event list"
  coordPool :: redisClientPool
  proxyPool :: redisClientPool
  nextClient :: nat

type_synonym ('w, 'a) op = "('w sys, goerr, 'a) gom"

section \<open>Calls to the environment\<close>

definition call :: "('w \<Rightarrow> 'r \<times> 'w) \<Rightarrow> ('r \<Rightarrow> event) \<Rightarrow> ('w, 'r) op" where
  "call f ev = (\<lambda>s. case f (world s) of (r, w') \<Rightarrow>
     (Ok r, s\<lparr>world := w', history := ev r # history s\<rparr>))"

definition callE :: "('w \<Rightarrow> (goerr + 'r) \<times> 'w) \<Rightarrow> (goerr + 'r \<Rightarrow> event) \<Rightarrow> ('w, 'r) op" where
  "callE f ev = bindM (call f ev) liftM"

definition getUndermoon :: "'w env \<Rightarrow> namespacedName \<Rightarrow> ('w, undermoon) op" where
  "getUndermoon env n = callE (Get_Undermoon env n) (EvGetUndermoon n)"

definition getService :: "'w env \<Rightarrow> namespacedName \<Rightarrow> ('w, service) op" where
  "getService env n = callE (Get_Service env n) (EvGetService n)"

definition getStatefulSet :: "'w env \<Rightarrow> namespacedName \<Rightarrow> ('w, statefulSet) op" where
  "getStatefulSet env n = callE (Get_StatefulSet env n) (EvGetStatefulSet n)"

definition getEndpointsObj :: "'w env \<Rightarrow> namespacedName \<Rightarrow> ('w, endpoints) op" where
  "getEndpointsObj env n = callE (Get_Endpoints env n) (EvGetEndpoints n)"

definition createService :: "'w env \<Rightarrow> service \<Rightarrow> ('w, service) op" where
  "createService env x = callE (Create_Service env x) (EvCreateService x)"

definition createStatefulSet :: "'w env \<Rightarrow> statefulSet \<Rightarrow> ('w, statefulSet) op" where
  "createStatefulSet env x = callE (Create_StatefulSet env x) (EvCreateStatefulSet x)"

definition updateStatefulSet :: "'w env \<Rightarrow> statefulSet \<Rightarrow> ('w, statefulSet) op" where
  "updateStatefulSet env x = callE (Update_StatefulSet env x) (EvUpdateStatefulSet x)"

definition updateStatus :: "'w env \<Rightarrow> undermoon \<Rightarrow> ('w, undermoon) op" where
  "updateStatus env x = callE (Update_Status env x) (EvUpdateStatus x)"

definition http :: "'w env \<Rightarrow> httpRequest \<Rightarrow> ('w, httpResponse) op" where
  "http env x = callE (Http env x) (EvHttp x)"

definition redisProcess :: "'w env \<Rightarrow> string \<Rightarrow> string list \<Rightarrow> ('w, goerr option \<times> redisCmd) op" where
  "redisProcess env a args = call (Redis_Process env a args) (EvRedis a args)"

lemmas call_defs = getUndermoon_def getService_def getStatefulSet_def getEndpointsObj_def
  createService_def createStatefulSet_def updateStatefulSet_def updateStatus_def http_def
  redisProcess_def

section \<open>Which calls a computation makes\<close>

text \<open>\<open>emits m A\<close>: whatever the state, the outcome and the environment, \<open>m\<close> adds to the
  history only events that satisfy \<open>A\<close>.\<close>

definition emits :: "('w, 'a) op \<Rightarrow> (event \<Rightarrow> bool) \<Rightarrow> bool" where
  "emits m A \<longleftrightarrow> (\<forall>s. \<exists>es. history (snd (m s)) = es @ history s \<and> (\<forall>e \<in> set es. A e))"

named_theorems emits_intros \<open>which events each construct and each operation may add\<close>

lemma emitsI: "(\<And>s r t. m s = (r, t) \<Longrightarrow> \<exists>es. history t = es @ history s \<and> (\<forall>e \<in> set es. A e)) \<Longrightarrow> emits m A"
  unfolding emits_def by (metis prod.collapse)

lemma emitsD: "emits m A \<Longrightarrow> m s = (r, t) \<Longrightarrow> \<exists>es. history t = es @ history s \<and> (\<forall>e \<in> set es. A e)"
  unfolding emits_def by (metis snd_conv)

lemma emits_mono: "emits m A \<Longrightarrow> (\<And>e. A e \<Longrightarrow> B e) \<Longrightarrow> emits m B"
  unfolding emits_def by meson

lemma emits_return [emits_intros]: "emits (returnM x) A"
  by (simp add: emits_def returnM_def)

lemma emits_throw [emits_intros]: "emits (throwM x) A"
  by (simp add: emits_def throwM_def)

lemma emits_panic [emits_intros]: "emits (panicM x) A"
  by (simp add: emits_def panicM_def)

lemma emits_lift [emits_intros]: "emits (liftM r) A"
  by (cases r) (simp_all add: emits_def liftM_def throwM_def returnM_def)

lemma emits_bind [emits_intros]:
  assumes "emits m A" and "\<And>x. emits (f x) A"
  shows "emits (bindM m f) A"
proof (rule emitsI)
  fix s r t assume "bindM m f s = (r, t)"
  then obtain r' u where m: "m s = (r', u)"
    and k: "(\<exists>x. r' = Ok x \<and> f x u = (r, t)) \<or> t = u"
    by (auto simp: bindM_def split: prod.splits res.splits)
  obtain es where es: "history u = es @ history s" "\<forall>e \<in> set es. A e"
    using emitsD [OF assms(1) m] by blast
  from k show "\<exists>es. history t = es @ history s \<and> (\<forall>e \<in> set es. A e)"
  proof (elim disjE exE conjE)
    fix x assume "f x u = (r, t)"
    then obtain fs where "history t = fs @ history u" "\<forall>e \<in> set fs. A e"
      using emitsD [OF assms(2)] by blast
    with es show ?thesis by (intro exI [of _ "fs @ es"]) auto
  qed (use es in auto)
qed

lemma emits_try [emits_intros]: "emits m A \<Longrightarrow> emits (tryM m) A"
  by (rule emitsI) (auto simp: tryM_def split: prod.splits res.splits dest: emitsD)

lemma emits_if [emits_intros]:
  "(b \<Longrightarrow> emits m A) \<Longrightarrow> (\<not> b \<Longrightarrow> emits n A) \<Longrightarrow> emits (if b then m else n) A"
  by simp

lemma emits_case_sum [emits_intros]:
  "(\<And>a. r = Inl a \<Longrightarrow> emits (f a) A) \<Longrightarrow> (\<And>b. r = Inr b \<Longrightarrow> emits (g b) A) \<Longrightarrow> emits (case r of Inl a \<Rightarrow> f a | Inr b \<Rightarrow> g b) A"
  by (cases r) auto

lemma emits_case_option [emits_intros]:
  "(r = None \<Longrightarrow> emits m A) \<Longrightarrow> (\<And>b. r = Some b \<Longrightarrow> emits (g b) A) \<Longrightarrow> emits (case r of None \<Rightarrow> m | Some b \<Rightarrow> g b) A"
  by (cases r) auto

lemma emits_case_prod [emits_intros]:
  "(\<And>a b. r = (a, b) \<Longrightarrow> emits (f a b) A) \<Longrightarrow> emits (case r of (a, b) \<Rightarrow> f a b) A"
  by (cases r) auto

lemma emits_let [emits_intros]: "emits (f x) A \<Longrightarrow> emits (let y = x in f y) A"
  by simp

lemma emits_forM [emits_intros]: "(\<And>x. x \<in> set xs \<Longrightarrow> emits (f x) A) \<Longrightarrow> emits (forM xs f) A"
  by (induction xs) (auto intro!: emits_intros)

lemma emits_foldM [emits_intros]:
  "(\<And>a x. x \<in> set xs \<Longrightarrow> emits (f a x) A) \<Longrightarrow> emits (foldM f a xs) A"
  by (induction xs arbitrary: a) (auto intro!: emits_intros)

lemma emits_call: "(\<And>r. A (ev r)) \<Longrightarrow> emits (call f ev) A"
  by (auto simp: emits_def call_def split: prod.splits)

lemma emits_callE: "(\<And>r. A (ev r)) \<Longrightarrow> emits (callE f ev) A"
  unfolding callE_def by (intro emits_intros emits_call)

lemma emits_getUndermoon [emits_intros]:
  "(\<And>r. A (EvGetUndermoon n r)) \<Longrightarrow> emits (getUndermoon env n) A"
  by (simp add: getUndermoon_def emits_callE)

lemma emits_getService [emits_intros]:
  "(\<And>r. A (EvGetService n r)) \<Longrightarrow> emits (getService env n) A"
  by (simp add: getService_def emits_callE)

lemma emits_getStatefulSet [emits_intros]:
  "(\<And>r. A (EvGetStatefulSet n r)) \<Longrightarrow> emits (getStatefulSet env n) A"
  by (simp add: getStatefulSet_def emits_callE)

lemma emits_getEndpointsObj [emits_intros]:
  "(\<And>r. A (EvGetEndpoints n r)) \<Longrightarrow> emits (getEndpointsObj env n) A"
  by (simp add: getEndpointsObj_def emits_callE)

lemma emits_createService [emits_intros]:
  "(\<And>r. A (EvCreateService n r)) \<Longrightarrow> emits (createService env n) A"
  by (simp add: createService_def emits_callE)

lemma emits_createStatefulSet [emits_intros]:
  "(\<And>r. A (EvCreateStatefulSet n r)) \<Longrightarrow> emits (createStatefulSet env n) A"
  by (simp add: createStatefulSet_def emits_callE)

lemma emits_updateStatefulSet [emits_intros]:
  "(\<And>r. A (EvUpdateStatefulSet n r)) \<Longrightarrow> emits (updateStatefulSet env n) A"
  by (simp add: updateStatefulSet_def emits_callE)

lemma emits_updateStatus [emits_intros]:
  "(\<And>r. A (EvUpdateStatus n r)) \<Longrightarrow> emits (updateStatus env n) A"
  by (simp add: updateStatus_def emits_callE)

lemma emits_http [emits_intros]:
  "(\<And>r. A (EvHttp n r)) \<Longrightarrow> emits (http env n) A"
  by (simp add: http_def emits_callE)

lemma emits_redisProcess [emits_intros]:
  "(\<And>r. A (EvRedis a args r)) \<Longrightarrow> emits (redisProcess env a args) A"
  by (simp add: redisProcess_def emits_call)

section \<open>Assertions over the history\<close>

text \<open>\<open>hvalid H m Q E\<close>: from any state whose history satisfies \<open>H\<close>, in any environment,
  \<open>m\<close> ends with a history that satisfies \<open>Q\<close> for its value, or \<open>E\<close> for its error.\<close>

definition hvalid :: "(event list \<Rightarrow> bool) \<Rightarrow> ('w, 'a) op \<Rightarrow> ('a \<Rightarrow> event list \<Rightarrow> bool)
    \<Rightarrow> (goerr option \<Rightarrow> event list \<Rightarrow> bool) \<Rightarrow> bool" where
  "hvalid H m Q E \<longleftrightarrow>
     valid (\<lambda>s. H (history s)) m (\<lambda>x s. Q x (history s)) (\<lambda>e s. E e (history s))"

named_theorems hrules \<open>rules of the history logic\<close>

lemma hvalidD:
  assumes "hvalid H m Q E" and "H (history s)"
  shows "m s = (Ok x, t) \<Longrightarrow> Q x (history t)" and "m s = (Err e, t) \<Longrightarrow> E (Some e) (history t)"
    and "m s = (Panic p, t) \<Longrightarrow> E None (history t)"
  using assms unfolding hvalid_def by (auto dest: validD)

lemma hvalid_conseq:
  assumes "hvalid H m Q E" and "\<And>h. H' h \<Longrightarrow> H h" and "\<And>x h. Q x h \<Longrightarrow> Q' x h"
    and "\<And>e h. E e h \<Longrightarrow> E' e h"
  shows "hvalid H' m Q' E'"
  using assms unfolding hvalid_def by (auto intro: valid_conseq)

lemma hvalid_at: "(\<And>h0. H h0 \<Longrightarrow> hvalid (\<lambda>h. h = h0) m Q E) \<Longrightarrow> hvalid H m Q E"
  by (simp add: hvalid_def valid_def)

lemma hvalid_return [hrules]: "(\<And>h. H h \<Longrightarrow> Q x h) \<Longrightarrow> hvalid H (returnM x) Q E"
  by (simp add: hvalid_def valid_return)

lemma hvalid_throw [hrules]: "(\<And>h. H h \<Longrightarrow> E (Some e) h) \<Longrightarrow> hvalid H (throwM e) Q E"
  by (simp add: hvalid_def valid_throw)

lemma hvalid_panic [hrules]: "(\<And>h. H h \<Longrightarrow> E None h) \<Longrightarrow> hvalid H (panicM p) Q E"
  by (simp add: hvalid_def valid_panic)

lemma hvalid_bind:
  "hvalid H m R E \<Longrightarrow> (\<And>x. hvalid (R x) (f x) Q E) \<Longrightarrow> hvalid H (bindM m f) Q E"
  unfolding hvalid_def by (rule valid_bind)

lemma hvalid_try:
  "hvalid H m (\<lambda>x. Q (Inr x)) (\<lambda>e h. case e of Some e \<Rightarrow> Q (Inl e) h | None \<Rightarrow> E None h)
    \<Longrightarrow> hvalid H (tryM m) Q E"
  unfolding hvalid_def
  by (rule valid_try, rule valid_conseq, assumption) (auto split: option.splits)

lemma hvalid_if [hrules]:
  "(b \<Longrightarrow> hvalid H m Q E) \<Longrightarrow> (\<not> b \<Longrightarrow> hvalid H n Q E) \<Longrightarrow> hvalid H (if b then m else n) Q E"
  by simp

lemma hvalid_case_sum [hrules]:
  "(\<And>a. r = Inl a \<Longrightarrow> hvalid H (f a) Q E) \<Longrightarrow> (\<And>b. r = Inr b \<Longrightarrow> hvalid H (g b) Q E)
    \<Longrightarrow> hvalid H (case r of Inl a \<Rightarrow> f a | Inr b \<Rightarrow> g b) Q E"
  by (cases r) auto

lemma hvalid_case_option [hrules]:
  "(r = None \<Longrightarrow> hvalid H m Q E) \<Longrightarrow> (\<And>b. r = Some b \<Longrightarrow> hvalid H (g b) Q E)
    \<Longrightarrow> hvalid H (case r of None \<Rightarrow> m | Some b \<Rightarrow> g b) Q E"
  by (cases r) auto

lemma hvalid_case_prod [hrules]:
  "(\<And>a b. r = (a, b) \<Longrightarrow> hvalid H (f a b) Q E) \<Longrightarrow> hvalid H (case r of (a, b) \<Rightarrow> f a b) Q E"
  by (cases r) auto

lemma hvalid_forM:
  "(\<And>x. x \<in> set xs \<Longrightarrow> hvalid H (f x) (\<lambda>_. H) E) \<Longrightarrow> hvalid H (forM xs f) (\<lambda>_. H) E"
  unfolding hvalid_def by (rule valid_forM)

lemma hvalid_foldM:
  "(\<And>x a. x \<in> set xs \<Longrightarrow> hvalid (H a) (f a x) H E) \<Longrightarrow> hvalid (H a) (foldM f a xs) H E"
  unfolding hvalid_def by (rule valid_foldM)

lemma hvalid_call:
  "(\<And>r h. H h \<Longrightarrow> Q r (ev r # h)) \<Longrightarrow> hvalid H (call f ev) Q E"
  by (auto simp: hvalid_def valid_def call_def split: prod.splits)

lemma hvalid_callE:
  assumes "\<And>x h. H h \<Longrightarrow> Q x (ev (Inr x) # h)" and "\<And>e h. H h \<Longrightarrow> E (Some e) (ev (Inl e) # h)"
  shows "hvalid H (callE f ev) Q E"
  unfolding callE_def
  by (rule hvalid_bind [where R = "\<lambda>r h. case r of Inl e \<Rightarrow> E (Some e) h | Inr x \<Rightarrow> Q x h"])
    (auto intro!: hvalid_call assms hrules simp: liftM_def split: sum.splits)

text \<open>An assertion that every event a computation may add preserves is kept by it.\<close>

lemma hvalid_emits:
  assumes "emits m A" and "\<And>e h. A e \<Longrightarrow> H h \<Longrightarrow> H (e # h)"
  shows "hvalid H m (\<lambda>_. H) (\<lambda>_. H)"
proof -
  have "H h \<Longrightarrow> \<forall>e \<in> set es. A e \<Longrightarrow> H (es @ h)" for es h
    by (induction es) (auto intro: assms(2))
  then show ?thesis
    unfolding hvalid_def by (intro validI) (metis emitsD [OF assms(1)])+
qed

lemma hvalid_conj:
  assumes "hvalid H m Q E" and "hvalid H' m Q' E'"
  shows "hvalid (\<lambda>h. H h \<and> H' h) m (\<lambda>x h. Q x h \<and> Q' x h) (\<lambda>e h. E e h \<and> E' e h)"
  unfolding hvalid_def
  by (rule validI) (use assms in \<open>auto dest: hvalidD\<close>)

lemma hvalid_post:
  assumes "hvalid H m Q E" and "\<And>x h. Q x h \<Longrightarrow> Q' x h" and "\<And>e h. E e h \<Longrightarrow> E' e h"
  shows "hvalid H m Q' E'"
  by (rule hvalid_conseq [OF assms(1)]) (use assms(2,3) in auto)

lemma hvalid_pre: "hvalid H m Q E \<Longrightarrow> (\<And>h. H' h \<Longrightarrow> H h) \<Longrightarrow> hvalid H' m Q E"
  by (erule hvalid_conseq) auto

section \<open>Kinds of calls\<close>

datatype evKind = KReadCR | KLookup | KCreate | KEndpoints | KUpdateSS | KStatus | KHttp | KRedis

fun kind :: "event \<Rightarrow> evKind" where
  "kind (EvGetUndermoon _ _) = KReadCR"
| "kind (EvGetService _ _) = KLookup"
| "kind (EvGetStatefulSet _ _) = KLookup"
| "kind (EvGetEndpoints _ _) = KEndpoints"
| "kind (EvCreateService _ _) = KCreate"
| "kind (EvCreateStatefulSet _ _) = KCreate"
| "kind (EvUpdateStatefulSet _ _) = KUpdateSS"
| "kind (EvUpdateStatus _ _) = KStatus"
| "kind (EvHttp _ _) = KHttp"
| "kind (EvRedis _ _ _) = KRedis"

text \<open>\<open>usesOnly m K\<close>: the calls that \<open>m\<close> makes are of the kinds in \<open>K\<close>.\<close>

abbreviation usesOnly :: "('w, 'a) op \<Rightarrow> evKind set \<Rightarrow> bool" where
  "usesOnly m K \<equiv> emits m (\<lambda>e. kind e \<in> K)"

named_theorems uses \<open>the kinds of calls of each operation\<close>

lemma usesOnly_mono: "usesOnly m K \<Longrightarrow> K \<subseteq> L \<Longrightarrow> usesOnly m L"
  by (erule emits_mono) auto

section \<open>State predicates that survive\<close>

text \<open>\<open>preserves I m\<close>: whatever the outcome, \<open>m\<close> keeps the state predicate \<open>I\<close>.\<close>

definition preserves :: "('w sys \<Rightarrow> bool) \<Rightarrow> ('w, 'a) op \<Rightarrow> bool" where
  "preserves I m \<longleftrightarrow> (\<forall>s. I s \<longrightarrow> I (snd (m s)))"

named_theorems preserves_intros \<open>rules for state predicates that survive\<close>

lemma preservesD: "preserves I m \<Longrightarrow> I s \<Longrightarrow> m s = (r, t) \<Longrightarrow> I t"
  unfolding preserves_def by (metis snd_conv)

lemma preserves_return [preserves_intros]: "preserves I (returnM x)"
  by (simp add: preserves_def returnM_def)

lemma preserves_throw [preserves_intros]: "preserves I (throwM x)"
  by (simp add: preserves_def throwM_def)

lemma preserves_panic [preserves_intros]: "preserves I (panicM x)"
  by (simp add: preserves_def panicM_def)

lemma preserves_lift [preserves_intros]: "preserves I (liftM r)"
  by (cases r) (simp_all add: liftM_def preserves_intros)

lemma preservesI: "(\<And>s r t. I s \<Longrightarrow> m s = (r, t) \<Longrightarrow> I t) \<Longrightarrow> preserves I m"
  unfolding preserves_def by (metis prod.collapse)

lemma preserves_bind [preserves_intros]:
  "preserves I m \<Longrightarrow> (\<And>x. preserves I (f x)) \<Longrightarrow> preserves I (bindM m f)"
  by (rule preservesI) (auto simp: bindM_def split: prod.splits res.splits dest: preservesD)

lemma preserves_try [preserves_intros]: "preserves I m \<Longrightarrow> preserves I (tryM m)"
  by (rule preservesI) (auto simp: tryM_def split: prod.splits res.splits dest: preservesD)

lemma preserves_if [preserves_intros]:
  "preserves I m \<Longrightarrow> preserves I n \<Longrightarrow> preserves I (if b then m else n)"
  by simp

lemma preserves_case_sum [preserves_intros]:
  "(\<And>a. preserves I (f a)) \<Longrightarrow> (\<And>b. preserves I (g b)) \<Longrightarrow> preserves I (case r of Inl a \<Rightarrow> f a | Inr b \<Rightarrow> g b)"
  by (cases r) auto

lemma preserves_case_option [preserves_intros]:
  "preserves I m \<Longrightarrow> (\<And>b. preserves I (g b)) \<Longrightarrow> preserves I (case r of None \<Rightarrow> m | Some b \<Rightarrow> g b)"
  by (cases r) auto

lemma preserves_case_prod [preserves_intros]:
  "(\<And>a b. preserves I (f a b)) \<Longrightarrow> preserves I (case r of (a, b) \<Rightarrow> f a b)"
  by (cases r) auto

lemma preserves_forM [preserves_intros]: "(\<And>x. preserves I (f x)) \<Longrightarrow> preserves I (forM xs f)"
  by (induction xs) (auto intro!: preserves_intros)

lemma preserves_foldM [preserves_intros]: "(\<And>a x. preserves I (f a x)) \<Longrightarrow> preserves I (foldM f a xs)"
  by (induction xs arbitrary: a) (auto intro!: preserves_intros)

text \<open>A predicate that depends on neither the world nor the history survives every call.\<close>

definition offWorld :: "('w sys \<Rightarrow> bool) \<Rightarrow> bool" where
  "offWorld I \<longleftrightarrow> (\<forall>s w h. I (s\<lparr>world := w, history := h\<rparr>) = I s)"

lemma preserves_call: "offWorld I \<Longrightarrow> preserves I (call f ev)"
  by (auto simp: preserves_def call_def offWorld_def split: prod.splits)

lemma preserves_callE: "offWorld I \<Longrightarrow> preserves I (callE f ev)"
  unfolding callE_def by (intro preserves_intros preserves_call)

lemma preserves_calls [preserves_intros]:
  assumes "offWorld I"
  shows "preserves I (getUndermoon env n)" "preserves I (getService env n)"
    "preserves I (getStatefulSet env n)" "preserves I (getEndpointsObj env n)"
    "preserves I (createService env svc)" "preserves I (createStatefulSet env ss)"
    "preserves I (updateStatefulSet env ss)" "preserves I (updateStatus env cr)"
    "preserves I (http env q)" "preserves I (redisProcess env a args)"
  unfolding call_defs by (intro preserves_call preserves_callE assms)+

end
