(* ===== verification/Utils.thy ===== *)
theory Utils
  imports World
begin

text \<open>
  \<open>pkg/controller/undermoon/utils.go\<close>: the retry guards around object creation, the endpoint
  lookup, the pool of Redis clients and the small builders shared by the three workloads.
  The interface of a pool, as its two clients use it, is the locale \<open>client_pool\<close>.
\<close>

section \<open>Constants\<close>

definition chunkNodeNumber :: i64 where
  "chunkNodeNumber = 4"

definition halfChunkNodeNumber :: i64 where
  "halfChunkNodeNumber = 2"

section \<open>Creation guards\<close>

text \<open>\<open>for i := 0; i != 3; i++\<close>: try again while the object already exists, keep the last
  error. After the loop the code returns the last error; with no iteration at all it would
  return a nil object and a nil error, which every caller dereferences.\<close>

fun createGuardLoop :: "nat \<Rightarrow> goerr option \<Rightarrow> ('w, 'a) op \<Rightarrow> ('w, 'a) op" where
  "createGuardLoop 0 err createFunc =
     (case err of Some e \<Rightarrow> throwM e | None \<Rightarrow> panicM ''nil object'')"
| "createGuardLoop (Suc i) err createFunc =
     bindM (tryM createFunc) (\<lambda>r. case r of
       Inr x \<Rightarrow> returnM x
     | Inl e \<Rightarrow> if IsAlreadyExists e then createGuardLoop i (Some e) createFunc else throwM e)"

definition createServiceGuard :: "('w, service) op \<Rightarrow> ('w, service) op" where
  "createServiceGuard createFunc = createGuardLoop 3 None createFunc"

definition createStatefulSetGuard :: "('w, statefulSet) op \<Rightarrow> ('w, statefulSet) op" where
  "createStatefulSetGuard createFunc = createGuardLoop 3 None createFunc"

section \<open>Endpoints\<close>

definition getEndpoints :: "'w env \<Rightarrow> string \<Rightarrow> string \<Rightarrow> ('w, endpointAddress list) op" where
  "getEndpoints env serviceName namespace =
     bindM (tryM (getEndpointsObj env \<lparr>nn_Name = serviceName, nn_Namespace = namespace\<rparr>)) (\<lambda>r.
       case r of
         Inl e \<Rightarrow> if IsNotFound e then returnM [] else throwM e
       | Inr eps \<Rightarrow> returnM (concat (map sub_Addresses (eps_Subsets eps))))"

section \<open>Container helpers\<close>

definition podIPEnvStr :: string where
  "podIPEnvStr = ''$(UM_POD_IP)''"

definition podNameStr :: string where
  "podNameStr = ''$(UM_POD_NAME)''"

definition podIPEnv :: envVar where
  "podIPEnv = \<lparr>env_Name = ''UM_POD_IP'', env_Value = '''', env_FieldPath = Some ''status.podIP''\<rparr>"

definition podNameEnv :: envVar where
  "podNameEnv = \<lparr>env_Name = ''UM_POD_NAME'', env_Value = '''', env_FieldPath = Some ''metadata.name''\<rparr>"

abbreviation envValue :: "string \<Rightarrow> string \<Rightarrow> envVar" where
  "envValue n v \<equiv> \<lparr>env_Name = n, env_Value = v, env_FieldPath = None\<rparr>"

definition genAntiAffinity :: "labels \<Rightarrow> string \<Rightarrow> string \<Rightarrow> weightedAffinity list" where
  "genAntiAffinity lbls namespace topologyKey =
     [\<lparr>aff_Weight = 2, aff_MatchLabels = lbls, aff_Namespaces = [namespace],
       aff_TopologyKey = topologyKey\<rparr>]"

definition genPreStopHookLifeCycle :: "string list \<Rightarrow> string list option" where
  "genPreStopHookLifeCycle cmd = Some cmd"

section \<open>The pool of Redis clients\<close>

text \<open>The pool's mutex is held for the whole of \<open>getClient\<close>, so the operation is one step on
  the map. \<open>redis.NewClient\<close> allocates: it takes the next client number.\<close>

definition newRedisClientPool :: redisClientPool where
  "newRedisClientPool = \<lparr>clients = Map.empty\<rparr>"

definition getClient :: "redisClientPool \<Rightarrow> nat \<Rightarrow> string \<Rightarrow> redisClient \<times> redisClientPool \<times> nat" where
  "getClient pool n redisAddress =
     (case clients pool redisAddress of
        Some client \<Rightarrow> (client, pool, n)
      | None \<Rightarrow>
          (let client = \<lparr>client_Id = n, client_Addr = redisAddress\<rparr>
           in (client, pool\<lparr>clients := (clients pool)(redisAddress \<mapsto> client)\<rparr>, Suc n)))"

text \<open>The pool's invariant, relative to the clients made so far: a client is filed under its own
  address, and all of them have been made.\<close>

definition poolInv :: "nat \<Rightarrow> redisClientPool \<Rightarrow> bool" where
  "poolInv n pool \<longleftrightarrow> (\<forall>a c. clients pool a = Some c \<longrightarrow> client_Addr c = a \<and> client_Id c < n)"

lemma poolInv_new: "poolInv n newRedisClientPool"
  by (simp add: poolInv_def newRedisClientPool_def)

lemma poolInv_mono: "poolInv m pool \<Longrightarrow> m \<le> n \<Longrightarrow> poolInv n pool"
  by (fastforce simp: poolInv_def)

lemma getClient_spec:
  assumes "getClient pool n a = (c, pool', n')"
  shows "clients pool' a = Some c" and "n \<le> n'"
    and "clients pool \<subseteq>\<^sub>m clients pool'" and "dom (clients pool') = insert a (dom (clients pool))"
  using assms
  by (auto simp: getClient_def Let_def map_le_def split: option.splits)

lemma getClient_inv:
  assumes "getClient pool n a = (c, pool', n')" and "poolInv n pool"
  shows "poolInv n' pool'" and "client_Addr c = a"
  using assms by (auto simp: getClient_def Let_def poolInv_def split: option.splits if_splits)
    (metis less_SucI)

lemma getClient_cached:
  assumes "clients pool a = Some c"
  shows "getClient pool n a = (c, pool, n)"
  using assms by (simp add: getClient_def)

subsection \<open>The interface of a pool held in the operator's state\<close>

text \<open>\<open>get\<close> reads the pool of a component out of the state, \<open>obtain_client\<close> is that
  component's \<open>getClient\<close>. The laws are what the component's own calls rely on.\<close>

locale client_pool =
  fixes get :: "'w sys \<Rightarrow> redisClientPool"
    and obtain_client :: "string \<Rightarrow> ('w, redisClient) op"
  assumes obtain_runs: "\<exists>c t. obtain_client a s = (Ok c, t)"
    and obtain_stores: "obtain_client a s = (Ok c, t) \<Longrightarrow> clients (get t) a = Some c"
    and obtain_keeps: "obtain_client a s = (Ok c, t) \<Longrightarrow> clients (get s) \<subseteq>\<^sub>m clients (get t)"
    and obtain_inv: "obtain_client a s = (Ok c, t) \<Longrightarrow> poolInv (nextClient s) (get s) \<Longrightarrow>
      poolInv (nextClient t) (get t) \<and> client_Addr c = a"
    and obtain_cached: "clients (get s) a = Some c \<Longrightarrow> obtain_client a s = (Ok c, s)"
    and obtain_silent: "obtain_client a s = (Ok c, t) \<Longrightarrow> history t = history s \<and> world t = world s"
begin

lemma obtain_twice:
  assumes "obtain_client a s = (Ok c, t)"
  shows "obtain_client a t = (Ok c, t)"
  using obtain_cached obtain_stores [OF assms] by blast

lemma obtain_other_client_kept:
  assumes "obtain_client a s = (Ok c, t)" and "clients (get s) b = Some d"
  shows "obtain_client b t = (Ok d, t)"
  using obtain_keeps [OF assms(1)] assms(2) by (intro obtain_cached) (auto simp: map_le_def dom_def)

lemma emits_obtain: "emits (obtain_client a) A"
proof (rule emitsI)
  fix s r t assume "obtain_client a s = (r, t)"
  with obtain_runs [of a s] obtain_silent [of a s] show "\<exists>es. history t = es @ history s \<and> (\<forall>e\<in>set es. A e)"
    by fastforce
qed

end

section \<open>Lemmas on the guards and on endpoints\<close>

lemma emits_createGuardLoop:
  "emits m A \<Longrightarrow> emits (createGuardLoop i err m) A"
  by (induction i arbitrary: err) (auto intro!: emits_intros)

lemma emits_createServiceGuard [emits_intros]: "emits m A \<Longrightarrow> emits (createServiceGuard m) A"
  by (simp add: createServiceGuard_def emits_createGuardLoop)

lemma emits_createStatefulSetGuard [emits_intros]: "emits m A \<Longrightarrow> emits (createStatefulSetGuard m) A"
  by (simp add: createStatefulSetGuard_def emits_createGuardLoop)

lemma emits_getEndpoints [emits_intros]:
  "(\<And>r. A (EvGetEndpoints \<lparr>nn_Name = n, nn_Namespace = ns\<rparr> r)) \<Longrightarrow> emits (getEndpoints env n ns) A"
  unfolding getEndpoints_def by (intro emits_intros)

text \<open>Whatever a guard returns, the guarded function returned; whatever error it reports, the
  guarded function reported.\<close>

lemma hvalid_createGuardLoop:
  assumes "hvalid H m Q (\<lambda>e h. H h \<and> E e h)"
  shows "hvalid (\<lambda>h. H h \<and> (\<forall>e. err = Some e \<longrightarrow> E (Some e) h) \<and> (err = None \<longrightarrow> 0 < i))
    (createGuardLoop i err m) Q (\<lambda>e h. H h \<and> E e h)"
proof (induction i arbitrary: err)
  case 0
  then show ?case by (cases err) (auto intro!: hrules)
next
  case (Suc i)
  show ?case
    unfolding createGuardLoop.simps
  proof (rule hvalid_bind)
    show "hvalid (\<lambda>h. H h \<and> (\<forall>e. err = Some e \<longrightarrow> E (Some e) h) \<and> (err = None \<longrightarrow> 0 < Suc i)) (tryM m)
      (\<lambda>r h. case r of Inr x \<Rightarrow> Q x h | Inl e \<Rightarrow> H h \<and> E (Some e) h) (\<lambda>e h. H h \<and> E e h)"
      by (rule hvalid_try, rule hvalid_conseq [OF assms]) (auto split: option.splits)
    fix r
    show "hvalid (\<lambda>h. case r of Inr x \<Rightarrow> Q x h | Inl e \<Rightarrow> H h \<and> E (Some e) h)
      (case r of Inr x \<Rightarrow> returnM x | Inl e \<Rightarrow> if IsAlreadyExists e then createGuardLoop i (Some e) m else throwM e)
      Q (\<lambda>e h. H h \<and> E e h)"
    proof (cases r)
      case (Inl e)
      then show ?thesis
        by (auto intro!: hrules hvalid_conseq [OF Suc.IH [of "Some e"]])
    qed (auto intro!: hrules)
  qed
qed

lemma preserves_createGuardLoop [preserves_intros]:
  "preserves I m \<Longrightarrow> preserves I (createGuardLoop i err m)"
  by (induction i arbitrary: err) (auto intro!: preserves_intros)

lemma preserves_createServiceGuard [preserves_intros]:
  "preserves I m \<Longrightarrow> preserves I (createServiceGuard m)"
  unfolding createServiceGuard_def by (rule preserves_createGuardLoop)

lemma preserves_createStatefulSetGuard [preserves_intros]:
  "preserves I m \<Longrightarrow> preserves I (createStatefulSetGuard m)"
  unfolding createStatefulSetGuard_def by (rule preserves_createGuardLoop)

lemma preserves_getEndpoints [preserves_intros]: "offWorld I \<Longrightarrow> preserves I (getEndpoints env n ns)"
  unfolding getEndpoints_def by (intro preserves_intros)

end
