(* ===== verification/Workload.thy ===== *)
theory Workload
  imports Utils
begin

text \<open>
  What \<open>broker.go\<close>, \<open>coordinator.go\<close> and \<open>storage.go\<close> have in common: each describes a
  headless service and a StatefulSet, names the pods after the StatefulSet and addresses a pod
  by the DNS name the StatefulSet controller gives it. The locale \<open>workload\<close> states the laws the
  controllers rely on; the three theories interpret it on their own definitions.
\<close>

text \<open>A Kubernetes label selector selects an object when all its pairs are labels of it.\<close>

definition selects :: "labels \<Rightarrow> labels \<Rightarrow> bool" where
  "selects selector lbls \<longleftrightarrow> selector \<subseteq>\<^sub>m lbls"

text \<open>The labels that the three files write out.\<close>

definition undermoonLabels :: "string \<Rightarrow> undermoon \<Rightarrow> labels" where
  "undermoonLabels serviceType cr =
     [''undermoonService'' \<mapsto> serviceType,
      ''undermoonName'' \<mapsto> crName cr,
      ''undermoonClusterName'' \<mapsto> ClusterName (Spec cr)]"

lemma selects_undermoonLabels:
  "selects (undermoonLabels t cr) (undermoonLabels u cr') \<longleftrightarrow>
     t = u \<and> crName cr = crName cr' \<and> ClusterName (Spec cr) = ClusterName (Spec cr')"
proof
  assume s: "selects (undermoonLabels t cr) (undermoonLabels u cr')"
  have eq: "undermoonLabels t cr k = undermoonLabels u cr' k" if "undermoonLabels t cr k \<noteq> None" for k
    using s that by (auto simp: selects_def map_le_def)
  from eq [of "''undermoonService''"] eq [of "''undermoonName''"] eq [of "''undermoonClusterName''"]
  show "t = u \<and> crName cr = crName cr' \<and> ClusterName (Spec cr) = ClusterName (Spec cr')"
    by (simp add: undermoonLabels_def)
qed (auto simp: selects_def undermoonLabels_def)

text \<open>The name that a pod of ordinal \<open>i\<close> of a StatefulSet gets.\<close>

definition podNameOf :: "string \<Rightarrow> int \<Rightarrow> string" where
  "podNameOf ssName i = ssName @ ''-'' @ itoa i"

lemma podNameOf_inj: "0 \<le> i \<Longrightarrow> 0 \<le> j \<Longrightarrow> podNameOf n i = podNameOf n j \<Longrightarrow> i = j"
  by (auto simp: podNameOf_def itoa_def dest!: utoa_inj)

lemma podNameOf_ordinal:
  assumes "0 \<le> i" and "i < 2 ^ 63"
  shows "slice_from (podNameOf n i) (LastIndex (podNameOf n i) CHR ''-'' + 1) = Some (itoa i)"
    and "ParseInt (itoa i) = (word_of_int i, None)"
proof -
  show "slice_from (podNameOf n i) (LastIndex (podNameOf n i) CHR ''-'' + 1) = Some (itoa i)"
    using slice_LastIndex_suffix [of "CHR ''-''" "itoa i" n] assms(1) utoa_no_sign(1) [of "nat i"]
    by (simp add: podNameOf_def itoa_def)
  show "ParseInt (itoa i) = (word_of_int i, None)"
    using ParseInt_utoa [of "nat i"] assms by (simp add: itoa_def nat_less_iff)
qed

locale workload =
  fixes serviceName ssName :: "string \<Rightarrow> string"
    and podFQDN :: "string \<Rightarrow> string \<Rightarrow> string \<Rightarrow> string"
    and podAddress :: "string \<Rightarrow> undermoon \<Rightarrow> string"
    and port :: "undermoon \<Rightarrow> nat"
    and mkService :: "undermoon \<Rightarrow> service"
    and mkStatefulSet :: "undermoon \<Rightarrow> statefulSet"
    and allAddrs :: "undermoon \<Rightarrow> string list"
    and fits :: "undermoon \<Rightarrow> bool"  \<comment> \<open>the replica count fits its integer type\<close>
  assumes fqdn: "podFQDN pod name ns = pod @ ''.'' @ serviceName name @ ''.'' @ ns @ ''.svc.cluster.local''"
    and address: "podAddress pod cr = podFQDN pod (crName cr) (crNamespace cr) @ '':'' @ utoa (port cr)"
    and service_name: "meta_Name (svc_Meta (mkService cr)) = serviceName (crName cr)"
    and service_ns: "meta_Namespace (svc_Meta (mkService cr)) = crNamespace cr"
    and headless: "svc_ClusterIP (mkService cr) = ''None''"
    and ss_name: "meta_Name (ss_Meta (mkStatefulSet cr)) = ssName (crName cr)"
    and ss_ns: "meta_Namespace (ss_Meta (mkStatefulSet cr)) = crNamespace cr"
    and ss_service: "ss_ServiceName (mkStatefulSet cr) = serviceName (crName cr)"
    and selector: "svc_Selector (mkService cr) = ss_Selector (mkStatefulSet cr)"
    and ss_selector: "ss_Selector (mkStatefulSet cr) = tpl_Labels (ss_Template (mkStatefulSet cr))"
    and addrs: "fits cr \<Longrightarrow> allAddrs cr = map (\<lambda>i. podAddress (podNameOf (ssName (crName cr)) (int i)) cr)
      [0..<nat (sint (the (ss_Replicas (mkStatefulSet cr))))]"
begin

text \<open>The address of a pod determines the pod.\<close>

lemma address_inj: "podAddress p cr = podAddress q cr \<Longrightarrow> p = q"
  by (simp add: address fqdn)

lemma address_pod_inj:
  "podAddress (podNameOf n (int i)) cr = podAddress (podNameOf n (int j)) cr \<Longrightarrow> i = j"
  by (drule address_inj, drule podNameOf_inj [rotated 2]) simp_all

lemma distinct_addrs: "fits cr \<Longrightarrow> distinct (allAddrs cr)"
  by (auto simp: addrs distinct_map inj_on_def dest: address_pod_inj)

lemma length_addrs: "fits cr \<Longrightarrow> length (allAddrs cr) = nat (sint (the (ss_Replicas (mkStatefulSet cr))))"
  by (simp add: addrs)

text \<open>The addresses are those of the pods of the StatefulSet, ordinal by ordinal, under the DNS
  domain of its governing service in its namespace.\<close>

lemma addrs_are_pod_dns:
  "fits cr \<Longrightarrow> allAddrs cr = map (\<lambda>i. podNameOf (meta_Name (ss_Meta (mkStatefulSet cr))) (int i) @ ''.'' @
       ss_ServiceName (mkStatefulSet cr) @ ''.'' @ meta_Namespace (ss_Meta (mkStatefulSet cr)) @
       ''.svc.cluster.local:'' @ utoa (port cr))
     [0..<nat (sint (the (ss_Replicas (mkStatefulSet cr))))]"
  by (simp add: addrs address fqdn ss_name ss_ns ss_service)

lemma address_of_member:
  assumes "podAddress p cr \<in> set (allAddrs cr)" and "fits cr"
  shows "\<exists>i < nat (sint (the (ss_Replicas (mkStatefulSet cr)))). p = podNameOf (ssName (crName cr)) (int i)"
  using assms by (auto simp: addrs dest!: address_inj)

lemma governing_service:
  "ss_ServiceName (mkStatefulSet cr) = meta_Name (svc_Meta (mkService cr))
   \<and> meta_Namespace (ss_Meta (mkStatefulSet cr)) = meta_Namespace (svc_Meta (mkService cr))
   \<and> selects (svc_Selector (mkService cr)) (tpl_Labels (ss_Template (mkStatefulSet cr)))
   \<and> svc_ClusterIP (mkService cr) = ''None''"
  by (simp add: ss_service service_name service_ns ss_ns selector ss_selector headless selects_def)

lemma address_not_empty: "podAddress p cr \<noteq> ''''"
  by (simp add: address fqdn)

end

end
