(* ===== verification/Broker.thy ===== *)
theory Broker
  imports Workload
begin

text \<open>
  \<open>pkg/controller/undermoon/broker.go\<close>: the service and the StatefulSet of the memory brokers,
  and the addresses of their pods.
\<close>

definition brokerPort :: nat where
  "brokerPort = 7799"

definition brokerNum :: i32 where
  "brokerNum = 3"

definition brokerContainerName :: string where
  "brokerContainerName = ''broker''"

definition undermoonServiceTypeBroker :: string where
  "undermoonServiceTypeBroker = ''broker''"

definition brokerTopologyKey :: string where
  "brokerTopologyKey = ''undermoon-broker-topology-key''"

definition BrokerServiceName :: "string \<Rightarrow> string" where
  "BrokerServiceName undermoonName = undermoonName @ ''-bk-svc''"

definition BrokerStatefulSetName :: "string \<Rightarrow> string" where
  "BrokerStatefulSetName undermoonName = undermoonName @ ''-bk-ss''"

definition createBrokerService :: "undermoon \<Rightarrow> service" where
  "createBrokerService cr =
     (let undermoonName = crName cr;
          lbls = undermoonLabels undermoonServiceTypeBroker cr
      in \<lparr>svc_Meta = \<lparr>meta_Name = BrokerServiceName undermoonName, meta_Namespace = crNamespace cr,
            meta_Labels = lbls, meta_OwnerReferences = [], meta_ResourceVersion = ''''\<rparr>,
          svc_Ports = [\<lparr>port_Name = ''broker-port'', port_Port = of_nat brokerPort, port_Protocol = ''TCP''\<rparr>],
          svc_ClusterIP = ''None'',
          svc_Selector = lbls,
          svc_PublishNotReadyAddresses = False\<rparr>)"

definition brokerEnv :: "envVar list" where
  "brokerEnv =
     [envValue ''RUST_LOG'' ''undermoon=info,mem_broker=info'',
      envValue ''UNDERMOON_ADDRESS'' (''0.0.0.0:'' @ utoa brokerPort),
      envValue ''UNDERMOON_FAILURE_TTL'' ''60'',
      envValue ''UNDERMOON_FAILURE_QUORUM'' ''2'',
      envValue ''UNDERMOON_MIGRATION_LIMIT'' ''2'',
      envValue ''UNDERMOON_RECOVER_FROM_META_FILE'' ''true'',
      envValue ''UNDERMOON_META_FILENAME'' ''metadata'',
      envValue ''UNDERMOON_AUTO_UPDATE_META_FILE'' ''true'',
      envValue ''UNDERMOON_UPDATE_META_FILE_INTERVAL'' ''10'',
      envValue ''UNDERMOON_REPLICA_ADDRESSES'' '''',
      envValue ''UNDERMOON_SYNC_META_INTERVAL'' ''5'',
      envValue ''UNDERMOON_ENABLE_ORDERED_PROXY'' ''true'',
      envValue ''UNDERMOON_DEBUG'' ''false'']"

definition createBrokerStatefulSet :: "undermoon \<Rightarrow> statefulSet" where
  "createBrokerStatefulSet cr =
     (let lbls = undermoonLabels undermoonServiceTypeBroker cr;
          ctr = \<lparr>ctr_Name = brokerContainerName, ctr_Image = UndermoonImage (Spec cr),
            ctr_ImagePullPolicy = UndermoonImagePullPolicy (Spec cr),
            ctr_Command = [''mem_broker''], ctr_Args = [], ctr_Env = brokerEnv,
            ctr_Resources = BrokerResources (Spec cr), ctr_PreStop = None, ctr_ReadinessProbe = None\<rparr>;
          podSpec = \<lparr>tpl_Labels = lbls, tpl_Containers = [ctr],
            tpl_Affinity = genAntiAffinity lbls (crNamespace cr) brokerTopologyKey\<rparr>;
          replicaNum = brokerNum
      in \<lparr>ss_Kind = ''StatefulSet'', ss_APIVersion = ''apps/v1'',
          ss_Meta = \<lparr>meta_Name = BrokerStatefulSetName (crName cr), meta_Namespace = crNamespace cr,
            meta_Labels = lbls, meta_OwnerReferences = [], meta_ResourceVersion = ''''\<rparr>,
          ss_Selector = lbls,
          ss_ServiceName = BrokerServiceName (crName cr),
          ss_Replicas = Some replicaNum,
          ss_Template = podSpec,
          ss_PodManagementPolicy = ''Parallel'',
          ss_StatusReplicas = 0, ss_StatusReadyReplicas = 0, ss_StatusCurrentReplicas = 0\<rparr>)"

definition genBrokerNames :: "string \<Rightarrow> string list" where
  "genBrokerNames undermoonName =
     countUp 0 brokerNum (\<lambda>i. BrokerStatefulSetName undermoonName @ ''-'' @ itoa (sint i))"

definition genBrokerFQDN :: "string \<Rightarrow> string \<Rightarrow> string \<Rightarrow> string" where
  "genBrokerFQDN podName undermoonName namespace =
     podName @ ''.'' @ BrokerServiceName undermoonName @ ''.'' @ namespace @ ''.svc.cluster.local''"

definition genBrokerAddressFromName :: "string \<Rightarrow> undermoon \<Rightarrow> string" where
  "genBrokerAddressFromName name cr =
     (let host = genBrokerFQDN name (crName cr) (crNamespace cr)
      in host @ '':'' @ utoa brokerPort)"

definition genBrokerStatefulSetAddrs :: "undermoon \<Rightarrow> string list" where
  "genBrokerStatefulSetAddrs cr =
     map (\<lambda>name. genBrokerAddressFromName name cr) (genBrokerNames (crName cr))"

lemma genBrokerNames_eq:
  "genBrokerNames n = map (\<lambda>i. podNameOf (BrokerStatefulSetName n) (int i)) [0..<3]"
  by (simp add: genBrokerNames_def countUp_0 podNameOf_def brokerNum_def upt_rec)

interpretation bk: workload BrokerServiceName BrokerStatefulSetName genBrokerFQDN
  genBrokerAddressFromName "\<lambda>_. brokerPort" createBrokerService createBrokerStatefulSet
  genBrokerStatefulSetAddrs "\<lambda>_. True"
  by unfold_locales
    (simp_all add: genBrokerFQDN_def genBrokerAddressFromName_def createBrokerService_def
      createBrokerStatefulSet_def genBrokerStatefulSetAddrs_def genBrokerNames_eq brokerNum_def Let_def)

end
