(* ===== verification/Storage.thy ===== *)
theory Storage
  imports Workload
begin

text \<open>
  \<open>pkg/controller/undermoon/storage.go\<close>: the two services and the StatefulSet of the server
  proxies (each pod runs one proxy and two Redis nodes), and the addresses of their pods.
\<close>

section \<open>Names and constants\<close>

definition DefaultServerProxyPort :: nat where
  "DefaultServerProxyPort = 5299"

definition redisPort1 :: nat where
  "redisPort1 = 7001"

definition redisPort2 :: nat where
  "redisPort2 = 7002"

definition serverProxyContainerName :: string where
  "serverProxyContainerName = ''server-proxy''"

definition redisContainerName :: string where
  "redisContainerName = ''redis''"

definition undermoonServiceTypeStorage :: string where
  "undermoonServiceTypeStorage = ''storage''"

definition storageTopologyKey :: string where
  "storageTopologyKey = ''undermoon-storage-topology-key''"

definition StorageServiceName :: "string \<Rightarrow> string" where
  "StorageServiceName undermoonName = undermoonName @ ''-stg-svc''"

definition StoragePublicServiceName :: "string \<Rightarrow> string" where
  "StoragePublicServiceName undermoonName = undermoonName"

definition StorageStatefulSetName :: "string \<Rightarrow> string" where
  "StorageStatefulSetName undermoonName = undermoonName @ ''-stg-ss''"

definition storageStatefulSetPodName :: "string \<Rightarrow> i64 \<Rightarrow> string" where
  "storageStatefulSetPodName undermoonName index =
     StorageStatefulSetName undermoonName @ ''-'' @ itoa (sint index)"

definition genStorageNames :: "string \<Rightarrow> i64 \<Rightarrow> string list" where
  "genStorageNames undermoonName replicas =
     countUp 0 replicas (\<lambda>i. storageStatefulSetPodName undermoonName i)"

definition genStorageFQDN :: "string \<Rightarrow> string \<Rightarrow> string \<Rightarrow> string" where
  "genStorageFQDN podName undermoonName namespace =
     podName @ ''.'' @ StorageServiceName undermoonName @ ''.'' @ namespace @ ''.svc.cluster.local''"

definition genStorageFQDNFromName :: "string \<Rightarrow> undermoon \<Rightarrow> string" where
  "genStorageFQDNFromName name cr = genStorageFQDN name (crName cr) (crNamespace cr)"

definition genStorageAddressFromName :: "string \<Rightarrow> undermoon \<Rightarrow> string" where
  "genStorageAddressFromName name cr =
     genStorageFQDNFromName name cr @ '':'' @ utoa (unat (Port (Spec cr)))"

definition genStorageStatefulSetAddrs :: "undermoon \<Rightarrow> string list" where
  "genStorageStatefulSetAddrs cr =
     (let replicaNum = int_of_u32 (ChunkNumber (Spec cr)) * halfChunkNodeNumber
      in map (\<lambda>name. genStorageAddressFromName name cr) (genStorageNames (crName cr) replicaNum))"

section \<open>Services\<close>

definition createStorageService :: "undermoon \<Rightarrow> service" where
  "createStorageService cr =
     (let undermoonName = crName cr;
          lbls = undermoonLabels undermoonServiceTypeStorage cr
      in \<lparr>svc_Meta = \<lparr>meta_Name = StorageServiceName undermoonName, meta_Namespace = crNamespace cr,
            meta_Labels = lbls, meta_OwnerReferences = [], meta_ResourceVersion = ''''\<rparr>,
          svc_Ports = [\<lparr>port_Name = ''server-proxy-port'', port_Port = i32_of_u32 (Port (Spec cr)),
            port_Protocol = ''TCP''\<rparr>],
          svc_ClusterIP = ''None'',
          svc_Selector = lbls,
          svc_PublishNotReadyAddresses = True\<rparr>)"

definition createStoragePublicService :: "undermoon \<Rightarrow> service" where
  "createStoragePublicService cr =
     (let undermoonName = crName cr;
          lbls = undermoonLabels undermoonServiceTypeStorage cr
      in \<lparr>svc_Meta = \<lparr>meta_Name = StoragePublicServiceName undermoonName,
            meta_Namespace = crNamespace cr,
            meta_Labels = lbls, meta_OwnerReferences = [], meta_ResourceVersion = ''''\<rparr>,
          svc_Ports = [\<lparr>port_Name = ''server-proxy-public-port'',
            port_Port = i32_of_u32 (Port (Spec cr)), port_Protocol = ''TCP''\<rparr>],
          svc_ClusterIP = '''',
          svc_Selector = lbls,
          svc_PublishNotReadyAddresses = False\<rparr>)"

section \<open>The StatefulSet\<close>

definition genRedisContainer :: "u32 \<Rightarrow> string \<Rightarrow> u32 \<Rightarrow> u32 \<Rightarrow> undermoon \<Rightarrow> container" where
  "genRedisContainer index redisImage maxMemory port cr =
     (let portStr = utoa (unat port)
      in \<lparr>ctr_Name = redisContainerName @ ''-'' @ utoa (unat index), ctr_Image = redisImage,
          ctr_ImagePullPolicy = ''IfNotPresent'',
          ctr_Command = [''redis-server''],
          ctr_Args = [''--maxmemory'', utoa (unat maxMemory) @ ''MB'', ''--port'', portStr,
            ''--slave-announce-port'', portStr, ''--slave-announce-ip'', podIPEnvStr,
            ''--maxmemory-policy'', ''allkeys-lru''],
          ctr_Env = [podIPEnv],
          ctr_Resources = RedisResources (Spec cr),
          ctr_PreStop = genPreStopHookLifeCycle [''sleep'', ''10''],
          ctr_ReadinessProbe = None\<rparr>)"

definition storageEnv :: "undermoon \<Rightarrow> string \<Rightarrow> envVar list" where
  "storageEnv cr firstProxyAddress =
     [podNameEnv,
      envValue ''RUST_LOG'' ''undermoon=info,server_proxy=info'',
      envValue ''UNDERMOON_ADDRESS'' (''0.0.0.0:'' @ utoa (unat (Port (Spec cr)))),
      envValue ''UNDERMOON_AUTO_SELECT_CLUSTER'' ''true'',
      envValue ''UNDERMOON_SLOWLOG_LEN'' ''1024'',
      envValue ''UNDERMOON_SLOWLOG_LOG_SLOWER_THAN'' ''10000'',
      envValue ''UNDERMOON_SLOWLOG_SAMPLE_RATE'' ''1000'',
      envValue ''UNDERMOON_SESSION_CHANNEL_SIZE'' ''4096'',
      envValue ''UNDERMOON_BACKEND_CHANNEL_SIZE'' ''4096'',
      envValue ''UNDERMOON_BACKEND_BATCH_MIN_TIME'' ''20000'',
      envValue ''UNDERMOON_BACKEND_BATCH_MAX_TIME'' ''400000'',
      envValue ''UNDERMOON_SESSION_BATCH_MIN_TIME'' ''20000'',
      envValue ''UNDERMOON_SESSION_BATCH_MAX_TIME'' ''400000'',
      envValue ''UNDERMOON_ACTIVE_REDIRECTION'' (FormatBool (ActiveRedirection (Spec cr))),
      envValue ''UNDERMOON_DEFAULT_REDIRECTION_ADDRESS'' firstProxyAddress]"

text \<open>The readiness check sends \<open>UMCTL READY\<close> to the proxy and expects \<open>:1\<close>.\<close>

definition crlf :: string where
  "crlf = [CHR 0x0D, CHR 0x0A]"

definition dquote :: string where
  "dquote = [CHR 0x22]"

definition quote :: string where
  "quote = [CHR 0x27]"

definition readyCheckCmd :: "undermoon \<Rightarrow> string list" where
  "readyCheckCmd cr =
     [''bash'', ''-c'',
      ''[ '' @ dquote @ ''$(exec 5<>/dev/tcp/localhost/'' @ utoa (unat (Port (Spec cr))) @
      ''; printf '' @ quote @ ''*2'' @ crlf @ ''$5'' @ crlf @ ''UMCTL'' @ crlf @ ''$5'' @ crlf @
      ''READY'' @ crlf @ quote @ '' >&5; head -c 2 <&5)'' @ dquote @ '' == '' @
      quote @ '':1'' @ quote @ '' ]'']"

definition createStorageStatefulSet :: "undermoon \<Rightarrow> statefulSet" where
  "createStorageStatefulSet cr =
     (let lbls = undermoonLabels undermoonServiceTypeStorage cr;
          firstProxyAddress = genStorageAddressFromName (storageStatefulSetPodName (crName cr) 0) cr;
          fqdn = genStorageFQDNFromName podNameStr cr;
          checkCmd = readyCheckCmd cr;
          serverProxyContainer = \<lparr>ctr_Name = serverProxyContainerName,
            ctr_Image = UndermoonImage (Spec cr),
            ctr_ImagePullPolicy = UndermoonImagePullPolicy (Spec cr),
            ctr_Command = [''sh'', ''-c'', ''UNDERMOON_ANNOUNCE_ADDRESS='' @ dquote @ fqdn @ '':'' @
              utoa (unat (Port (Spec cr))) @ dquote @ '' server_proxy''],
            ctr_Args = [],
            ctr_Env = storageEnv cr firstProxyAddress,
            ctr_Resources = ProxyResources (Spec cr),
            ctr_PreStop = genPreStopHookLifeCycle [''sleep'', ''10''],
            ctr_ReadinessProbe = Some \<lparr>probe_Command = checkCmd, probe_PeriodSeconds = 1,
              probe_SuccessThreshold = 1, probe_FailureThreshold = 1\<rparr>\<rparr>;
          redisContainer1 = genRedisContainer 1 (RedisImage (Spec cr)) (MaxMemory (Spec cr)) (of_nat redisPort1) cr;
          redisContainer2 = genRedisContainer 2 (RedisImage (Spec cr)) (MaxMemory (Spec cr)) (of_nat redisPort2) cr;
          podSpec = \<lparr>tpl_Labels = lbls,
            tpl_Containers = [serverProxyContainer, redisContainer1, redisContainer2],
            tpl_Affinity = genAntiAffinity lbls (crNamespace cr) storageTopologyKey\<rparr>;
          replicaNum = i32_of_int (int_of_u32 (ChunkNumber (Spec cr)) * halfChunkNodeNumber)
      in \<lparr>ss_Kind = ''StatefulSet'', ss_APIVersion = ''apps/v1'',
          ss_Meta = \<lparr>meta_Name = StorageStatefulSetName (crName cr), meta_Namespace = crNamespace cr,
            meta_Labels = lbls, meta_OwnerReferences = [], meta_ResourceVersion = ''''\<rparr>,
          ss_Selector = lbls,
          ss_ServiceName = StorageServiceName (crName cr),
          ss_Replicas = Some replicaNum,
          ss_Template = podSpec,
          ss_PodManagementPolicy = ''Parallel'',
          ss_StatusReplicas = 0, ss_StatusReadyReplicas = 0, ss_StatusCurrentReplicas = 0\<rparr>)"

section \<open>Replica counts\<close>

text \<open>The counts that \<open>storage.go\<close> and \<open>storage_controller.go\<close> compute from the chunk
  number, and when they fit their integer types.\<close>

definition chunkFits :: "undermoon \<Rightarrow> bool" where
  "chunkFits cr \<longleftrightarrow> unat (ChunkNumber (Spec cr)) < 2 ^ 30"

lemma uint_chunk_mult:
  "uint (int_of_u32 c * halfChunkNodeNumber) = 2 * uint c"
  "uint (int_of_u32 c * chunkNodeNumber) = 4 * uint c"
proof -
  have "uint c < 2 ^ 32" using uint_bounded [of c] by simp
  then show "uint (int_of_u32 c * halfChunkNodeNumber) = 2 * uint c"
    "uint (int_of_u32 c * chunkNodeNumber) = 4 * uint c"
    by (simp_all add: uint_word_ariths int_of_u32_def halfChunkNodeNumber_def chunkNodeNumber_def
        unsigned_ucast_eq take_bit_int_eq_self)
qed

lemma sint_chunk_mult:
  "sint (int_of_u32 c * halfChunkNodeNumber) = 2 * uint c"
  "sint (int_of_u32 c * chunkNodeNumber) = 4 * uint c"
proof -
  have "uint c < 2 ^ 32" "- (2 ^ 63) \<le> 2 * uint c" "- (2 ^ 63) \<le> 4 * uint c"
    using uint_bounded [of c] order_trans [of "- (2 ^ 63)" 0 "2 * uint c"]
      order_trans [of "- (2 ^ 63)" 0 "4 * uint c"] by simp_all
  then show "sint (int_of_u32 c * halfChunkNodeNumber) = 2 * uint c"
    "sint (int_of_u32 c * chunkNodeNumber) = 4 * uint c"
    by (simp_all add: sint_uint uint_chunk_mult signed_take_bit_int_eq_self)
qed

lemma i32_chunk_mult:
  "i32_of_int (int_of_u32 c * halfChunkNodeNumber) = i32_of_u32 c * 2"
proof -
  have "uint (i32_of_int (int_of_u32 c * halfChunkNodeNumber)) = 2 * uint c mod 2 ^ 32"
    by (simp only: i32_of_int_def unsigned_ucast_eq uint_chunk_mult take_bit_eq_mod) simp
  also have "\<dots> = uint (i32_of_u32 c * 2)"
    by (simp add: i32_of_u32_def uint_word_ariths mult.commute)
  finally show ?thesis by (simp only: word_uint_eq_iff)
qed

lemma sint_replicas_fits:
  "unat c < 2 ^ 30 \<Longrightarrow> sint (i32_of_int (int_of_u32 c * halfChunkNodeNumber)) = 2 * uint c"
proof -
  assume "unat c < 2 ^ 30"
  then have "int (unat c) < int (2 ^ 30)" by (simp only: of_nat_less_iff)
  then have "uint c < 2 ^ 30" by simp
  moreover have "- (2 ^ 31) \<le> 2 * uint c" using order_trans [of "- (2 ^ 31)" 0 "2 * uint c"] by simp
  moreover from calculation have "uint (i32_of_u32 c * 2) = 2 * uint c"
    by (simp add: i32_of_u32_def uint_word_ariths)
  ultimately show ?thesis
    unfolding i32_chunk_mult sint_uint by (simp add: signed_take_bit_int_eq_self)
qed

lemma unat_chunk_mult: "unat (int_of_u32 c * halfChunkNodeNumber) = 2 * unat c"
proof -
  have "nat (uint (int_of_u32 c * halfChunkNodeNumber)) = nat (2 * uint c)"
    by (simp only: uint_chunk_mult)
  then show ?thesis by (simp add: nat_mult_distrib)
qed

text \<open>The pods' names, with the loop of \<open>genStorageNames\<close> unrolled.\<close>

lemma genStorageNames_eq:
  "genStorageNames u (int_of_u32 c * halfChunkNodeNumber) =
     map (\<lambda>i. podNameOf (StorageStatefulSetName u) (int i)) [0..<2 * unat c]"
proof -
  have "unat c < 2 ^ 32" using unsigned_less [of c, where ?'a = nat] by simp
  then show ?thesis
    by (auto simp: genStorageNames_def countUp_0 storageStatefulSetPodName_def podNameOf_def
        unat_chunk_mult signed_of_nat signed_take_bit_int_eq_self)
qed

interpretation stg: workload StorageServiceName StorageStatefulSetName genStorageFQDN
  genStorageAddressFromName "\<lambda>cr. unat (Port (Spec cr))" createStorageService
  createStorageStatefulSet genStorageStatefulSetAddrs chunkFits
proof unfold_locales
  fix cr assume "chunkFits cr"
  then have "nat (sint (i32_of_int (int_of_u32 (ChunkNumber (Spec cr)) * halfChunkNodeNumber))) =
      2 * unat (ChunkNumber (Spec cr))"
    by (simp add: chunkFits_def sint_replicas_fits nat_mult_distrib)
  then show "genStorageStatefulSetAddrs cr =
      map (\<lambda>i. genStorageAddressFromName (podNameOf (StorageStatefulSetName (crName cr)) (int i)) cr)
        [0..<nat (sint (the (ss_Replicas (createStorageStatefulSet cr))))]"
    by (simp add: genStorageStatefulSetAddrs_def genStorageNames_eq createStorageStatefulSet_def Let_def)
qed (simp_all add: genStorageFQDN_def genStorageAddressFromName_def genStorageFQDNFromName_def
    createStorageService_def createStorageStatefulSet_def Let_def)

end
