(* ===== verification/Calls.thy ===== *)
theory Calls
  imports Utils
begin

text \<open>
  Operations that are one call to the outside: what they return is determined by the answer. The
  locale \<open>one_call\<close> states this once for the broker's HTTP operations and for the Redis commands;
  the loops of the controllers over such operations are analysed in it.
\<close>

text \<open>The calls for \<open>xs\<close> were made in this order on top of \<open>h0\<close>, and their outcomes are \<open>ys\<close>.\<close>

definition asked :: "('x \<Rightarrow> 'r \<Rightarrow> event) \<Rightarrow> ('r \<Rightarrow> goerr + 'a \<Rightarrow> bool) \<Rightarrow> 'x list \<Rightarrow> (goerr + 'a) list
    \<Rightarrow> event list \<Rightarrow> event list \<Rightarrow> bool" where
  "asked ev means xs ys h0 h \<longleftrightarrow> (\<exists>rs. length rs = length xs \<and> list_all2 means rs ys \<and> h = rev (map2 ev xs rs) @ h0)"

lemma asked_Nil: "asked ev means [] ys h0 h \<longleftrightarrow> ys = [] \<and> h = h0"
  by (auto simp: asked_def)

lemma asked_Cons: "means r y \<Longrightarrow> asked ev means xs ys (ev x r # h0) h \<Longrightarrow> asked ev means (x # xs) (y # ys) h0 h"
  unfolding asked_def by (elim exE conjE) (rule_tac x = "r # rs" in exI, simp)

lemma asked_length: "asked ev means xs ys h0 h \<Longrightarrow> length ys = length xs"
  by (auto simp: asked_def dest: list_all2_lengthD)

lemma asked_extends: "asked ev means xs ys h0 h \<Longrightarrow> \<exists>es. h = es @ h0 \<and> (\<forall>e \<in> set es. \<exists>x \<in> set xs. \<exists>r. e = ev x r)"
  unfolding asked_def by (elim exE conjE, rule_tac x = "rev (map2 ev xs rs)" in exI) (auto dest: set_zip_leftD)

lemma asked_count: "asked ev means xs ys h0 h \<Longrightarrow> length h = length xs + length h0"
  by (auto simp: asked_def)

text \<open>The result of a computation whose \<open>tryM\<close> gives \<open>y\<close>.\<close>

definition outcome :: "goerr + 'a \<Rightarrow> (goerr, 'a) res" where
  "outcome y = (case y of Inl e \<Rightarrow> Err e | Inr x \<Rightarrow> Ok x)"

lemma outcome_simps [simp]: "outcome (Inl e) = Err e" "outcome (Inr x) = Ok x"
  by (simp_all add: outcome_def)

lemma tryM_outcome: "tryM m s = (Ok y, t) \<longleftrightarrow> m s = (outcome y, t)"
  by (auto simp: tryM_def outcome_def split: prod.splits res.splits sum.splits)

locale one_call =
  fixes run :: "'x \<Rightarrow> ('w, 'a) op"
    and ev :: "'x \<Rightarrow> 'r \<Rightarrow> event"
    and means :: "'r \<Rightarrow> goerr + 'a \<Rightarrow> bool"  \<comment> \<open>which outcome an answer has\<close>
    and inv :: "'w sys \<Rightarrow> bool"
  assumes one: "inv s \<Longrightarrow> \<exists>y t r. tryM (run x) s = (Ok y, t) \<and> inv t \<and> history t = ev x r # history s \<and> means r y"
begin

lemma run_one:
  assumes "inv s"
  shows "\<exists>y t r. run x s = (outcome y, t) \<and> inv t \<and> history t = ev x r # history s \<and> means r y"
  using one [OF assms, of x] unfolding tryM_outcome .

text \<open>A loop that tries the operation on every element always ends, makes one call per element in
  order, and its result is a function of the outcomes.\<close>

lemma fold_asks:
  assumes "inv s"
  shows "\<exists>b t ys. foldM (\<lambda>a x. bindM (tryM (run x)) (\<lambda>y. returnM (f a x y))) a xs s = (Ok b, t) \<and> inv t \<and>
    asked ev means xs ys (history s) (history t) \<and> b = foldl (\<lambda>a (x, y). f a x y) a (zip xs ys)"
  using assms
proof (induction xs arbitrary: a s)
  case Nil
  then show ?case by (auto simp: asked_Nil returnM_def)
next
  case (Cons x xs)
  obtain y t r where one: "tryM (run x) s = (Ok y, t)" "inv t" "history t = ev x r # history s" "means r y"
    using one [OF Cons.prems] by blast
  obtain b u ys where rest: "foldM (\<lambda>a x. bindM (tryM (run x)) (\<lambda>y. returnM (f a x y))) (f a x y) xs t = (Ok b, u)"
    "inv u" "asked ev means xs ys (history t) (history u)" "b = foldl (\<lambda>a (x, y). f a x y) (f a x y) (zip xs ys)"
    using Cons.IH [OF one(2)] by blast
  from one(1) rest(1) have "foldM (\<lambda>a x. bindM (tryM (run x)) (\<lambda>y. returnM (f a x y))) a (x # xs) s = (Ok b, u)"
    by (simp add: bindM_def returnM_def)
  moreover from one(3,4) rest(3) have "asked ev means (x # xs) (y # ys) (history s) (history u)"
    by (auto intro: asked_Cons)
  moreover from rest(4) have "b = foldl (\<lambda>a (x, y). f a x y) a (zip (x # xs) (y # ys))" by simp
  ultimately show ?case using rest(2) by blast
qed

lemma for_asks:
  assumes "inv s"
  shows "\<exists>t ys. forM xs (\<lambda>x. bindM (tryM (run x)) (\<lambda>_. returnM ())) s = (Ok (), t) \<and> inv t \<and>
    asked ev means xs ys (history s) (history t)"
proof -
  have "forM xs (\<lambda>x. bindM (tryM (run x)) (\<lambda>_. returnM ())) = foldM (\<lambda>_ x. bindM (tryM (run x)) (\<lambda>_. returnM ())) () xs"
    by (induction xs) auto
  with fold_asks [OF assms, of "\<lambda>_ _ _. ()" "()" xs] show ?thesis by fastforce
qed

text \<open>An operation that never fails needs no error handling.\<close>

lemma fold_asks_total:
  assumes "inv s" and total: "\<And>r y. means r y \<Longrightarrow> \<exists>z. y = Inr z"
  shows "\<exists>b t zs. foldM (\<lambda>a x. bindM (run x) (\<lambda>z. returnM (f a x z))) a xs s = (Ok b, t) \<and> inv t \<and>
    asked ev means xs (map Inr zs) (history s) (history t) \<and> b = foldl (\<lambda>a (x, z). f a x z) a (zip xs zs)"
  using assms(1)
proof (induction xs arbitrary: a s)
  case Nil
  then show ?case by (auto simp: asked_Nil returnM_def)
next
  case (Cons x xs)
  obtain y t r where one: "run x s = (outcome y, t)" "inv t" "history t = ev x r # history s" "means r y"
    using run_one [OF Cons.prems] by blast
  from total [OF one(4)] obtain z where z: "y = Inr z" by blast
  obtain b u zs where rest: "foldM (\<lambda>a x. bindM (run x) (\<lambda>z. returnM (f a x z))) (f a x z) xs t = (Ok b, u)"
    "inv u" "asked ev means xs (map Inr zs) (history t) (history u)" "b = foldl (\<lambda>a (x, z). f a x z) (f a x z) (zip xs zs)"
    using Cons.IH [OF one(2)] by blast
  from one(1) z rest(1) have "foldM (\<lambda>a x. bindM (run x) (\<lambda>z. returnM (f a x z))) a (x # xs) s = (Ok b, u)"
    by (simp add: bindM_def returnM_def)
  moreover from one(3,4) z rest(3) have "asked ev means (x # xs) (map Inr (z # zs)) (history s) (history u)"
    by (auto intro: asked_Cons)
  moreover from rest(4) have "b = foldl (\<lambda>a (x, z). f a x z) a (zip (x # xs) (z # zs))" by simp
  ultimately show ?case using rest(2) by blast
qed

end

text \<open>Operations without a result, in a loop that returns at the first failure: the calls were made
  up to and including the one that failed.\<close>

locale unit_call = one_call run ev means inv
  for run :: "'x \<Rightarrow> ('w, unit) op" and ev :: "'x \<Rightarrow> 'r \<Rightarrow> event" and means and inv
begin

lemma for_stops:
  assumes "inv s"
  shows "\<exists>t. inv t \<and> ((forM xs run s = (Ok (), t) \<and> asked ev means xs (replicate (length xs) (Inr ())) (history s) (history t)) \<or>
    (\<exists>n < length xs. \<exists>e. forM xs run s = (Err e, t) \<and>
       asked ev means (take (Suc n) xs) (replicate n (Inr ()) @ [Inl e]) (history s) (history t)))"
  using assms
proof (induction xs arbitrary: s)
  case Nil
  then show ?case by (auto simp: asked_Nil returnM_def)
next
  case (Cons x xs)
  obtain y u r where one: "run x s = (outcome y, u)" "inv u" "history u = ev x r # history s" "means r y"
    using run_one [OF Cons.prems] by blast
  show ?case
  proof (cases y)
    case (Inl e)
    with one have "forM (x # xs) run s = (Err e, u)" by (simp add: bindM_def)
    moreover from one Inl have "asked ev means [x] [Inl e] (history s) (history u)"
      by (auto intro!: asked_Cons simp: asked_Nil)
    ultimately show ?thesis using one(2) by (intro exI [of _ u]) fastforce
  next
    case (Inr v)
    from Cons.IH [OF one(2)] obtain t where t: "inv t" and
      cases: "(forM xs run u = (Ok (), t) \<and> asked ev means xs (replicate (length xs) (Inr ())) (history u) (history t)) \<or>
        (\<exists>n < length xs. \<exists>e. forM xs run u = (Err e, t) \<and>
           asked ev means (take (Suc n) xs) (replicate n (Inr ()) @ [Inl e]) (history u) (history t))"
      by blast
    have run: "forM (x # xs) run s = forM xs run u" using one(1) Inr by (simp add: bindM_def)
    from one(3,4) Inr have more: "asked ev means zs ys (history u) (history t) \<Longrightarrow>
        asked ev means (x # zs) (Inr () # ys) (history s) (history t)" for zs ys
      by (intro asked_Cons [where r = r]) simp_all
    from cases show ?thesis
    proof (elim disjE exE conjE)
      fix n e assume n: "n < length xs" and e: "forM xs run u = (Err e, t)"
        and a: "asked ev means (take (Suc n) xs) (replicate n (Inr ()) @ [Inl e]) (history u) (history t)"
      from more [OF a] n e run t show ?thesis
        by (intro exI [of _ t]) (simp add: exI [of _ "Suc n"])
    qed (use run t more in \<open>intro exI [of _ t], simp\<close>)
  qed
qed

end

section \<open>HTTP requests\<close>

text \<open>\<open>reads\<close> is what an operation makes of a response, \<open>None\<close> for a failure. The outcome of a
  request that got no response is the client's error.\<close>

definition answers :: "('r \<Rightarrow> 'a option) \<Rightarrow> goerr + 'r \<Rightarrow> goerr + 'a \<Rightarrow> bool" where
  "answers reads r y \<longleftrightarrow> (case r of
     Inl e \<Rightarrow> y = Inl e
   | Inr res \<Rightarrow> (case y of Inl _ \<Rightarrow> reads res = None | Inr x \<Rightarrow> reads res = Some x))"

lemma answers_Inr: "answers reads r (Inr x) \<longleftrightarrow> (\<exists>res. r = Inr res \<and> reads res = Some x)"
  by (auto simp: answers_def split: sum.splits)

lemma one_http:
  assumes "\<And>res. \<exists>y. f res = liftM y \<and> answers reads (Inr res) y"
  shows "\<exists>y t r. tryM (bindM (http env q) f) s = (Ok y, t) \<and> True \<and> history t = EvHttp q r # history s \<and> answers reads r y"
proof -
  obtain r w where h: "Http env q (world s) = (r, w)" by (cases "Http env q (world s)")
  let ?t = "s\<lparr>world := w, history := EvHttp q r # history s\<rparr>"
  show ?thesis
  proof (cases r)
    case (Inl e)
    with h have "tryM (bindM (http env q) f) s = (Ok (Inl e), ?t)"
      by (simp add: http_def callE_def call_def liftM_def tryM_def bindM_def throwM_def)
    with Inl show ?thesis by (fastforce simp: answers_def)
  next
    case (Inr res)
    from assms [of res] obtain y where y: "f res = liftM y" "answers reads (Inr res) y" by blast
    from Inr h y(1) have "tryM (bindM (http env q) f) s = (Ok y, ?t)"
      by (cases y) (simp_all add: http_def callE_def call_def liftM_def tryM_def bindM_def throwM_def returnM_def)
    with Inr y(2) show ?thesis by fastforce
  qed
qed

lemma answers_return: "reads res = Some x \<Longrightarrow> \<exists>y. returnM x = liftM y \<and> answers reads (Inr res) y"
  by (rule exI [of _ "Inr x"]) (simp add: liftM_def answers_def)

lemma answers_throw: "reads res = None \<Longrightarrow> \<exists>y. throwM e = liftM y \<and> answers reads (Inr res) y"
  by (rule exI [of _ "Inl e"]) (simp add: liftM_def answers_def)

section \<open>Endpoint lookups\<close>

text \<open>The ready addresses that an answer to an endpoint lookup stands for: none when there is no
  such object.\<close>

definition readEndpoints :: "goerr + endpoints \<Rightarrow> goerr + endpointAddress list" where
  "readEndpoints r = (case r of
     Inl e \<Rightarrow> if IsNotFound e then Inr [] else Inl e
   | Inr eps \<Rightarrow> Inr (concat (map sub_Addresses (eps_Subsets eps))))"

lemma getEndpoints_run:
  "\<exists>r w. getEndpoints env n ns s = (outcome (readEndpoints r),
     s\<lparr>world := w, history := EvGetEndpoints \<lparr>nn_Name = n, nn_Namespace = ns\<rparr> r # history s\<rparr>)"
proof -
  obtain r w where "Get_Endpoints env \<lparr>nn_Name = n, nn_Namespace = ns\<rparr> (world s) = (r, w)" by fastforce
  then have "getEndpoints env n ns s = (outcome (readEndpoints r),
     s\<lparr>world := w, history := EvGetEndpoints \<lparr>nn_Name = n, nn_Namespace = ns\<rparr> r # history s\<rparr>)"
    by (cases r) (simp_all add: getEndpoints_def getEndpointsObj_def callE_def call_def bindM_def tryM_def liftM_def
        throwM_def returnM_def readEndpoints_def)
  then show ?thesis by blast
qed

text \<open>A lookup followed by the rest of a function.\<close>

lemma getEndpoints_then:
  "\<exists>r w. \<forall>f. bindM (getEndpoints env n ns) f s = (case readEndpoints r of
     Inl e \<Rightarrow> (Err e, s\<lparr>world := w, history := EvGetEndpoints \<lparr>nn_Name = n, nn_Namespace = ns\<rparr> r # history s\<rparr>)
   | Inr eps \<Rightarrow> f eps (s\<lparr>world := w, history := EvGetEndpoints \<lparr>nn_Name = n, nn_Namespace = ns\<rparr> r # history s\<rparr>))"
proof -
  obtain r w where "getEndpoints env n ns s = (outcome (readEndpoints r),
     s\<lparr>world := w, history := EvGetEndpoints \<lparr>nn_Name = n, nn_Namespace = ns\<rparr> r # history s\<rparr>)"
    using getEndpoints_run [of env n ns s] by blast
  then show ?thesis by (intro exI [of _ r] exI [of _ w] allI) (auto simp: bindM_def split: sum.split)
qed

end
