(* ===== verification/BrokerClient.thy ===== *)
theory BrokerClient
  imports Storage Calls
begin

text \<open>
  \<open>pkg/controller/undermoon/broker_client.go\<close>: the client of the broker's HTTP API. Every
  operation is one request; what it returns is a function of the answer (status code, decoded
  body). Operations carry the prefix \<open>brokerClient_\<close> where another component has an operation
  of the same name.
\<close>

section \<open>Error texts of the API\<close>

definition errStrAlreadyExists :: string where
  "errStrAlreadyExists = ''ALREADY_EXISTED''"

definition errStrMigrationRunning :: string where
  "errStrMigrationRunning = ''MIGRATION_RUNNING''"

definition errStrNoAvailableResource :: string where
  "errStrNoAvailableResource = ''NO_AVAILABLE_RESOURCE''"

definition errStrFreeNodeFound :: string where
  "errStrFreeNodeFound = ''FREE_NODE_FOUND''"

definition errStrFreeNodeNotFound :: string where
  "errStrFreeNodeNotFound = ''FREE_NODE_NOT_FOUND''"

definition badStatus :: "string \<Rightarrow> httpResponse \<Rightarrow> goerr" where
  "badStatus what res = Errorf (what @ '': invalid status code '' @ itoa (StatusCode res) @ '': '' @ resp_Body res)"

definition badStatusNoBody :: "string \<Rightarrow> httpResponse \<Rightarrow> goerr" where
  "badStatusNoBody what res = Errorf (what @ '': invalid status code '' @ itoa (StatusCode res))"

text \<open>\<open>response, ok := res.Error().(*errorResponse); ok && response.Error == s\<close>\<close>

definition errorIs :: "httpResponse \<Rightarrow> string \<Rightarrow> bool" where
  "errorIs res s = (case asErrorResponse (resp_Error res) of Some r \<Rightarrow> er_Error r = s | None \<Rightarrow> False)"

section \<open>Requests\<close>

definition configUrl :: "string \<Rightarrow> string" where
  "configUrl address = ''http://'' @ address @ ''/api/v2/config''"

definition request :: "httpMethod \<Rightarrow> string \<Rightarrow> httpRequest" where
  "request m url = \<lparr>req_Method = m, req_Url = url, req_Body = None, req_SetResult = None, req_SetError = None\<rparr>"

section \<open>Operations\<close>

definition getReplicaAddresses :: "'w env \<Rightarrow> string \<Rightarrow> ('w, string list) op" where
  "getReplicaAddresses env address =
     bindM (http env ((request GET (configUrl address))\<lparr>req_SetResult := Some KBrokerConfig\<rparr>)) (\<lambda>res.
       if StatusCode res \<noteq> 200 then throwM (badStatusNoBody ''Failed to get replica addresses from broker'' res)
       else case asBrokerConfig (resp_Result res) of
         None \<Rightarrow> throwM (Errorf (''Failed to get replica addresses from broker: invalid response payload '' @ resp_Body res))
       | Some resPayload \<Rightarrow> returnM (ReplicaAddresses resPayload))"

definition storeReplicaAddresses :: "'w env \<Rightarrow> string \<Rightarrow> string list \<Rightarrow> ('w, unit) op" where
  "storeReplicaAddresses env address replicaAddresses =
     bindM (http env ((request PUT (configUrl address))
         \<lparr>req_Body := Some (PBrokerConfig \<lparr>ReplicaAddresses = replicaAddresses\<rparr>)\<rparr>)) (\<lambda>res.
       if StatusCode res \<noteq> 200 then throwM (badStatusNoBody ''Failed to store replica addresses to broker'' res)
       else returnM ())"

definition brokerClient_getEpoch :: "'w env \<Rightarrow> string \<Rightarrow> ('w, i64) op" where
  "brokerClient_getEpoch env address =
     bindM (http env (request GET (''http://'' @ address @ ''/api/v2/epoch''))) (\<lambda>res.
       if StatusCode res \<noteq> 200 then throwM (badStatusNoBody ''Failed to get broker epoch'' res)
       else case ParseInt (resp_Body res) of
         (epoch, None) \<Rightarrow> returnM epoch
       | (_, Some _) \<Rightarrow> throwM (Errorf (''Invalid epoch from broker: '' @ resp_Body res)))"

definition brokerClient_getServerProxies :: "'w env \<Rightarrow> string \<Rightarrow> ('w, string list) op" where
  "brokerClient_getServerProxies env address =
     bindM (http env ((request GET (''http://'' @ address @ ''/api/v2/proxies/addresses''))
         \<lparr>req_SetResult := Some KServerProxies\<rparr>)) (\<lambda>res.
       if StatusCode res \<noteq> 200 then throwM (badStatus ''Failed to register server proxy'' res)
       else case asServerProxies (resp_Result res) of
         None \<Rightarrow> panicM ''interface conversion''
       | Some resultPayload \<Rightarrow> returnM (Addresses resultPayload))"

definition newServerProxyMeta :: "string \<Rightarrow> string \<Rightarrow> u32 \<Rightarrow> i64 \<Rightarrow> serverProxyMeta" where
  "newServerProxyMeta podHost nodeIP serverProxyPort index =
     \<lparr>ProxyAddress = podHost @ '':'' @ utoa (unat serverProxyPort),
      RedisAddresses = (podHost @ '':'' @ utoa redisPort1, podHost @ '':'' @ utoa redisPort2),
      Host = nodeIP,
      Index = index\<rparr>"

definition brokerClient_setBrokerReplicas :: "'w env \<Rightarrow> string \<Rightarrow> string list \<Rightarrow> ('w, unit) op" where
  "brokerClient_setBrokerReplicas env address replicaAddresses =
     bindM (http env ((request PUT (configUrl address))
         \<lparr>req_Body := Some (PBrokerConfigPayload \<lparr>payload_ReplicaAddresses = replicaAddresses\<rparr>)\<rparr>)) (\<lambda>res.
       if StatusCode res \<noteq> 200 then throwM (badStatus ''Failed to register server proxy'' res)
       else returnM ())"

definition registerServerProxy :: "'w env \<Rightarrow> string \<Rightarrow> serverProxyMeta \<Rightarrow> ('w, unit) op" where
  "registerServerProxy env address proxy =
     bindM (http env ((request POST (''http://'' @ address @ ''/api/v2/proxies/meta''))
         \<lparr>req_Body := Some (PServerProxyMeta proxy)\<rparr>)) (\<lambda>res.
       if StatusCode res \<noteq> 200 \<and> StatusCode res \<noteq> 409
       then throwM (badStatus ''Failed to register server proxy'' res)
       else returnM ())"

definition deregisterUrl :: "string \<Rightarrow> string \<Rightarrow> string" where
  "deregisterUrl address proxyAddress = ''http://'' @ address @ ''/api/v2/proxies/meta/'' @ proxyAddress"

definition deregisterServerProxy :: "'w env \<Rightarrow> string \<Rightarrow> string \<Rightarrow> ('w, unit) op" where
  "deregisterServerProxy env address proxyAddress =
     bindM (http env (request DELETE (deregisterUrl address proxyAddress))) (\<lambda>res.
       if StatusCode res \<noteq> 200 \<and> StatusCode res \<noteq> 404
       then throwM (badStatus ''Failed to deregister server proxy'' res)
       else returnM ())"

definition brokerClient_createCluster :: "'w env \<Rightarrow> string \<Rightarrow> string \<Rightarrow> i64 \<Rightarrow> ('w, unit) op" where
  "brokerClient_createCluster env address clusterName chunkNumber =
     bindM (http env ((request POST (''http://'' @ address @ ''/api/v2/clusters/meta/'' @ clusterName))
         \<lparr>req_Body := Some (PCreateCluster \<lparr>NodeNumber = chunkNumber * chunkNodeNumber\<rparr>),
          req_SetError := Some KErrorResponse\<rparr>)) (\<lambda>res.
       if StatusCode res = 200 then returnM ()
       else if StatusCode res = 409 \<and> errorIs res errStrNoAvailableResource then throwM errRetryReconciliation
       else if StatusCode res = 409 \<and> errorIs res errStrAlreadyExists then returnM ()
       else throwM (badStatus ''Failed to register server proxy'' res))"

definition clusterExists :: "'w env \<Rightarrow> string \<Rightarrow> string \<Rightarrow> ('w, bool) op" where
  "clusterExists env address clusterName =
     bindM (http env ((request GET (''http://'' @ address @ ''/api/v2/clusters/names''))
         \<lparr>req_SetResult := Some KClusterNames\<rparr>)) (\<lambda>res.
       if StatusCode res \<noteq> 200 then throwM (badStatus ''Failed to register server proxy'' res)
       else case asClusterNames (resp_Result res) of
         None \<Rightarrow> throwM (Errorf (''Failed to get cluster names: invalid response payload '' @ resp_Body res))
       | Some response \<Rightarrow> returnM (list_ex (\<lambda>name. name = clusterName) (Names response)))"

definition scaleUrl :: "string \<Rightarrow> string \<Rightarrow> i64 \<Rightarrow> string" where
  "scaleUrl address clusterName nodeNumber =
     ''http://'' @ address @ ''/api/v2/clusters/migrations/auto/'' @ clusterName @ ''/'' @ itoa (sint nodeNumber)"

definition scaleNodes :: "'w env \<Rightarrow> string \<Rightarrow> string \<Rightarrow> i64 \<Rightarrow> ('w, unit) op" where
  "scaleNodes env address clusterName chunkNumber =
     (let nodeNumber = chunkNumber * chunkNodeNumber in
      bindM (http env ((request POST (scaleUrl address clusterName nodeNumber))
          \<lparr>req_SetError := Some KErrorResponse\<rparr>)) (\<lambda>res.
        if StatusCode res = 200 then returnM ()
        else if (StatusCode res = 409 \<or> StatusCode res = 400) \<and> errorIs res errStrMigrationRunning
          then throwM errMigrationRunning
        else if (StatusCode res = 409 \<or> StatusCode res = 400) \<and> errorIs res errStrFreeNodeFound
          then throwM errFreeNodeFound
        else throwM (badStatus ''Failed to change node number'' res)))"

definition removeFreeNodes :: "'w env \<Rightarrow> string \<Rightarrow> string \<Rightarrow> ('w, unit) op" where
  "removeFreeNodes env address clusterName =
     bindM (http env ((request DELETE (''http://'' @ address @ ''/api/v2/clusters/free_nodes/'' @ clusterName))
         \<lparr>req_SetError := Some KErrorResponse\<rparr>)) (\<lambda>res.
       if StatusCode res = 200 then returnM ()
       else if (StatusCode res = 404 \<or> StatusCode res = 409) \<and> errorIs res errStrMigrationRunning
         then throwM errMigrationRunning
       else if (StatusCode res = 404 \<or> StatusCode res = 409) \<and> errorIs res errStrFreeNodeNotFound
         then returnM ()
       else throwM (badStatus ''Failed to remove free nodes'' res))"

definition infoUrl :: "string \<Rightarrow> string \<Rightarrow> string" where
  "infoUrl address clusterName = ''http://'' @ address @ ''/api/v2/clusters/info/'' @ clusterName"

definition infoRequest :: "string \<Rightarrow> string \<Rightarrow> httpRequest" where
  "infoRequest address clusterName = (request GET (infoUrl address clusterName))
     \<lparr>req_SetResult := Some KClusterInfo, req_SetError := Some KErrorResponse\<rparr>"

definition brokerClient_getClusterInfo :: "'w env \<Rightarrow> string \<Rightarrow> string \<Rightarrow> ('w, clusterInfo) op" where
  "brokerClient_getClusterInfo env address clusterName =
     bindM (http env (infoRequest address clusterName)) (\<lambda>res.
       if StatusCode res = 200 then
         (case asClusterInfo (resp_Result res) of
            None \<Rightarrow> throwM (Errorf (''failed to get cluster info, invalid content '' @ resp_Body res))
          | Some info \<Rightarrow> returnM info)
       else case (if StatusCode res = 404 then asErrorResponse (resp_Error res) else None) of
         Some response \<Rightarrow> throwM (Errorf (''cluster info not found, error code '' @ er_Error response))
       | None \<Rightarrow> throwM (badStatus ''Failed to get cluster info'' res))"

definition fixEpochUrl :: "string \<Rightarrow> string" where
  "fixEpochUrl address = ''http://'' @ address @ ''/api/v2/epoch/recovery''"

definition fixEpoch :: "'w env \<Rightarrow> string \<Rightarrow> ('w, unit) op" where
  "fixEpoch env address =
     bindM (http env ((request PUT (fixEpochUrl address))
         \<lparr>req_SetResult := Some KClusterInfo, req_SetError := Some KErrorResponse\<rparr>)) (\<lambda>res.
       if StatusCode res = 200 then returnM ()
       else throwM (badStatus ''Failed to get cluster info'' res))"

lemmas brokerClient_defs = getReplicaAddresses_def storeReplicaAddresses_def brokerClient_getEpoch_def
  brokerClient_getServerProxies_def brokerClient_setBrokerReplicas_def registerServerProxy_def
  deregisterServerProxy_def brokerClient_createCluster_def clusterExists_def scaleNodes_def
  removeFreeNodes_def brokerClient_getClusterInfo_def fixEpoch_def

section \<open>Which calls the operations make\<close>

text \<open>Every operation of the client is HTTP traffic and nothing else.\<close>

lemma uses_brokerClient [uses]:
  "usesOnly (getReplicaAddresses env a) {KHttp}"
  "usesOnly (storeReplicaAddresses env a rs) {KHttp}"
  "usesOnly (brokerClient_getEpoch env a) {KHttp}"
  "usesOnly (brokerClient_getServerProxies env a) {KHttp}"
  "usesOnly (brokerClient_setBrokerReplicas env a rs) {KHttp}"
  "usesOnly (registerServerProxy env a p) {KHttp}"
  "usesOnly (deregisterServerProxy env a b) {KHttp}"
  "usesOnly (brokerClient_createCluster env a b n) {KHttp}"
  "usesOnly (clusterExists env a b) {KHttp}"
  "usesOnly (scaleNodes env a b n) {KHttp}"
  "usesOnly (removeFreeNodes env a b) {KHttp}"
  "usesOnly (brokerClient_getClusterInfo env a b) {KHttp}"
  "usesOnly (fixEpoch env a) {KHttp}"
  unfolding brokerClient_defs Let_def by (intro emits_intros; simp)+

section \<open>Inversion of the type assertions\<close>

fun_cases asErrorResponse_SomeE: "asErrorResponse x = Some y"
fun_cases asBrokerConfig_SomeE: "asBrokerConfig x = Some y"
fun_cases asServerProxies_SomeE: "asServerProxies x = Some y"
fun_cases asClusterNames_SomeE: "asClusterNames x = Some y"
fun_cases asClusterInfo_SomeE: "asClusterInfo x = Some y"

section \<open>What the answers mean\<close>

text \<open>The readings of a response: the replica addresses of a broker, its epoch, and for the
  operations without a result the status codes that count as success.\<close>

definition readConfig :: "httpResponse \<Rightarrow> string list option" where
  "readConfig res = (if StatusCode res = 200 then map_option ReplicaAddresses (asBrokerConfig (resp_Result res)) else None)"

definition readEpoch :: "httpResponse \<Rightarrow> i64 option" where
  "readEpoch res = (if StatusCode res = 200 \<and> snd (ParseInt (resp_Body res)) = None then Some (fst (ParseInt (resp_Body res))) else None)"

definition readStatus :: "int set \<Rightarrow> httpResponse \<Rightarrow> unit option" where
  "readStatus codes res = (if StatusCode res \<in> codes then Some () else None)"

abbreviation configRequest :: "string \<Rightarrow> httpRequest" where
  "configRequest address \<equiv> (request GET (configUrl address))\<lparr>req_SetResult := Some KBrokerConfig\<rparr>"

abbreviation epochRequest :: "string \<Rightarrow> httpRequest" where
  "epochRequest address \<equiv> request GET (''http://'' @ address @ ''/api/v2/epoch'')"

abbreviation proxiesRequest :: "string \<Rightarrow> httpRequest" where
  "proxiesRequest address \<equiv> (request GET (''http://'' @ address @ ''/api/v2/proxies/addresses''))
     \<lparr>req_SetResult := Some KServerProxies\<rparr>"

abbreviation registerRequest :: "string \<Rightarrow> serverProxyMeta \<Rightarrow> httpRequest" where
  "registerRequest address proxy \<equiv> (request POST (''http://'' @ address @ ''/api/v2/proxies/meta''))
     \<lparr>req_Body := Some (PServerProxyMeta proxy)\<rparr>"

abbreviation deregisterRequest :: "string \<Rightarrow> string \<Rightarrow> httpRequest" where
  "deregisterRequest address proxyAddress \<equiv> request DELETE (deregisterUrl address proxyAddress)"

abbreviation replicasRequest :: "string \<Rightarrow> string list \<Rightarrow> httpRequest" where
  "replicasRequest address rs \<equiv> (request PUT (configUrl address))
     \<lparr>req_Body := Some (PBrokerConfigPayload \<lparr>payload_ReplicaAddresses = rs\<rparr>)\<rparr>"

abbreviation fixEpochRequest :: "string \<Rightarrow> httpRequest" where
  "fixEpochRequest address \<equiv> (request PUT (fixEpochUrl address))
     \<lparr>req_SetResult := Some KClusterInfo, req_SetError := Some KErrorResponse\<rparr>"

interpretation cfg: one_call "getReplicaAddresses env" "\<lambda>a. EvHttp (configRequest a)"
  "answers readConfig" "\<lambda>_. True" for env
  by (unfold_locales, unfold getReplicaAddresses_def split_beta, rule one_http) (auto simp: readConfig_def split: option.splits
      intro!: answers_return answers_throw)

interpretation epo: one_call "brokerClient_getEpoch env" "\<lambda>a. EvHttp (epochRequest a)"
  "answers readEpoch" "\<lambda>_. True" for env
  by (unfold_locales, unfold brokerClient_getEpoch_def split_beta, rule one_http) (auto simp: readEpoch_def split: option.splits prod.splits
      intro!: answers_return answers_throw)

interpretation reg: one_call "registerServerProxy env m" "\<lambda>p. EvHttp (registerRequest m p)"
  "answers (readStatus {200, 409})" "\<lambda>_. True" for env m
  by (unfold_locales, unfold registerServerProxy_def split_beta, rule one_http) (auto simp: readStatus_def
      intro!: answers_return answers_throw)

interpretation dereg: one_call "deregisterServerProxy env m" "\<lambda>a. EvHttp (deregisterRequest m a)"
  "answers (readStatus {200, 404})" "\<lambda>_. True" for env m
  by (unfold_locales, unfold deregisterServerProxy_def split_beta, rule one_http) (auto simp: readStatus_def
      intro!: answers_return answers_throw)

interpretation repl: unit_call "\<lambda>(a, rs). brokerClient_setBrokerReplicas env a rs"
  "\<lambda>(a, rs). EvHttp (replicasRequest a rs)"
  "answers (readStatus {200})" "\<lambda>_. True" for env
  by (unfold_locales, unfold brokerClient_setBrokerReplicas_def split_beta, rule one_http) (auto simp: readStatus_def
      intro!: answers_return answers_throw)

interpretation fixe: one_call "fixEpoch env" "\<lambda>a. EvHttp (fixEpochRequest a)"
  "answers (readStatus {200})" "\<lambda>_. True" for env
  by (unfold_locales, unfold fixEpoch_def split_beta, rule one_http) (auto simp: readStatus_def
      intro!: answers_return answers_throw)

section \<open>The cluster report\<close>

text \<open>A report that \<open>getClusterInfo\<close> returns is the decoded body of the answer, with status 200,
  to the request for this cluster at this broker.\<close>

lemma getClusterInfo_call:
  "hvalid (\<lambda>h. h = h0) (brokerClient_getClusterInfo env address clusterName)
     (\<lambda>info h. \<exists>res. h = EvHttp (infoRequest address clusterName) (Inr res) # h0 \<and>
        StatusCode res = 200 \<and> resp_Result res = Some (PClusterInfo info))
     (\<lambda>_ h. \<exists>r. h = EvHttp (infoRequest address clusterName) r # h0)"
  unfolding brokerClient_getClusterInfo_def http_def
proof (rule hvalid_bind)
  show "hvalid (\<lambda>h. h = h0) (callE (Http env (infoRequest address clusterName)) (EvHttp (infoRequest address clusterName)))
      (\<lambda>res h. h = EvHttp (infoRequest address clusterName) (Inr res) # h0)
      (\<lambda>_ h. \<exists>r. h = EvHttp (infoRequest address clusterName) r # h0)"
    by (intro hvalid_callE) auto
qed (intro hrules; auto elim: asClusterInfo_SomeE)

end
