(* ===== verification/GetOrCreate.thy ===== *)
theory GetOrCreate
  imports Utils
begin

text \<open>
  The scheme that the six \<open>getOrCreate...\<close> methods of the three controllers follow, as an
  interface: set the owner, look the object up by the name it would get, create it when the API
  server says it is not there. The locale states the scheme for the method \<open>run\<close>, and what the
  callers need is proved once in it.
\<close>

abbreviation svcKey :: "service \<Rightarrow> namespacedName" where
  "svcKey x \<equiv> \<lparr>nn_Name = meta_Name (svc_Meta x), nn_Namespace = meta_Namespace (svc_Meta x)\<rparr>"

abbreviation ssKey :: "statefulSet \<Rightarrow> namespacedName" where
  "ssKey x \<equiv> \<lparr>nn_Name = meta_Name (ss_Meta x), nn_Namespace = meta_Namespace (ss_Meta x)\<rparr>"

text \<open>The calls a run makes, and in which order: the object it returns was found, or was made
  right after the server said that there is none. Histories are newest first.\<close>

definition obtained :: "goerr + 'o \<Rightarrow> ('o \<Rightarrow> goerr + 'o \<Rightarrow> event) \<Rightarrow> ('o \<Rightarrow> goerr + 'o \<Rightarrow> event)
    \<Rightarrow> 'o \<Rightarrow> event list \<Rightarrow> event list \<Rightarrow> bool" where
  "obtained owned evFind evMake y h0 h \<longleftrightarrow> (\<exists>x. owned = Inr x \<and>
     (h = evFind x (Inr y) # h0 \<or>
      (\<exists>e. IsNotFound e \<and> h = evMake x (Inr y) # evFind x (Inl e) # h0)))"

locale get_or_create =
  fixes run :: "('w, 'o) op"
    and owned :: "goerr + 'o"  \<comment> \<open>the object built from the resource, with its owner set\<close>
    and find :: "'o \<Rightarrow> ('w, 'o) op"
    and make :: "'o \<Rightarrow> ('w, 'o) op"
    and evFind evMake :: "'o \<Rightarrow> goerr + 'o \<Rightarrow> event"
  assumes run_eq: "run = bindM (liftM owned) (\<lambda>x. bindM (tryM (find x)) (\<lambda>r.
      case r of Inl e \<Rightarrow> if IsNotFound e then make x else throwM e | Inr found \<Rightarrow> returnM found))"
    and find_call: "\<exists>f. find x = callE f (evFind x)"
    and make_call: "\<exists>f. make x = callE f (evMake x)"
begin

lemma lookup_obtains:
  assumes "owned = Inr x"
  shows "hvalid (\<lambda>h. h = h0)
      (bindM (tryM (find x)) (\<lambda>r. case r of Inl e \<Rightarrow> if IsNotFound e then make x else throwM e | Inr found \<Rightarrow> returnM found))
      (\<lambda>y h. obtained owned evFind evMake y h0 h) (\<lambda>e h. \<exists>es. h = es @ h0)"
proof -
  obtain f g where f: "find x = callE f (evFind x)" and g: "make x = callE g (evMake x)"
    using find_call make_call by blast
  have found: "hvalid (\<lambda>h. h = h0) (tryM (callE f (evFind x))) (\<lambda>r h. h = evFind x r # h0) (\<lambda>e h. \<exists>es. h = es @ h0)"
    by (intro hvalid_try hvalid_callE) auto
  show ?thesis
    unfolding f g
    by (rule hvalid_bind [OF found]) (auto intro!: hrules hvalid_callE simp: obtained_def assms)
qed

lemma run_obtains:
  "hvalid (\<lambda>h. h = h0) run (\<lambda>y h. obtained owned evFind evMake y h0 h) (\<lambda>e h. \<exists>es. h = es @ h0)"
proof (cases owned)
  case (Inl e)
  then show ?thesis by (auto simp: run_eq liftM_def intro!: hrules)
next
  case (Inr x)
  then show ?thesis using lookup_obtains [OF Inr] by (simp add: run_eq liftM_def)
qed

lemma emits_run:
  assumes "\<And>x r. owned = Inr x \<Longrightarrow> A (evFind x r)" and "\<And>x r. owned = Inr x \<Longrightarrow> A (evMake x r)"
  shows "emits run A"
proof (cases owned)
  case (Inr x)
  obtain f g where "find x = callE f (evFind x)" and "make x = callE g (evMake x)"
    using find_call make_call by blast
  with Inr assms show ?thesis
    by (auto simp: run_eq liftM_def intro!: emits_intros emits_callE)
qed (auto simp: run_eq liftM_def intro!: emits_intros)

text \<open>Under the guard of \<open>utils.go\<close>: still either found or made; every retry is one whole run.\<close>

lemma guarded_obtains:
  "hvalid (\<lambda>h. \<exists>es. h = es @ h0) (createGuardLoop (Suc i) None run)
     (\<lambda>y h. \<exists>es. obtained owned evFind evMake y (es @ h0) h) (\<lambda>e h. \<exists>es. h = es @ h0)"
proof -
  have "hvalid (\<lambda>h. \<exists>es. h = es @ h0) run (\<lambda>y h. \<exists>es. obtained owned evFind evMake y (es @ h0) h) (\<lambda>e h. (\<exists>es. h = es @ h0) \<and> True)"
  proof (rule hvalid_at, elim exE)
    fix h1 es assume "h1 = es @ h0"
    then show "hvalid (\<lambda>h. h = h1) run (\<lambda>y h. \<exists>es. obtained owned evFind evMake y (es @ h0) h) (\<lambda>e h. (\<exists>es. h = es @ h0) \<and> True)"
      by (intro hvalid_conseq [OF run_obtains [of h1]]) (auto simp flip: append_assoc)
  qed
  from hvalid_createGuardLoop [OF this, of None "Suc i"] show ?thesis
    by (auto elim!: hvalid_conseq)
qed

end

section \<open>Two objects one after the other\<close>

lemma workload_obtained:
  assumes "\<And>h0. hvalid (\<lambda>h. \<exists>es. h = es @ h0) m1 (\<lambda>y h. \<exists>es. obtained o1 f1 c1 y (es @ h0) h) (\<lambda>_ h. \<exists>es. h = es @ h0)"
    and "\<And>h0. hvalid (\<lambda>h. \<exists>es. h = es @ h0) m2 (\<lambda>y h. \<exists>es. obtained o2 f2 c2 y (es @ h0) h) (\<lambda>_ h. \<exists>es. h = es @ h0)"
  shows "hvalid (\<lambda>h. \<exists>es. h = es @ h0) (bindM m1 (\<lambda>svc. bindM m2 (\<lambda>ss. returnM (ss, svc))))
     (\<lambda>(ss, svc) h. \<exists>es h1 es'. obtained o1 f1 c1 svc (es @ h0) h1 \<and> obtained o2 f2 c2 ss (es' @ h1) h)
     (\<lambda>_ h. \<exists>es. h = es @ h0)"
proof (rule hvalid_bind)
  show "hvalid (\<lambda>h. \<exists>es. h = es @ h0) m1 (\<lambda>y h. \<exists>es. obtained o1 f1 c1 y (es @ h0) h) (\<lambda>_ h. \<exists>es. h = es @ h0)"
    by (rule assms(1))
  fix svc
  show "hvalid (\<lambda>h. \<exists>es. obtained o1 f1 c1 svc (es @ h0) h) (bindM m2 (\<lambda>ss. returnM (ss, svc)))
     (\<lambda>(ss, svc) h. \<exists>es h1 es'. obtained o1 f1 c1 svc (es @ h0) h1 \<and> obtained o2 f2 c2 ss (es' @ h1) h)
     (\<lambda>_ h. \<exists>es. h = es @ h0)"
  proof (rule hvalid_at, elim exE)
    fix h1 es assume h1: "obtained o1 f1 c1 svc (es @ h0) h1"
    then obtain es1 where es1: "h1 = es1 @ h0" by (auto simp: obtained_def simp flip: append_Cons append_assoc)
    show "hvalid (\<lambda>h. h = h1) (bindM m2 (\<lambda>ss. returnM (ss, svc)))
       (\<lambda>(ss, svc) h. \<exists>es h1 es'. obtained o1 f1 c1 svc (es @ h0) h1 \<and> obtained o2 f2 c2 ss (es' @ h1) h)
       (\<lambda>_ h. \<exists>es. h = es @ h0)"
    proof (rule hvalid_bind)
      show "hvalid (\<lambda>h. h = h1) m2 (\<lambda>y h. \<exists>es. obtained o2 f2 c2 y (es @ h1) h) (\<lambda>_ h. \<exists>es. h = es @ h0)"
        by (rule hvalid_conseq [OF assms(2) [of h1]]) (auto simp: es1)
    qed (use h1 in \<open>auto intro!: hvalid_return\<close>)
  qed
qed

section \<open>The guards\<close>

text \<open>The state after \<open>n\<close> runs.\<close>

abbreviation afterRuns :: "('w, 'a) op \<Rightarrow> nat \<Rightarrow> 'w sys \<Rightarrow> 'w sys" where
  "afterRuns m n s \<equiv> ((\<lambda>s. snd (m s)) ^^ n) s"

abbreviation existed :: "('w, 'a) op \<Rightarrow> 'w sys \<Rightarrow> bool" where
  "existed m s \<equiv> (\<exists>e. fst (m s) = Err e \<and> IsAlreadyExists e)"

lemma createGuardLoop_runs:
  "\<exists>n \<le> i. (\<forall>k < n. existed m (afterRuns m k s)) \<and> (n = i \<or> \<not> existed m (afterRuns m n s)) \<and>
     createGuardLoop (Suc i) err m s = m (afterRuns m n s)"
proof (induction i arbitrary: s err)
  case 0
  show ?case by (cases "m s") (auto simp: bindM_def tryM_def returnM_def throwM_def split: res.splits)
next
  case (Suc i)
  show ?case
  proof (cases "existed m s")
    case True
    then obtain e t where e: "m s = (Err e, t)" "IsAlreadyExists e" by (metis prod.collapse)
    obtain n where n: "n \<le> i" "\<forall>k < n. existed m (afterRuns m k t)" "n = i \<or> \<not> existed m (afterRuns m n t)"
      "createGuardLoop (Suc i) (Some e) m t = m (afterRuns m n t)"
      using Suc.IH by blast
    have shift: "afterRuns m (Suc k) s = afterRuns m k t" for k
      using e(1) by (simp add: funpow_Suc_right del: funpow.simps)
    have "createGuardLoop (Suc (Suc i)) err m s = createGuardLoop (Suc i) (Some e) m t"
      using e by (simp add: bindM_def tryM_def)
    moreover have "\<forall>k < Suc n. existed m (afterRuns m k s)"
    proof (intro allI impI)
      fix k assume "k < Suc n"
      with True n(2) shift show "existed m (afterRuns m k s)" by (cases k) auto
    qed
    ultimately show ?thesis using n(1,3,4) shift by (intro exI [of _ "Suc n"]) simp
  next
    case False
    then have "createGuardLoop (Suc (Suc i)) err m s = m s"
      by (cases "m s") (auto simp: bindM_def tryM_def returnM_def throwM_def split: res.splits)
    with False show ?thesis by (intro exI [of _ 0]) simp
  qed
qed

end
