(* ===== verification/BrokerController.thy ===== *)
theory BrokerController
  imports Broker BrokerClient GetOrCreate
begin

text \<open>
  \<open>pkg/controller/undermoon/broker_controller.go\<close>: creation of the broker workload, its
  readiness, and the election of the master broker among the brokers that answer.
\<close>

section \<open>Creation\<close>

definition getOrCreateBrokerService :: "'w env \<Rightarrow> undermoon \<Rightarrow> ('w, service) op" where
  "getOrCreateBrokerService env cr =
     bindM (liftM (SetControllerReference_Service env cr (createBrokerService cr))) (\<lambda>service.
     bindM (tryM (getService env (svcKey service))) (\<lambda>r.
       case r of
         Inl e \<Rightarrow> if IsNotFound e then createService env service else throwM e
       | Inr found \<Rightarrow> returnM found))"

definition getOrCreateBrokerStatefulSet :: "'w env \<Rightarrow> undermoon \<Rightarrow> ('w, statefulSet) op" where
  "getOrCreateBrokerStatefulSet env cr =
     bindM (liftM (SetControllerReference_StatefulSet env cr (createBrokerStatefulSet cr))) (\<lambda>broker.
     bindM (tryM (getStatefulSet env (ssKey broker))) (\<lambda>r.
       case r of
         Inl e \<Rightarrow> if IsNotFound e then createStatefulSet env broker else throwM e
       | Inr found \<Rightarrow> returnM found))"

definition createBroker :: "'w env \<Rightarrow> undermoon \<Rightarrow> ('w, statefulSet \<times> service) op" where
  "createBroker env cr =
     bindM (createServiceGuard (getOrCreateBrokerService env cr)) (\<lambda>brokerService.
     bindM (createStatefulSetGuard (getOrCreateBrokerStatefulSet env cr)) (\<lambda>brokerStatefulSet.
     returnM (brokerStatefulSet, brokerService)))"

section \<open>Readiness\<close>

definition broker_getServiceEndpointsNum :: "'w env \<Rightarrow> service \<Rightarrow> ('w, int) op" where
  "broker_getServiceEndpointsNum env brokerService =
     bindM (getEndpoints env (meta_Name (svc_Meta brokerService)) (meta_Namespace (svc_Meta brokerService)))
       (\<lambda>eps. returnM (len eps))"

definition brokerReady :: "'w env \<Rightarrow> statefulSet \<Rightarrow> service \<Rightarrow> ('w, bool) op" where
  "brokerReady env brokerStatefulSet brokerService =
     bindM (broker_getServiceEndpointsNum env brokerService) (\<lambda>n.
       returnM (sint (ss_StatusReadyReplicas brokerStatefulSet) \<ge> sint (brokerNum - 1)
         \<and> n \<ge> sint (int_of_i32 (brokerNum - 1))))"

definition brokerAllReady :: "'w env \<Rightarrow> statefulSet \<Rightarrow> service \<Rightarrow> ('w, bool) op" where
  "brokerAllReady env brokerStatefulSet brokerService =
     bindM (broker_getServiceEndpointsNum env brokerService) (\<lambda>n.
       returnM (ss_StatusReadyReplicas brokerStatefulSet = brokerNum
         \<and> n \<ge> sint (int_of_i32 brokerNum)))"

section \<open>The master broker\<close>

text \<open>\<open>Status().Update\<close> writes the server's answer back through the pointer \<open>cr\<close>: the new
  resource is part of the result.\<close>

definition setMasterBrokerStatus :: "'w env \<Rightarrow> undermoon \<Rightarrow> string \<Rightarrow> ('w, undermoon) op" where
  "setMasterBrokerStatus env cr masterBrokerAddress =
     bindM (tryM (updateStatus env (cr\<lparr>Status := (Status cr)\<lparr>MasterBrokerAddress := masterBrokerAddress\<rparr>\<rparr>))) (\<lambda>r.
       case r of
         Inl e \<Rightarrow> if IsConflict e then throwM errRetryReconciliation else throwM e
       | Inr cr' \<Rightarrow> returnM cr')"

definition masterCandidates :: "'w env \<Rightarrow> string list \<Rightarrow> ('w, string list) op" where
  "masterCandidates env brokerAddresses =
     foldM (\<lambda>masterBrokers address.
       bindM (tryM (getReplicaAddresses env address)) (\<lambda>r. returnM (case r of
         Inl err \<Rightarrow> masterBrokers
       | Inr replicaAddresses \<Rightarrow>
           if len replicaAddresses \<noteq> 0 then masterBrokers @ [address] else masterBrokers)))
       [] brokerAddresses"

definition maxEpochLoop :: "'w env \<Rightarrow> string list \<Rightarrow> ('w, i64 \<times> string) op" where
  "maxEpochLoop env masterBrokers =
     foldM (\<lambda>acc address. case acc of (maxEpoch, maxEpochBroker) \<Rightarrow>
       bindM (tryM (brokerClient_getEpoch env address)) (\<lambda>r. returnM (case r of
         Inl err \<Rightarrow> (maxEpoch, maxEpochBroker)
       | Inr epoch \<Rightarrow>
           if maxEpochBroker = '''' \<or> sint epoch > sint maxEpoch then (epoch, address)
           else (maxEpoch, maxEpochBroker))))
       (0, '''') masterBrokers"

definition getCurrentMaster :: "'w env \<Rightarrow> string list \<Rightarrow> ('w, string) op" where
  "getCurrentMaster env brokerAddresses =
     (if len brokerAddresses = 0 then throwM (Errorf ''broker addresses is empty'')
      else bindM (masterCandidates env brokerAddresses) (\<lambda>masterBrokers.
        if len masterBrokers = 1 then returnM (hd masterBrokers)
        else
          (let masterBrokers = (if len masterBrokers = 0 then masterBrokers @ brokerAddresses else masterBrokers)
           in bindM (maxEpochLoop env masterBrokers) (\<lambda>(maxEpoch, maxEpochBroker). returnM maxEpochBroker))))"

definition reconcileMaster :: "'w env \<Rightarrow> undermoon \<Rightarrow> service \<Rightarrow> ('w, undermoon \<times> string \<times> string list) op" where
  "reconcileMaster env cr brokerService =
     bindM (getEndpoints env (meta_Name (svc_Meta brokerService)) (meta_Namespace (svc_Meta brokerService))) (\<lambda>eps.
     let brokerAddresses = map (\<lambda>endpoint. genBrokerAddressFromName (ep_Hostname endpoint) cr) eps in
     bindM (getCurrentMaster env brokerAddresses) (\<lambda>currMaster.
     bindM (setMasterBrokerStatus env cr currMaster) (\<lambda>cr'.
     let replicaAddresses = filter (\<lambda>address. address \<noteq> currMaster) brokerAddresses in
     returnM (cr', currMaster, replicaAddresses))))"

section \<open>The creation scheme\<close>

interpretation bk_svc: get_or_create "getOrCreateBrokerService env cr"
  "SetControllerReference_Service env cr (createBrokerService cr)"
  "\<lambda>x. getService env (svcKey x)" "createService env"
  "\<lambda>x. EvGetService (svcKey x)" EvCreateService for env cr
  by unfold_locales (auto simp: getOrCreateBrokerService_def getService_def createService_def)

interpretation bk_ss: get_or_create "getOrCreateBrokerStatefulSet env cr"
  "SetControllerReference_StatefulSet env cr (createBrokerStatefulSet cr)"
  "\<lambda>x. getStatefulSet env (ssKey x)" "createStatefulSet env"
  "\<lambda>x. EvGetStatefulSet (ssKey x)" EvCreateStatefulSet for env cr
  by unfold_locales (auto simp: getOrCreateBrokerStatefulSet_def getStatefulSet_def createStatefulSet_def)

section \<open>Which calls the operations make\<close>

lemma uses_createBroker [uses]: "usesOnly (createBroker env cr) {KLookup, KCreate}"
  unfolding createBroker_def
  by (intro emits_intros bk_svc.emits_run bk_ss.emits_run; simp)

lemma uses_brokerReady [uses]: "usesOnly (brokerReady env ss svc) {KEndpoints}"
  unfolding brokerReady_def broker_getServiceEndpointsNum_def by (intro emits_intros; simp)

lemma uses_getCurrentMaster [uses]: "usesOnly (getCurrentMaster env as) {KHttp}"
  unfolding getCurrentMaster_def masterCandidates_def maxEpochLoop_def Let_def
  by (intro emits_intros uses; simp)

lemma uses_reconcileMaster [uses]: "usesOnly (reconcileMaster env cr svc) {KEndpoints, KHttp, KStatus}"
  unfolding reconcileMaster_def setMasterBrokerStatus_def Let_def
  by (intro emits_intros usesOnly_mono [OF uses_getCurrentMaster]; simp)

end
