(* ===== verification/Coordinator.thy ===== *)
theory Coordinator
  imports Workload
begin

text \<open>
  \<open>pkg/controller/undermoon/coordinator.go\<close>: the service and the StatefulSet of the
  coordinators, and the addresses of their pods.
\<close>

definition coordinatorPort :: nat where
  "coordinatorPort = 6699"

definition coordinatorNum :: i32 where
  "coordinatorNum = 3"

definition coordinatorContainerName :: string where
  "coordinatorContainerName = ''coordinator''"

definition undermoonServiceTypeCoordinator :: string where
  "undermoonServiceTypeCoordinator = ''coordinator''"

definition coordinatorTopologyKey :: string where
  "coordinatorTopologyKey = ''undermoon-broker-topology-key''"

definition CoordinatorServiceName :: "string \<Rightarrow> string" where
  "CoordinatorServiceName undermoonName = undermoonName @ ''-cd-svc''"

definition CoordinatorStatefulSetName :: "string \<Rightarrow> string" where
  "CoordinatorStatefulSetName undermoonName = undermoonName @ ''-cd-ss''"

definition createCoordinatorService :: "undermoon \<Rightarrow> service" where
  "createCoordinatorService cr =
     (let undermoonName = crName cr;
          lbls = undermoonLabels undermoonServiceTypeCoordinator cr
      in \<lparr>svc_Meta = \<lparr>meta_Name = CoordinatorServiceName undermoonName, meta_Namespace = crNamespace cr,
            meta_Labels = lbls, meta_OwnerReferences = [], meta_ResourceVersion = ''''\<rparr>,
          svc_Ports = [\<lparr>port_Name = ''coordinator-port'', port_Port = of_nat coordinatorPort,
            port_Protocol = ''TCP''\<rparr>],
          svc_ClusterIP = ''None'',
          svc_Selector = lbls,
          svc_PublishNotReadyAddresses = False\<rparr>)"

definition coordinatorEnv :: "envVar list" where
  "coordinatorEnv =
     [envValue ''RUST_LOG'' ''undermoon=info,coordinator=info'',
      envValue ''UNDERMOON_ADDRESS'' (''0.0.0.0:'' @ utoa coordinatorPort),
      envValue ''UNDERMOON_BROKER_ADDRESS'' '''',
      \<lparr>env_Name = ''UNDERMOON_REPORTER_ID'', env_Value = '''', env_FieldPath = Some ''metadata.name''\<rparr>,
      envValue ''UNDERMOON_THREAD_NUMBER'' ''2'',
      envValue ''UNDERMOON_PROXY_TIMEOUT'' ''3'']"

definition createCoordinatorStatefulSet :: "undermoon \<Rightarrow> statefulSet" where
  "createCoordinatorStatefulSet cr =
     (let lbls = undermoonLabels undermoonServiceTypeCoordinator cr;
          ctr = \<lparr>ctr_Name = coordinatorContainerName, ctr_Image = UndermoonImage (Spec cr),
            ctr_ImagePullPolicy = UndermoonImagePullPolicy (Spec cr),
            ctr_Command = [''coordinator''], ctr_Args = [], ctr_Env = coordinatorEnv,
            ctr_Resources = CoordinatorResources (Spec cr), ctr_PreStop = None,
            ctr_ReadinessProbe = None\<rparr>;
          podSpec = \<lparr>tpl_Labels = lbls, tpl_Containers = [ctr],
            tpl_Affinity = genAntiAffinity lbls (crNamespace cr) coordinatorTopologyKey\<rparr>;
          replicaNum = coordinatorNum
      in \<lparr>ss_Kind = ''StatefulSet'', ss_APIVersion = ''apps/v1'',
          ss_Meta = \<lparr>meta_Name = CoordinatorStatefulSetName (crName cr), meta_Namespace = crNamespace cr,
            meta_Labels = lbls, meta_OwnerReferences = [], meta_ResourceVersion = ''''\<rparr>,
          ss_Selector = lbls,
          ss_ServiceName = CoordinatorServiceName (crName cr),
          ss_Replicas = Some replicaNum,
          ss_Template = podSpec,
          ss_PodManagementPolicy = ''Parallel'',
          ss_StatusReplicas = 0, ss_StatusReadyReplicas = 0, ss_StatusCurrentReplicas = 0\<rparr>)"

definition genCoordinatorNames :: "string \<Rightarrow> string list" where
  "genCoordinatorNames undermoonName =
     countUp 0 coordinatorNum (\<lambda>i. CoordinatorStatefulSetName undermoonName @ ''-'' @ itoa (sint i))"

definition genCoordinatorFQDN :: "string \<Rightarrow> string \<Rightarrow> string \<Rightarrow> string" where
  "genCoordinatorFQDN podName undermoonName namespace =
     podName @ ''.'' @ CoordinatorServiceName undermoonName @ ''.'' @ namespace @ ''.svc.cluster.local''"

definition genCoordinatorAddressFromName :: "string \<Rightarrow> undermoon \<Rightarrow> string" where
  "genCoordinatorAddressFromName name cr =
     (let host = genCoordinatorFQDN name (crName cr) (crNamespace cr)
      in host @ '':'' @ utoa coordinatorPort)"

definition genCoordinatorStatefulSetAddrs :: "undermoon \<Rightarrow> string list" where
  "genCoordinatorStatefulSetAddrs cr =
     map (\<lambda>name. genCoordinatorAddressFromName name cr) (genCoordinatorNames (crName cr))"

lemma genCoordinatorNames_eq:
  "genCoordinatorNames n = map (\<lambda>i. podNameOf (CoordinatorStatefulSetName n) (int i)) [0..<3]"
  by (simp add: genCoordinatorNames_def countUp_0 podNameOf_def coordinatorNum_def upt_rec)

interpretation cd: workload CoordinatorServiceName CoordinatorStatefulSetName genCoordinatorFQDN
  genCoordinatorAddressFromName "\<lambda>_. coordinatorPort" createCoordinatorService
  createCoordinatorStatefulSet genCoordinatorStatefulSetAddrs "\<lambda>_. True"
  by unfold_locales
    (simp_all add: genCoordinatorFQDN_def genCoordinatorAddressFromName_def
      createCoordinatorService_def createCoordinatorStatefulSet_def
      genCoordinatorStatefulSetAddrs_def genCoordinatorNames_eq coordinatorNum_def Let_def)

end
