(* ===== verification/RedisClients.thy ===== *)
theory RedisClients
  imports Calls
begin

text \<open>
  \<open>coordinator_client.go\<close> and \<open>proxy_client.go\<close>: Redis commands sent through pooled clients.
  Both pools are instances of the interface \<open>client_pool\<close>.
\<close>

section \<open>Coordinators\<close>

definition coordinatorClient_setBrokerAddress :: "'w env \<Rightarrow> redisClient \<Rightarrow> string \<Rightarrow> ('w, unit) op" where
  "coordinatorClient_setBrokerAddress env client brokerAddress =
     bindM (redisProcess env (client_Addr client) [''CONFIG'', ''SET'', ''brokers'', brokerAddress]) (\<lambda>(err, cmd).
       case err of
         Some e \<Rightarrow> throwM e
       | None \<Rightarrow> (case cmd_Err cmd of Some e \<Rightarrow> throwM e | None \<Rightarrow> returnM ()))"

definition newCoordinatorClientPool :: redisClientPool where
  "newCoordinatorClientPool = newRedisClientPool"

definition coordinatorClientPool_getClient :: "string \<Rightarrow> ('w, redisClient) op" where
  "coordinatorClientPool_getClient coordAddress = (\<lambda>s.
     case getClient (coordPool s) (nextClient s) coordAddress of
       (client, pool, n) \<Rightarrow> (Ok client, s\<lparr>coordPool := pool, nextClient := n\<rparr>))"

definition coordinatorClientPool_setBrokerAddress :: "'w env \<Rightarrow> string \<Rightarrow> string \<Rightarrow> ('w, unit) op" where
  "coordinatorClientPool_setBrokerAddress env coordAddress brokerAddress =
     bindM (coordinatorClientPool_getClient coordAddress) (\<lambda>c.
       coordinatorClient_setBrokerAddress env c brokerAddress)"

section \<open>Server proxies\<close>

text \<open>Like the Go function, the operation gives a number together with its error: the caller
  \<open>getMaxEpoch\<close> goes on with the number after an error.\<close>

definition serverProxyClient_getEpoch :: "'w env \<Rightarrow> redisClient \<Rightarrow> ('w, i64 \<times> goerr option) op" where
  "serverProxyClient_getEpoch env client =
     bindM (redisProcess env (client_Addr client) [''UMCTL'', ''GETEPOCH'']) (\<lambda>(err, cmd).
       case err of
         Some e \<Rightarrow> returnM (0, Some e)
       | None \<Rightarrow> returnM (cmd_Int cmd, cmd_Err cmd))"

definition newServerProxyClientPool :: redisClientPool where
  "newServerProxyClientPool = newRedisClientPool"

definition serverProxyClientPool_getClient :: "string \<Rightarrow> ('w, redisClient) op" where
  "serverProxyClientPool_getClient serverProxyAddress = (\<lambda>s.
     case getClient (proxyPool s) (nextClient s) serverProxyAddress of
       (client, pool, n) \<Rightarrow> (Ok client, s\<lparr>proxyPool := pool, nextClient := n\<rparr>))"

definition serverProxyClientPool_getEpoch :: "'w env \<Rightarrow> string \<Rightarrow> ('w, i64 \<times> goerr option) op" where
  "serverProxyClientPool_getEpoch env serverProxyAddress =
     bindM (serverProxyClientPool_getClient serverProxyAddress) (\<lambda>c. serverProxyClient_getEpoch env c)"

section \<open>The two pools\<close>

interpretation coord: client_pool coordPool coordinatorClientPool_getClient
proof
  show "\<exists>c t. coordinatorClientPool_getClient a s = (Ok c, t)" for a and s :: "'w sys"
    by (auto simp: coordinatorClientPool_getClient_def split: prod.splits)
qed (auto simp: coordinatorClientPool_getClient_def getClient_cached split: prod.splits
    dest: getClient_spec getClient_inv)

interpretation prox: client_pool proxyPool serverProxyClientPool_getClient
proof
  show "\<exists>c t. serverProxyClientPool_getClient a s = (Ok c, t)" for a and s :: "'w sys"
    by (auto simp: serverProxyClientPool_getClient_def split: prod.splits)
qed (auto simp: serverProxyClientPool_getClient_def getClient_cached split: prod.splits
    dest: getClient_spec getClient_inv)

text \<open>The invariant of the operator's own state: both pools are in order, and no client is in
  both.\<close>

definition sysInv :: "'w sys \<Rightarrow> bool" where
  "sysInv s \<longleftrightarrow> poolInv (nextClient s) (coordPool s) \<and> poolInv (nextClient s) (proxyPool s) \<and>
     (\<forall>a b c d. clients (coordPool s) a = Some c \<longrightarrow> clients (proxyPool s) b = Some d \<longrightarrow>
        client_Id c \<noteq> client_Id d)"

section \<open>The pools as they grow\<close>

text \<open>\<open>grown s0 t\<close>: the state \<open>t\<close> is in order, and every client that was pooled in \<open>s0\<close> is still
  the one pooled for its address.\<close>

definition grown :: "'w sys \<Rightarrow> 'w sys \<Rightarrow> bool" where
  "grown s0 t \<longleftrightarrow> sysInv t \<and> clients (coordPool s0) \<subseteq>\<^sub>m clients (coordPool t) \<and>
     clients (proxyPool s0) \<subseteq>\<^sub>m clients (proxyPool t)"

lemma offWorld_grown: "offWorld (grown s0)"
  by (simp add: offWorld_def grown_def sysInv_def)

lemma getClient_fresh_disjoint:
  assumes "getClient p n a = (c, p', n')" and "poolInv n q"
    and "\<forall>a b c d. clients p a = Some c \<longrightarrow> clients q b = Some d \<longrightarrow> client_Id c \<noteq> client_Id d"
  shows "\<forall>a b c d. clients p' a = Some c \<longrightarrow> clients q b = Some d \<longrightarrow> client_Id c \<noteq> client_Id d"
  using assms by (auto simp: getClient_def Let_def poolInv_def split: option.splits if_splits) fastforce

lemma grown_coord [preserves_intros]: "preserves (grown s0) (coordinatorClientPool_getClient a)"
  for s0 :: "'w sys"
  unfolding preserves_def
proof (intro allI impI)
  fix s :: "'w sys" assume g: "grown s0 s"
  obtain c p n where gc: "getClient (coordPool s) (nextClient s) a = (c, p, n)" by (metis prod_cases3)
  from g have inv: "poolInv (nextClient s) (coordPool s)" "poolInv (nextClient s) (proxyPool s)"
    by (auto simp: grown_def sysInv_def)
  from g have dis: "\<forall>a b c d. clients (coordPool s) a = Some c \<longrightarrow> clients (proxyPool s) b = Some d \<longrightarrow>
      client_Id c \<noteq> client_Id d"
    by (simp add: grown_def sysInv_def)
  from g gc show "grown s0 (snd (coordinatorClientPool_getClient a s))"
    using getClient_spec [OF gc] getClient_inv [OF gc inv(1)] poolInv_mono [OF inv(2), of n]
      getClient_fresh_disjoint [OF gc inv(2) dis] map_le_trans [of _ "clients (coordPool s)"]
    unfolding coordinatorClientPool_getClient_def grown_def sysInv_def by simp
qed

lemma grown_proxy [preserves_intros]: "preserves (grown s0) (serverProxyClientPool_getClient a)"
  for s0 :: "'w sys"
  unfolding preserves_def
proof (intro allI impI)
  fix s :: "'w sys" assume g: "grown s0 s"
  obtain c p n where gc: "getClient (proxyPool s) (nextClient s) a = (c, p, n)" by (metis prod_cases3)
  from g have inv: "poolInv (nextClient s) (proxyPool s)" "poolInv (nextClient s) (coordPool s)"
    by (auto simp: grown_def sysInv_def)
  from g have dis: "\<forall>a b c d. clients (proxyPool s) a = Some c \<longrightarrow> clients (coordPool s) b = Some d \<longrightarrow>
      client_Id c \<noteq> client_Id d"
    unfolding grown_def sysInv_def by metis
  from g gc show "grown s0 (snd (serverProxyClientPool_getClient a s))"
    using getClient_spec [OF gc] getClient_inv [OF gc inv(1)] poolInv_mono [OF inv(2), of n]
      getClient_fresh_disjoint [OF gc inv(2) dis] map_le_trans [of _ "clients (proxyPool s)"]
    unfolding serverProxyClientPool_getClient_def grown_def sysInv_def by simp metis
qed

section \<open>Which commands are sent\<close>

lemma emits_coord_setBrokerAddress [emits_intros]:
  assumes "\<And>a r. A (EvRedis a [''CONFIG'', ''SET'', ''brokers'', b] r)"
  shows "emits (coordinatorClientPool_setBrokerAddress env c b) A"
  unfolding coordinatorClientPool_setBrokerAddress_def coordinatorClient_setBrokerAddress_def
  by (intro emits_intros coord.emits_obtain assms)

lemma emits_proxy_getEpoch [emits_intros]:
  assumes "\<And>a r. A (EvRedis a [''UMCTL'', ''GETEPOCH''] r)"
  shows "emits (serverProxyClientPool_getEpoch env c) A"
  unfolding serverProxyClientPool_getEpoch_def serverProxyClient_getEpoch_def
  by (intro emits_intros prox.emits_obtain assms)

section \<open>What the replies mean\<close>

text \<open>A reply to \<open>CONFIG SET brokers\<close> is a success when neither the transport nor the command
  has an error. An epoch is what the server sent, and 0 when the transport failed.\<close>

definition readReply :: "goerr option \<times> redisCmd \<Rightarrow> goerr + unit \<Rightarrow> bool" where
  "readReply r y \<longleftrightarrow> y = (case fst r of Some e \<Rightarrow> Inl e | None \<Rightarrow>
     (case cmd_Err (snd r) of Some e \<Rightarrow> Inl e | None \<Rightarrow> Inr ()))"

definition proxyEpoch :: "goerr option \<times> redisCmd \<Rightarrow> i64" where
  "proxyEpoch r = (case fst r of Some e \<Rightarrow> 0 | None \<Rightarrow> cmd_Int (snd r))"

abbreviation announceArgs :: "string \<Rightarrow> string list" where
  "announceArgs m \<equiv> [''CONFIG'', ''SET'', ''brokers'', m]"

abbreviation epochArgs :: "string list" where
  "epochArgs \<equiv> [''UMCTL'', ''GETEPOCH'']"

lemma grown_refl: "grown s s \<longleftrightarrow> sysInv s"
  by (simp add: grown_def)

text \<open>Obtaining a client makes no call, keeps the invariant, and gives a client for the address.\<close>

lemma coord_obtain:
  assumes "sysInv s"
  obtains c t where "coordinatorClientPool_getClient a s = (Ok c, t)" "sysInv t" "history t = history s" "client_Addr c = a"
proof -
  obtain c t where r: "coordinatorClientPool_getClient a s = (Ok c, t)" using coord.obtain_runs by blast
  moreover from preservesD [OF grown_coord [of s a] _ r] assms have "sysInv t"
    by (simp add: grown_refl) (simp add: grown_def)
  moreover from assms have "poolInv (nextClient s) (coordPool s)" by (simp add: sysInv_def)
  ultimately show thesis using that coord.obtain_silent [OF r] coord.obtain_inv [OF r] by blast
qed

lemma prox_obtain:
  assumes "sysInv s"
  obtains c t where "serverProxyClientPool_getClient a s = (Ok c, t)" "sysInv t" "history t = history s" "client_Addr c = a"
proof -
  obtain c t where r: "serverProxyClientPool_getClient a s = (Ok c, t)" using prox.obtain_runs by blast
  moreover from preservesD [OF grown_proxy [of s a] _ r] assms have "sysInv t"
    by (simp add: grown_refl) (simp add: grown_def)
  moreover from assms have "poolInv (nextClient s) (proxyPool s)" by (simp add: sysInv_def)
  ultimately show thesis using that prox.obtain_silent [OF r] prox.obtain_inv [OF r] by blast
qed

lemma sysInv_off_world: "sysInv (s\<lparr>world := w, history := h\<rparr>) = sysInv s"
  by (simp add: sysInv_def)

interpretation told: one_call "\<lambda>a. coordinatorClientPool_setBrokerAddress env a m"
  "\<lambda>a. EvRedis a (announceArgs m)" readReply sysInv for env m
proof
  fix s :: "'a sys" and a assume "sysInv s"
  then obtain c t where ct: "coordinatorClientPool_getClient a s = (Ok c, t)" "sysInv t" "history t = history s" "client_Addr c = a"
    by (rule coord_obtain)
  obtain r w where r: "Redis_Process env a (announceArgs m) (world t) = (r, w)" by fastforce
  obtain err cmd where ec: "r = (err, cmd)" by fastforce
  let ?u = "t\<lparr>world := w, history := EvRedis a (announceArgs m) r # history t\<rparr>"
  let ?y = "case err of Some e \<Rightarrow> Inl e | None \<Rightarrow> (case cmd_Err cmd of Some e \<Rightarrow> Inl e | None \<Rightarrow> Inr ())"
  have "tryM (coordinatorClientPool_setBrokerAddress env a m) s = (Ok ?y, ?u)"
    using ct r ec by (simp add: coordinatorClientPool_setBrokerAddress_def coordinatorClient_setBrokerAddress_def
      redisProcess_def call_def bindM_def tryM_def throwM_def returnM_def split: option.splits)
  moreover have "readReply r ?y" by (simp add: readReply_def ec split: option.splits)
  ultimately show "\<exists>y t r. tryM (coordinatorClientPool_setBrokerAddress env a m) s = (Ok y, t) \<and> sysInv t \<and>
      history t = EvRedis a (announceArgs m) r # history s \<and> readReply r y"
    using ct(2,3) sysInv_off_world by fastforce
qed

interpretation pep: one_call "serverProxyClientPool_getEpoch env" "\<lambda>a. EvRedis a epochArgs"
  "\<lambda>r y. \<exists>err. y = Inr (proxyEpoch r, err)" sysInv for env
proof
  fix s :: "'a sys" and a assume "sysInv s"
  then obtain c t where ct: "serverProxyClientPool_getClient a s = (Ok c, t)" "sysInv t" "history t = history s" "client_Addr c = a"
    by (rule prox_obtain)
  obtain r w where r: "Redis_Process env a epochArgs (world t) = (r, w)" by fastforce
  obtain err cmd where ec: "r = (err, cmd)" by fastforce
  let ?u = "t\<lparr>world := w, history := EvRedis a epochArgs r # history t\<rparr>"
  have "\<exists>e. tryM (serverProxyClientPool_getEpoch env a) s = (Ok (Inr (proxyEpoch r, e)), ?u)"
    using ct r ec by (simp add: serverProxyClientPool_getEpoch_def serverProxyClient_getEpoch_def proxyEpoch_def
      redisProcess_def call_def bindM_def tryM_def returnM_def split: option.splits)
  then show "\<exists>y t r. tryM (serverProxyClientPool_getEpoch env a) s = (Ok y, t) \<and> sysInv t \<and>
      history t = EvRedis a epochArgs r # history s \<and> (\<exists>err. y = Inr (proxyEpoch r, err))"
    using ct(2,3) sysInv_off_world by fastforce
qed

end
