(* ===== verification/CoordinatorController.thy ===== *)
theory CoordinatorController
  imports Coordinator RedisClients GetOrCreate
begin

text \<open>
  \<open>pkg/controller/undermoon/coordinator_controller.go\<close>: creation of the coordinator workload,
  its readiness, and telling every coordinator which broker is the master.
\<close>

section \<open>Creation\<close>

definition getOrCreateCoordinatorService :: "'w env \<Rightarrow> undermoon \<Rightarrow> ('w, service) op" where
  "getOrCreateCoordinatorService env cr =
     bindM (liftM (SetControllerReference_Service env cr (createCoordinatorService cr))) (\<lambda>service.
     bindM (tryM (getService env (svcKey service))) (\<lambda>r.
       case r of
         Inl e \<Rightarrow> if IsNotFound e then createService env service else throwM e
       | Inr found \<Rightarrow> returnM found))"

definition getOrCreateCoordinatorStatefulSet :: "'w env \<Rightarrow> undermoon \<Rightarrow> ('w, statefulSet) op" where
  "getOrCreateCoordinatorStatefulSet env cr =
     bindM (liftM (SetControllerReference_StatefulSet env cr (createCoordinatorStatefulSet cr))) (\<lambda>coordinator.
     bindM (tryM (getStatefulSet env (ssKey coordinator))) (\<lambda>r.
       case r of
         Inl e \<Rightarrow> if IsNotFound e then createStatefulSet env coordinator else throwM e
       | Inr found \<Rightarrow> returnM found))"

definition createCoordinator :: "'w env \<Rightarrow> undermoon \<Rightarrow> ('w, statefulSet \<times> service) op" where
  "createCoordinator env cr =
     bindM (createServiceGuard (getOrCreateCoordinatorService env cr)) (\<lambda>coordinatorService.
     bindM (createStatefulSetGuard (getOrCreateCoordinatorStatefulSet env cr)) (\<lambda>coordinatorStatefulSet.
     returnM (coordinatorStatefulSet, coordinatorService)))"

section \<open>Readiness\<close>

definition coordinator_getServiceEndpointsNum :: "'w env \<Rightarrow> service \<Rightarrow> ('w, int) op" where
  "coordinator_getServiceEndpointsNum env coordinatorService =
     bindM (getEndpoints env (meta_Name (svc_Meta coordinatorService)) (meta_Namespace (svc_Meta coordinatorService)))
       (\<lambda>eps. returnM (len eps))"

definition coordinatorReady :: "'w env \<Rightarrow> statefulSet \<Rightarrow> service \<Rightarrow> ('w, bool) op" where
  "coordinatorReady env coordinatorStatefulSet coordinatorService =
     bindM (coordinator_getServiceEndpointsNum env coordinatorService) (\<lambda>n.
       returnM (sint (ss_StatusReadyReplicas coordinatorStatefulSet) \<ge> 1 \<and> n \<ge> 1))"

definition coordiantorAllReady :: "'w env \<Rightarrow> statefulSet \<Rightarrow> service \<Rightarrow> ('w, bool) op" where
  "coordiantorAllReady env coordinatorStatefulSet coordinatorService =
     bindM (coordinator_getServiceEndpointsNum env coordinatorService) (\<lambda>n.
       returnM (sint (ss_StatusReadyReplicas coordinatorStatefulSet) \<ge> sint coordinatorNum
         \<and> n \<ge> sint (int_of_i32 coordinatorNum)))"

section \<open>Announcing the master broker\<close>

text \<open>The loop assigns the variable \<open>err\<close> in every iteration and the function returns it at the
  end: only the last coordinator's error is reported.\<close>

definition configSetBroker :: "'w env \<Rightarrow> undermoon \<Rightarrow> service \<Rightarrow> string \<Rightarrow> ('w, unit) op" where
  "configSetBroker env cr coordinatorService masterBrokerAddress =
     bindM (getEndpoints env (meta_Name (svc_Meta coordinatorService)) (meta_Namespace (svc_Meta coordinatorService))) (\<lambda>eps.
     bindM (foldM (\<lambda>err endpoint.
       let address = genCoordinatorAddressFromName (ep_Hostname endpoint) cr in
       bindM (tryM (coordinatorClientPool_setBrokerAddress env address masterBrokerAddress)) (\<lambda>r.
         returnM (case r of Inl e \<Rightarrow> Some e | Inr _ \<Rightarrow> None))) None eps) (\<lambda>err.
     case err of Some e \<Rightarrow> throwM e | None \<Rightarrow> returnM ()))"

section \<open>The creation scheme\<close>

interpretation cd_svc: get_or_create "getOrCreateCoordinatorService env cr"
  "SetControllerReference_Service env cr (createCoordinatorService cr)"
  "\<lambda>x. getService env (svcKey x)" "createService env"
  "\<lambda>x. EvGetService (svcKey x)" EvCreateService for env cr
  by unfold_locales (auto simp: getOrCreateCoordinatorService_def getService_def createService_def)

interpretation cd_ss: get_or_create "getOrCreateCoordinatorStatefulSet env cr"
  "SetControllerReference_StatefulSet env cr (createCoordinatorStatefulSet cr)"
  "\<lambda>x. getStatefulSet env (ssKey x)" "createStatefulSet env"
  "\<lambda>x. EvGetStatefulSet (ssKey x)" EvCreateStatefulSet for env cr
  by unfold_locales (auto simp: getOrCreateCoordinatorStatefulSet_def getStatefulSet_def createStatefulSet_def)

section \<open>Which calls the operations make\<close>

lemma uses_createCoordinator [uses]: "usesOnly (createCoordinator env cr) {KLookup, KCreate}"
  unfolding createCoordinator_def
  by (intro emits_intros cd_svc.emits_run cd_ss.emits_run; simp)

lemma uses_coordinatorReady [uses]: "usesOnly (coordinatorReady env ss svc) {KEndpoints}"
  unfolding coordinatorReady_def coordinator_getServiceEndpointsNum_def by (intro emits_intros; simp)

lemma uses_configSetBroker [uses]: "usesOnly (configSetBroker env cr svc m) {KEndpoints, KRedis}"
  unfolding configSetBroker_def Let_def by (intro emits_intros; simp)

end
