(* ===== verification/StorageController.thy ===== *)
theory StorageController
  imports BrokerClient RedisClients GetOrCreate
begin

text \<open>
  \<open>pkg/controller/undermoon/storage_controller.go\<close>: creation and scaling of the storage
  workload, its readiness, the server proxies behind the service and their highest epoch.
\<close>

section \<open>Creation and scaling\<close>

definition getOrCreateStorageService :: "'w env \<Rightarrow> undermoon \<Rightarrow> service \<Rightarrow> ('w, service) op" where
  "getOrCreateStorageService env cr service0 =
     bindM (liftM (SetControllerReference_Service env cr service0)) (\<lambda>service.
     bindM (tryM (getService env (svcKey service))) (\<lambda>r.
       case r of
         Inl e \<Rightarrow> if IsNotFound e then createService env service else throwM e
       | Inr found \<Rightarrow> returnM found))"

definition getOrCreateStorageStatefulSet :: "'w env \<Rightarrow> undermoon \<Rightarrow> ('w, statefulSet) op" where
  "getOrCreateStorageStatefulSet env cr =
     bindM (liftM (SetControllerReference_StatefulSet env cr (createStorageStatefulSet cr))) (\<lambda>storage.
     bindM (tryM (getStatefulSet env (ssKey storage))) (\<lambda>r.
       case r of
         Inl e \<Rightarrow> if IsNotFound e then createStatefulSet env storage else throwM e
       | Inr found \<Rightarrow> returnM found))"

definition updateStorageStatefulSet :: "'w env \<Rightarrow> undermoon \<Rightarrow> statefulSet \<Rightarrow> ('w, statefulSet) op" where
  "updateStorageStatefulSet env cr storage =
     (let replicaNum = i32_of_int (int_of_u32 (ChunkNumber (Spec cr)) * halfChunkNodeNumber);
          storage = storage\<lparr>ss_Replicas := Some replicaNum\<rparr>
      in bindM (tryM (updateStatefulSet env storage)) (\<lambda>r.
        case r of
          Inl e \<Rightarrow> if IsConflict e then throwM errRetryReconciliation else throwM e
        | Inr storage' \<Rightarrow> returnM storage'))"

text \<open>The error of the first guard, for the public service, is overwritten by the second
  assignment to \<open>err\<close> before it is read.\<close>

definition createStorage :: "'w env \<Rightarrow> undermoon \<Rightarrow> ('w, statefulSet \<times> service) op" where
  "createStorage env cr =
     bindM (tryM (createServiceGuard (getOrCreateStorageService env cr (createStoragePublicService cr)))) (\<lambda>_.
     bindM (createServiceGuard (getOrCreateStorageService env cr (createStorageService cr))) (\<lambda>storageService.
     bindM (createStatefulSetGuard (getOrCreateStorageStatefulSet env cr)) (\<lambda>storage.
     case ss_Replicas storage of
       None \<Rightarrow> panicM ''invalid memory address or nil pointer dereference''
     | Some replicas \<Rightarrow>
         if sint (i32_of_u32 (ChunkNumber (Spec cr)) * 2) > sint replicas
         then bindM (updateStorageStatefulSet env cr storage) (\<lambda>storage'. returnM (storage', storageService))
         else returnM (storage, storageService))))"

definition scaleDownStorageStatefulSet :: "'w env \<Rightarrow> undermoon \<Rightarrow> statefulSet \<Rightarrow> clusterInfo \<Rightarrow> ('w, statefulSet) op" where
  "scaleDownStorageStatefulSet env cr storage info =
     (let expectedNodeNumber = int_of_u32 (ChunkNumber (Spec cr)) * chunkNodeNumber in
      if sint (NodeNumberWithSlots info) > sint expectedNodeNumber then throwM errRetryReconciliation
      else if sint (NodeNumberWithSlots info) < sint expectedNodeNumber then throwM errRetryReconciliation
      else updateStorageStatefulSet env cr storage)"

section \<open>Readiness\<close>

definition storage_getServiceEndpointsNum :: "'w env \<Rightarrow> service \<Rightarrow> ('w, int) op" where
  "storage_getServiceEndpointsNum env storageService =
     bindM (getEndpoints env (meta_Name (svc_Meta storageService)) (meta_Namespace (svc_Meta storageService)))
       (\<lambda>eps. returnM (len eps))"

definition storageReady :: "'w env \<Rightarrow> service \<Rightarrow> undermoon \<Rightarrow> ('w, bool) op" where
  "storageReady env storageService cr =
     bindM (storage_getServiceEndpointsNum env storageService) (\<lambda>n.
       let serverProxyNum = i32_of_int (int_of_u32 (ChunkNumber (Spec cr)) * halfChunkNodeNumber)
       in returnM (n \<ge> sint (int_of_i32 (serverProxyNum - 1))))"

definition storageAllReady :: "'w env \<Rightarrow> service \<Rightarrow> undermoon \<Rightarrow> ('w, bool) op" where
  "storageAllReady env storageService cr =
     bindM (storage_getServiceEndpointsNum env storageService) (\<lambda>n.
       let serverProxyNum = i32_of_int (int_of_u32 (ChunkNumber (Spec cr)) * halfChunkNodeNumber)
       in returnM (n \<ge> sint (int_of_i32 serverProxyNum)))"

definition storageAllReadyAndStable :: "'w env \<Rightarrow> service \<Rightarrow> statefulSet \<Rightarrow> undermoon \<Rightarrow> ('w, bool) op" where
  "storageAllReadyAndStable env storageService storageStatefulSet cr =
     bindM (storageAllReady env storageService cr) (\<lambda>ready.
       if \<not> ready then returnM False
       else case ss_Replicas storageStatefulSet of
         None \<Rightarrow> panicM ''invalid memory address or nil pointer dereference''
       | Some statefulSetPodNum \<Rightarrow>
           if ss_StatusCurrentReplicas storageStatefulSet \<noteq> statefulSetPodNum then returnM False
           else if ss_StatusReplicas storageStatefulSet \<noteq> statefulSetPodNum then returnM False
           else returnM True)"

section \<open>Server proxies\<close>

text \<open>A host name whose last part is not a number is logged, and the proxy is still registered
  with the number that \<open>ParseInt\<close> gave.\<close>

definition storage_getServerProxies :: "'w env \<Rightarrow> service \<Rightarrow> undermoon \<Rightarrow> ('w, serverProxyMeta list) op" where
  "storage_getServerProxies env storageService cr =
     bindM (getEndpoints env (meta_Name (svc_Meta storageService)) (meta_Namespace (svc_Meta storageService))) (\<lambda>eps.
       foldM (\<lambda>proxies endpoint.
         let hostname = ep_Hostname endpoint in
         case slice_from hostname (LastIndex hostname CHR ''-'' + 1) of
           None \<Rightarrow> panicM ''slice bounds out of range''
         | Some indexStr \<Rightarrow>
             (let (index, err) = ParseInt indexStr;
                  address = genStorageFQDNFromName hostname cr;
                  proxy = newServerProxyMeta address address (Port (Spec cr)) index
              in returnM (proxies @ [proxy]))) [] eps)"

definition getMaxEpoch :: "'w env \<Rightarrow> service \<Rightarrow> undermoon \<Rightarrow> ('w, i64) op" where
  "getMaxEpoch env storageService cr =
     bindM (getEndpoints env (meta_Name (svc_Meta storageService)) (meta_Namespace (svc_Meta storageService))) (\<lambda>eps.
       let sets = set (genStorageStatefulSetAddrs cr) in
       foldM (\<lambda>maxEpoch endpoint.
         let address = genStorageAddressFromName (ep_Hostname endpoint) cr in
         if address \<notin> sets then returnM maxEpoch
         else bindM (serverProxyClientPool_getEpoch env address) (\<lambda>(epoch, err).
           returnM (if sint epoch > sint maxEpoch then epoch else maxEpoch))) 0 eps)"

section \<open>The creation scheme\<close>

interpretation stg_svc: get_or_create "getOrCreateStorageService env cr svc"
  "SetControllerReference_Service env cr svc"
  "\<lambda>x. getService env (svcKey x)" "createService env"
  "\<lambda>x. EvGetService (svcKey x)" EvCreateService for env cr svc
  by unfold_locales (auto simp: getOrCreateStorageService_def getService_def createService_def)

interpretation stg_ss: get_or_create "getOrCreateStorageStatefulSet env cr"
  "SetControllerReference_StatefulSet env cr (createStorageStatefulSet cr)"
  "\<lambda>x. getStatefulSet env (ssKey x)" "createStatefulSet env"
  "\<lambda>x. EvGetStatefulSet (ssKey x)" EvCreateStatefulSet for env cr
  by unfold_locales (auto simp: getOrCreateStorageStatefulSet_def getStatefulSet_def createStatefulSet_def)

section \<open>Which calls the operations make\<close>

lemma uses_updateStorageStatefulSet [uses]: "usesOnly (updateStorageStatefulSet env cr ss) {KUpdateSS}"
  unfolding updateStorageStatefulSet_def Let_def by (intro emits_intros; simp)

lemma uses_createStorage [uses]: "usesOnly (createStorage env cr) {KLookup, KCreate, KUpdateSS}"
  unfolding createStorage_def
  by (intro emits_intros stg_svc.emits_run stg_ss.emits_run
      usesOnly_mono [OF uses_updateStorageStatefulSet]; simp)

lemma uses_scaleDownStorageStatefulSet [uses]:
  "usesOnly (scaleDownStorageStatefulSet env cr ss info) {KUpdateSS}"
  unfolding scaleDownStorageStatefulSet_def Let_def by (intro emits_intros uses)

lemma uses_storageAllReady [uses]: "usesOnly (storageAllReady env svc cr) {KEndpoints}"
  unfolding storageAllReady_def storage_getServiceEndpointsNum_def Let_def by (intro emits_intros; simp)

lemma uses_storageAllReadyAndStable [uses]: "usesOnly (storageAllReadyAndStable env svc ss cr) {KEndpoints}"
  unfolding storageAllReadyAndStable_def by (intro emits_intros uses)

lemma uses_storage_getServerProxies [uses]: "usesOnly (storage_getServerProxies env svc cr) {KEndpoints}"
  unfolding storage_getServerProxies_def Let_def by (intro emits_intros; simp)

lemma uses_getMaxEpoch [uses]: "usesOnly (getMaxEpoch env svc cr) {KEndpoints, KRedis}"
  unfolding getMaxEpoch_def Let_def by (intro emits_intros; simp)

end
