(* ===== verification/MetaController.thy ===== *)
theory MetaController
  imports BrokerClient
begin

text \<open>
  \<open>pkg/controller/undermoon/meta_controller.go\<close>: keeping the metadata in the master broker in
  line with the resource: the replication among brokers, the registry of server proxies, the
  cluster and its size, the broker's epoch.
\<close>

section \<open>Operations\<close>

definition meta_setBrokerReplicas :: "'w env \<Rightarrow> string \<Rightarrow> string list \<Rightarrow> ('w, unit) op" where
  "meta_setBrokerReplicas env masterBrokerAddress replicaAddresses =
     bindM (brokerClient_setBrokerReplicas env masterBrokerAddress replicaAddresses) (\<lambda>_.
     forM replicaAddresses (\<lambda>replicaAddress. brokerClient_setBrokerReplicas env replicaAddress []))"

definition registerServerProxies :: "'w env \<Rightarrow> string \<Rightarrow> serverProxyMeta list \<Rightarrow> ('w, unit) op" where
  "registerServerProxies env masterBrokerAddress proxies =
     forM proxies (\<lambda>proxy. bindM (tryM (registerServerProxy env masterBrokerAddress proxy)) (\<lambda>_. returnM ()))"

definition keepSet :: "serverProxyMeta list \<Rightarrow> undermoon \<Rightarrow> string set" where
  "keepSet proxies cr = set (genStorageStatefulSetAddrs cr) \<union> set (map ProxyAddress proxies)"

definition deregisterServerProxies :: "'w env \<Rightarrow> string \<Rightarrow> serverProxyMeta list \<Rightarrow> undermoon \<Rightarrow> ('w, unit) op" where
  "deregisterServerProxies env masterBrokerAddress proxies cr =
     bindM (brokerClient_getServerProxies env masterBrokerAddress) (\<lambda>existingProxies.
     let deleteList = filter (\<lambda>existingAddress. existingAddress \<notin> keepSet proxies cr) existingProxies in
     forM deleteList (\<lambda>deleteAddress.
       bindM (tryM (deregisterServerProxy env masterBrokerAddress deleteAddress)) (\<lambda>_. returnM ())))"

definition reconcileServerProxyRegistry :: "'w env \<Rightarrow> string \<Rightarrow> serverProxyMeta list \<Rightarrow> undermoon \<Rightarrow> ('w, unit) op" where
  "reconcileServerProxyRegistry env masterBrokerAddress proxies cr =
     bindM (registerServerProxies env masterBrokerAddress proxies) (\<lambda>_.
     deregisterServerProxies env masterBrokerAddress proxies cr)"

definition meta_createCluster :: "'w env \<Rightarrow> string \<Rightarrow> undermoon \<Rightarrow> ('w, unit) op" where
  "meta_createCluster env masterBrokerAddress cr =
     bindM (clusterExists env masterBrokerAddress (ClusterName (Spec cr))) (\<lambda>exists.
       if exists then returnM ()
       else brokerClient_createCluster env masterBrokerAddress (ClusterName (Spec cr))
         (int_of_u32 (ChunkNumber (Spec cr))))"

definition meta_getClusterInfo :: "'w env \<Rightarrow> string \<Rightarrow> undermoon \<Rightarrow> ('w, clusterInfo) op" where
  "meta_getClusterInfo env masterBrokerAddress cr =
     brokerClient_getClusterInfo env masterBrokerAddress (ClusterName (Spec cr))"

definition reconcileMeta :: "'w env \<Rightarrow> string \<Rightarrow> string list \<Rightarrow> serverProxyMeta list \<Rightarrow> undermoon \<Rightarrow> bool \<Rightarrow> ('w, clusterInfo) op" where
  "reconcileMeta env masterBrokerAddress replicaAddresses proxies cr storageAllReady =
     bindM (meta_setBrokerReplicas env masterBrokerAddress replicaAddresses) (\<lambda>_.
     bindM (reconcileServerProxyRegistry env masterBrokerAddress proxies cr) (\<lambda>_.
     if \<not> storageAllReady then throwM errRetryReconciliation
     else
       bindM (meta_createCluster env masterBrokerAddress cr) (\<lambda>_.
       meta_getClusterInfo env masterBrokerAddress cr)))"

definition changeNodeNumber :: "'w env \<Rightarrow> string \<Rightarrow> undermoon \<Rightarrow> ('w, unit) op" where
  "changeNodeNumber env masterBrokerAddress cr =
     (let chunkNumber = int_of_u32 (ChunkNumber (Spec cr));
          clusterName = ClusterName (Spec cr)
      in bindM (tryM (scaleNodes env masterBrokerAddress clusterName chunkNumber)) (\<lambda>r.
        let retry = (r = Inl errFreeNodeFound);
            tail = bindM (tryM (removeFreeNodes env masterBrokerAddress clusterName)) (\<lambda>r2.
              case r2 of
                Inl e \<Rightarrow> if e = errMigrationRunning then throwM errRetryReconciliation else throwM e
              | Inr _ \<Rightarrow> if retry then throwM errRetryReconciliation else returnM ())
        in case r of
             Inl e \<Rightarrow>
               if e \<noteq> errFreeNodeFound
               then (if e = errMigrationRunning then throwM errRetryReconciliation else throwM e)
               else tail
           | Inr _ \<Rightarrow> tail))"

definition changeMeta :: "'w env \<Rightarrow> string \<Rightarrow> undermoon \<Rightarrow> clusterInfo \<Rightarrow> ('w, unit) op" where
  "changeMeta env masterBrokerAddress cr info =
     (if IsMigrating info then throwM errRetryReconciliation
      else bindM (tryM (changeNodeNumber env masterBrokerAddress cr)) (\<lambda>r.
        case r of
          Inl e \<Rightarrow> if e = errMigrationRunning then throwM errRetryReconciliation else throwM e
        | Inr _ \<Rightarrow> returnM ()))"

definition fixBrokerEpoch :: "'w env \<Rightarrow> string \<Rightarrow> i64 \<Rightarrow> ('w, unit) op" where
  "fixBrokerEpoch env masterBrokerAddress maxEpochFromServerProxy =
     bindM (brokerClient_getEpoch env masterBrokerAddress) (\<lambda>epoch.
       if sint epoch \<ge> sint maxEpochFromServerProxy then returnM ()
       else fixEpoch env masterBrokerAddress)"

section \<open>Which calls the operations make\<close>

lemma uses_reconcileServerProxyRegistry [uses]: "usesOnly (reconcileServerProxyRegistry env m ps cr) {KHttp}"
  unfolding reconcileServerProxyRegistry_def registerServerProxies_def deregisterServerProxies_def Let_def
  by (intro emits_intros uses)

lemma uses_reconcileMeta [uses]: "usesOnly (reconcileMeta env m rs ps cr b) {KHttp}"
  unfolding reconcileMeta_def meta_setBrokerReplicas_def meta_createCluster_def meta_getClusterInfo_def
  by (intro emits_intros uses)

lemma uses_changeNodeNumber [uses]: "usesOnly (changeNodeNumber env m cr) {KHttp}"
  unfolding changeNodeNumber_def Let_def by (intro emits_intros uses)

lemma uses_changeMeta [uses]: "usesOnly (changeMeta env m cr info) {KHttp}"
  unfolding changeMeta_def by (intro emits_intros uses)

lemma uses_fixBrokerEpoch [uses]: "usesOnly (fixBrokerEpoch env m e) {KHttp}"
  unfolding fixBrokerEpoch_def by (intro emits_intros uses)

end
