(* ===== verification/Reconciler.thy ===== *)
theory Reconciler
  imports BrokerController CoordinatorController StorageController MetaController
begin

text \<open>
  \<open>pkg/controller/undermoon/undermoon_controller.go\<close>: one reconciliation of a resource, the
  composition of the four controllers.
\<close>

section \<open>Operations\<close>

record umResource =
  brokerStatefulSet :: statefulSet
  coordinatorStatefulSet :: statefulSet
  storageStatefulSet :: statefulSet
  brokerService :: service
  coordinatorService :: service
  storageService :: service

definition createResources :: "'w env \<Rightarrow> undermoon \<Rightarrow> ('w, umResource) op" where
  "createResources env instance =
     bindM (createBroker env instance) (\<lambda>(bkSS, bkSvc).
     bindM (createCoordinator env instance) (\<lambda>(cdSS, cdSvc).
     bindM (createStorage env instance) (\<lambda>(stSS, stSvc).
     returnM \<lparr>brokerStatefulSet = bkSS, coordinatorStatefulSet = cdSS, storageStatefulSet = stSS,
       brokerService = bkSvc, coordinatorService = cdSvc, storageService = stSvc\<rparr>)))"

definition brokerAndCoordinatorReady :: "'w env \<Rightarrow> umResource \<Rightarrow> ('w, bool) op" where
  "brokerAndCoordinatorReady env resource =
     bindM (brokerReady env (brokerStatefulSet resource) (brokerService resource)) (\<lambda>ready.
       if \<not> ready then returnM False
       else bindM (coordinatorReady env (coordinatorStatefulSet resource) (coordinatorService resource)) (\<lambda>ready.
         if \<not> ready then returnM False else returnM True))"

abbreviation requeueAfter :: "int \<Rightarrow> reconcileResult" where
  "requeueAfter n \<equiv> \<lparr>Requeue = True, RequeueAfter = n * Second\<rparr>"

abbreviation doneResult :: reconcileResult where
  "doneResult \<equiv> \<lparr>Requeue = False, RequeueAfter = 0\<rparr>"

text \<open>\<open>if err == errRetryReconciliation { return requeue after 3 seconds }; return err\<close>\<close>

definition orRequeue :: "('w, 'a) op \<Rightarrow> ('a \<Rightarrow> ('w, reconcileResult) op) \<Rightarrow> ('w, reconcileResult) op" where
  "orRequeue m k = bindM (tryM m) (\<lambda>r.
     case r of
       Inl e \<Rightarrow> if e = errRetryReconciliation then returnM (requeueAfter 3) else throwM e
     | Inr x \<Rightarrow> k x)"

text \<open>The second half of a reconciliation, from the point where the size of the cluster may
  change.\<close>

definition reconcileScale :: "'w env \<Rightarrow> umResource \<Rightarrow> undermoon \<Rightarrow> string \<Rightarrow> string list \<Rightarrow> bool \<Rightarrow> clusterInfo \<Rightarrow> ('w, reconcileResult) op" where
  "reconcileScale env resource instance masterBrokerAddress replicaAddresses allReady info =
     bindM (storageAllReadyAndStable env (storageService resource) (storageStatefulSet resource) instance) (\<lambda>stable.
     if \<not> stable then returnM (requeueAfter 10)
     else
       orRequeue (changeMeta env masterBrokerAddress instance info) (\<lambda>_.
       orRequeue (reconcileMeta env masterBrokerAddress replicaAddresses [] instance allReady) (\<lambda>info.
       orRequeue (scaleDownStorageStatefulSet env instance (storageStatefulSet resource) info) (\<lambda>_.
       returnM doneResult))))"

definition Reconcile :: "'w env \<Rightarrow> reconcileRequest \<Rightarrow> ('w, reconcileResult) op" where
  "Reconcile env req =
     bindM (tryM (getUndermoon env (NamespacedName req))) (\<lambda>r.
     case r of
       Inl e \<Rightarrow> if IsNotFound e then returnM doneResult else throwM e
     | Inr instance \<Rightarrow>
         orRequeue (createResources env instance) (\<lambda>resource.
         bindM (brokerAndCoordinatorReady env resource) (\<lambda>ready.
         if \<not> ready then returnM (requeueAfter 3)
         else
           orRequeue (reconcileMaster env instance (brokerService resource)) (\<lambda>(instance, masterBrokerAddress, replicaAddresses).
           bindM (configSetBroker env instance (coordinatorService resource) masterBrokerAddress) (\<lambda>_.
           bindM (getMaxEpoch env (storageService resource) instance) (\<lambda>maxEpochFromServerProxy.
           bindM (fixBrokerEpoch env masterBrokerAddress maxEpochFromServerProxy) (\<lambda>_.
           bindM (storage_getServerProxies env (storageService resource) instance) (\<lambda>proxies.
           bindM (storageAllReady env (storageService resource) instance) (\<lambda>allReady.
           orRequeue (reconcileMeta env masterBrokerAddress replicaAddresses proxies instance allReady) (\<lambda>info.
           reconcileScale env resource instance masterBrokerAddress replicaAddresses allReady info))))))))))"

section \<open>Rules for the composition\<close>

lemma hvalid_orRequeue:
  assumes "hvalid H m R (\<lambda>e h. if e = Some errRetryReconciliation then Q (requeueAfter 3) h else E e h)"
    and "\<And>x. hvalid (R x) (k x) Q E"
  shows "hvalid H (orRequeue m k) Q E"
  unfolding orRequeue_def
proof (rule hvalid_bind)
  show "hvalid H (tryM m) (\<lambda>r h. case r of Inl e \<Rightarrow> (if e = errRetryReconciliation then Q (requeueAfter 3) h else E (Some e) h)
      | Inr x \<Rightarrow> R x h) E"
    by (rule hvalid_try, rule hvalid_post [OF assms(1)]) (auto split: option.splits if_splits)
qed (auto intro!: hrules assms(2) split: sum.splits)

lemma hvalid_orRequeue_inv:
  assumes "hvalid H m R (\<lambda>_. I)" and "\<And>x. hvalid (R x) (k x) (\<lambda>_. I) (\<lambda>_. I)"
  shows "hvalid H (orRequeue m k) (\<lambda>_. I) (\<lambda>_. I)"
  by (rule hvalid_orRequeue [OF hvalid_post [OF assms(1)] assms(2)]) auto

lemma emits_orRequeue [emits_intros]:
  "emits m A \<Longrightarrow> (\<And>x. emits (k x) A) \<Longrightarrow> emits (orRequeue m k) A"
  unfolding orRequeue_def by (intro emits_intros)

lemma uses_createResources [uses]: "usesOnly (createResources env cr) {KLookup, KCreate, KUpdateSS}"
  unfolding createResources_def
  by (intro emits_intros usesOnly_mono [OF uses_createBroker] usesOnly_mono [OF uses_createCoordinator]
      uses_createStorage; simp)

lemma uses_brokerAndCoordinatorReady [uses]: "usesOnly (brokerAndCoordinatorReady env resource) {KEndpoints}"
  unfolding brokerAndCoordinatorReady_def by (intro emits_intros uses)

end
