(* ===== verification/View.thy ===== *)
theory View
  imports Reconciler
begin

text \<open>
  What the operator knows in the current reconciliation, read off the history: which resource it was
  asked for and has read, which broker it has made the master, and which objects the API server has
  returned as the storage StatefulSet and the storage service of that resource. The safety conditions are
  stated over this view, so that they speak of the objects of the resource at hand and of its master
  broker, not of any that ever occurred.
\<close>

section \<open>The view\<close>

record view =
  view_Key :: namespacedName  \<comment> \<open>the name asked for\<close>
  view_Before :: "event list"  \<comment> \<open>the history when the resource was read\<close>
  view_Cr :: undermoon  \<comment> \<open>the resource as the API server returned it last\<close>
  view_Master :: "string option"  \<comment> \<open>the master broker written to its status\<close>
  view_Set :: "statefulSet option"  \<comment> \<open>its storage StatefulSet as returned last\<close>
  view_Svc :: "service option"  \<comment> \<open>its headless storage service as returned last\<close>

text \<open>The storage service and the storage StatefulSet of a resource, with their owner set.\<close>

definition ownedService :: "'w env \<Rightarrow> undermoon \<Rightarrow> (service \<Rightarrow> bool) \<Rightarrow> bool" where
  "ownedService env cr P = (case SetControllerReference_Service env cr (createStorageService cr) of
     Inl _ \<Rightarrow> False | Inr x \<Rightarrow> P x)"

definition ownedSet :: "'w env \<Rightarrow> undermoon \<Rightarrow> (statefulSet \<Rightarrow> bool) \<Rightarrow> bool" where
  "ownedSet env cr P = (case SetControllerReference_StatefulSet env cr (createStorageStatefulSet cr) of
     Inl _ \<Rightarrow> False | Inr x \<Rightarrow> P x)"

text \<open>What a call adds to it. A lookup counts when it asks for the name of the object, a creation when
  it sends the object itself; an update of the StatefulSet when it changes nothing but the replica count,
  an update of the resource when it changes nothing but the status.\<close>

fun see :: "'w env \<Rightarrow> event \<Rightarrow> view \<Rightarrow> view" where
  "see env (EvGetService k (Inr svc)) v =
     (if ownedService env (view_Cr v) (\<lambda>x. svcKey x = k) then v\<lparr>view_Svc := Some svc\<rparr> else v)"
| "see env (EvCreateService x (Inr svc)) v =
     (if ownedService env (view_Cr v) (\<lambda>y. y = x) then v\<lparr>view_Svc := Some svc\<rparr> else v)"
| "see env (EvGetStatefulSet k (Inr ss)) v =
     (if ownedSet env (view_Cr v) (\<lambda>x. ssKey x = k) then v\<lparr>view_Set := Some ss\<rparr> else v)"
| "see env (EvCreateStatefulSet x (Inr ss)) v =
     (if ownedSet env (view_Cr v) (\<lambda>y. y = x) then v\<lparr>view_Set := Some ss\<rparr> else v)"
| "see env (EvUpdateStatefulSet x (Inr ss)) v = (case view_Set v of
       Some old \<Rightarrow> if x = old\<lparr>ss_Replicas := ss_Replicas x\<rparr> then v\<lparr>view_Set := Some ss\<rparr> else v
     | None \<Rightarrow> v)"
| "see env (EvUpdateStatus x (Inr cr)) v =
     (if x = (view_Cr v)\<lparr>Status := Status x\<rparr>
      then v\<lparr>view_Cr := cr, view_Master := Some (MasterBrokerAddress (Status x))\<rparr> else v)"
| "see env _ v = v"

text \<open>Reading the resource starts a new view; there is none when that failed.\<close>

fun viewOf :: "'w env \<Rightarrow> event list \<Rightarrow> view option" where
  "viewOf env [] = None"
| "viewOf env (e # h) = (case e of
     EvGetUndermoon k r \<Rightarrow> (case r of
         Inl _ \<Rightarrow> None
       | Inr cr \<Rightarrow> Some \<lparr>view_Key = k, view_Before = h, view_Cr = cr, view_Master = None, view_Set = None, view_Svc = None\<rparr>)
   | _ \<Rightarrow> map_option (see env e) (viewOf env h))"

text \<open>Messages and endpoint lookups do not change the view.\<close>

lemma viewOf_message: "kind e \<in> {KEndpoints, KHttp, KRedis} \<Longrightarrow> viewOf env (e # h) = viewOf env h"
  by (cases e) (auto simp: option.map_ident_strong)

lemma see_frame:
  "view_Key (see env e v) = view_Key v \<and> view_Before (see env e v) = view_Before v \<and>
   (kind e \<noteq> KStatus \<longrightarrow> view_Cr (see env e v) = view_Cr v \<and> view_Master (see env e v) = view_Master v)"
  by (cases "(env, e, v)" rule: see.cases) (auto split: option.splits)

lemma viewOf_Before: "viewOf env h = Some v \<Longrightarrow> length (view_Before v) < length h"
proof (induction h arbitrary: v)
  case (Cons e h)
  show ?case
  proof (cases "kind e = KReadCR")
    case True
    with Cons.prems show ?thesis by (cases e) (auto split: sum.splits)
  next
    case False
    then have "viewOf env (e # h) = map_option (see env e) (viewOf env h)" by (cases e) auto
    then have "map_option (see env e) (viewOf env h) = Some v" using Cons.prems by argo
    then obtain u where u: "viewOf env h = Some u" "v = see env e u" by blast
    with Cons.IH [OF u(1)] see_frame [of env e u] show ?thesis by simp
  qed
qed simp

section \<open>What a reconciliation comes to know\<close>

text \<open>\<open>begun k h0 cr\<close>: for the name \<open>k\<close>, on top of the history \<open>h0\<close>, the resource is \<open>cr\<close>.\<close>

definition begun :: "'w env \<Rightarrow> namespacedName \<Rightarrow> event list \<Rightarrow> undermoon \<Rightarrow> event list \<Rightarrow> bool" where
  "begun env k h0 cr h \<longleftrightarrow> (\<exists>v. viewOf env h = Some v \<and> view_Key v = k \<and> view_Before v = h0 \<and> view_Cr v = cr)"

text \<open>\<open>equipped\<close>: and its storage StatefulSet and service are these.\<close>

definition equipped :: "'w env \<Rightarrow> namespacedName \<Rightarrow> event list \<Rightarrow> undermoon \<Rightarrow> statefulSet \<Rightarrow> service \<Rightarrow> event list \<Rightarrow> bool" where
  "equipped env k h0 cr ss svc h \<longleftrightarrow> (\<exists>v. viewOf env h = Some v \<and> view_Key v = k \<and> view_Before v = h0 \<and> view_Cr v = cr \<and>
     view_Set v = Some ss \<and> view_Svc v = Some svc)"

text \<open>The complete view, with the master broker.\<close>

abbreviation ledBy :: "namespacedName \<Rightarrow> event list \<Rightarrow> undermoon \<Rightarrow> string \<Rightarrow> statefulSet \<Rightarrow> service \<Rightarrow> view" where
  "ledBy k h0 cr m ss svc \<equiv> \<lparr>view_Key = k, view_Before = h0, view_Cr = cr, view_Master = Some m,
     view_Set = Some ss, view_Svc = Some svc\<rparr>"

lemma begun_Cons: "kind e \<notin> {KReadCR, KStatus} \<Longrightarrow> begun env k h0 cr h \<Longrightarrow> begun env k h0 cr (e # h)"
  unfolding begun_def using see_frame [of env e] by (cases e) auto

lemma equipped_message: "kind e \<in> {KEndpoints, KHttp, KRedis} \<Longrightarrow> equipped env k h0 cr ss svc h \<Longrightarrow> equipped env k h0 cr ss svc (e # h)"
  unfolding equipped_def by (simp only: viewOf_message)

lemma hvalid_view:
  assumes "usesOnly m K" and "K \<subseteq> {KEndpoints, KHttp, KRedis}"
  shows "hvalid (\<lambda>h. P (viewOf env h)) m (\<lambda>_ h. P (viewOf env h)) (\<lambda>_ h. P (viewOf env h))"
  by (rule hvalid_emits [OF assms(1)]) (use assms(2) in \<open>auto simp only: viewOf_message subset_iff\<close>)

lemma hvalid_begun:
  assumes "usesOnly m K" and "K \<inter> {KReadCR, KStatus} = {}"
  shows "hvalid (begun env k h0 cr) m (\<lambda>_. begun env k h0 cr) (\<lambda>_. begun env k h0 cr)"
  by (rule hvalid_emits [OF assms(1)], rule begun_Cons) (use assms(2) in auto)

text \<open>Reading the resource.\<close>

lemma getUndermoon_begins:
  "hvalid (\<lambda>h. h = h0) (tryM (getUndermoon env k))
     (\<lambda>r h. h = EvGetUndermoon k r # h0 \<and> (\<forall>cr. r = Inr cr \<longrightarrow> begun env k h0 cr h)) (\<lambda>_ _. True)"
  unfolding getUndermoon_def by (intro hvalid_try hvalid_callE) (auto simp: begun_def)

section \<open>The storage objects\<close>

definition serving :: "'w env \<Rightarrow> namespacedName \<Rightarrow> event list \<Rightarrow> undermoon \<Rightarrow> service \<Rightarrow> event list \<Rightarrow> bool" where
  "serving env k h0 cr svc h \<longleftrightarrow> (\<exists>v. viewOf env h = Some v \<and> view_Key v = k \<and> view_Before v = h0 \<and> view_Cr v = cr \<and>
     view_Svc v = Some svc)"

text \<open>The last call returned this StatefulSet.\<close>

definition returned :: "statefulSet \<Rightarrow> event list \<Rightarrow> bool" where
  "returned ss h \<longleftrightarrow> (\<exists>h'. (\<exists>k. h = EvGetStatefulSet k (Inr ss) # h') \<or> (\<exists>x. h = EvCreateStatefulSet x (Inr ss) # h'))"

lemma begun_step:
  assumes "begun env k h0 cr (e # h)" and "kind e \<notin> {KReadCR, KStatus}"
  obtains u where "viewOf env h = Some u" and "view_Cr u = cr" and "viewOf env (e # h) = Some (see env e u)"
    and "view_Key (see env e u) = k" and "view_Before (see env e u) = h0" and "view_Cr (see env e u) = cr"
proof -
  obtain v where v: "viewOf env (e # h) = Some v" "view_Key v = k" "view_Before v = h0" "view_Cr v = cr"
    using assms(1) unfolding begun_def by blast
  have "viewOf env (e # h) = map_option (see env e) (viewOf env h)" using assms(2) by (cases e) auto
  with v(1) obtain u where "viewOf env h = Some u" "v = see env e u" by (metis map_option_eq_Some)
  with v see_frame [of env e u] assms(2) show ?thesis by (intro that [of u]) auto
qed

lemma obtained_service:
  assumes "begun env k h0 cr h"
    and "obtained (SetControllerReference_Service env cr (createStorageService cr)) (\<lambda>x. EvGetService (svcKey x)) EvCreateService svc h1 h"
  shows "serving env k h0 cr svc h"
proof -
  obtain x e h' where h: "h = e # h'" "e = EvGetService (svcKey x) (Inr svc) \<or> e = EvCreateService x (Inr svc)"
    and x: "SetControllerReference_Service env cr (createStorageService cr) = Inr x"
    using assms(2) unfolding obtained_def by blast
  have "kind e \<notin> {KReadCR, KStatus}" using h(2) by auto
  with assms(1) h(1) obtain u where u: "viewOf env h' = Some u" "view_Cr u = cr" "viewOf env h = Some (see env e u)"
    "view_Key (see env e u) = k" "view_Before (see env e u) = h0" "view_Cr (see env e u) = cr"
    by (metis begun_step)
  have "view_Svc (see env e u) = Some svc"
    using h(2) u(2) x by (elim disjE) (simp_all add: ownedService_def)
  with u show ?thesis unfolding serving_def by blast
qed

lemma obtained_set:
  assumes "serving env k h0 cr svc h"
    and "obtained (SetControllerReference_StatefulSet env cr (createStorageStatefulSet cr)) (\<lambda>x. EvGetStatefulSet (ssKey x)) EvCreateStatefulSet ss h1 h"
  shows "equipped env k h0 cr ss svc h \<and> returned ss h"
proof -
  obtain x e h' where h: "h = e # h'" "e = EvGetStatefulSet (ssKey x) (Inr ss) \<or> e = EvCreateStatefulSet x (Inr ss)"
    and x: "SetControllerReference_StatefulSet env cr (createStorageStatefulSet cr) = Inr x"
    using assms(2) unfolding obtained_def by blast
  have "kind e \<notin> {KReadCR, KStatus}" using h(2) by auto
  moreover have "begun env k h0 cr (e # h')" using assms(1) h(1) unfolding serving_def begun_def by blast
  ultimately obtain u where u: "view_Cr u = cr" "viewOf env h = Some (see env e u)"
    "view_Key (see env e u) = k" "view_Before (see env e u) = h0" "view_Cr (see env e u) = cr"
    unfolding h(1) by (metis begun_step)
  have "view_Set (see env e u) = Some ss"
    using h(2) u(1) x by (elim disjE) (simp_all add: ownedSet_def)
  moreover have "view_Svc (see env e u) = Some svc" using assms(1) u(2) by (simp add: serving_def)
  moreover have "returned ss h" using h unfolding returned_def by blast
  ultimately show ?thesis using u unfolding equipped_def by blast
qed

lemma serving_Cons:
  assumes "(\<exists>k r. e = EvGetStatefulSet k r) \<or> (\<exists>x r. e = EvCreateStatefulSet x r)" and "serving env k h0 cr svc h"
  shows "serving env k h0 cr svc (e # h)"
proof -
  obtain v where v: "viewOf env h = Some v" "view_Key v = k" "view_Before v = h0" "view_Cr v = cr" "view_Svc v = Some svc"
    using assms(2) by (auto simp: serving_def)
  have "view_Svc (see env e v) = view_Svc v \<and> viewOf env (e # h) = Some (see env e v) \<and> kind e \<noteq> KStatus"
    using assms(1) v(1) by (cases "(env, e, v)" rule: see.cases) auto
  with v show ?thesis using see_frame [of env e v] by (auto simp: serving_def)
qed

lemma uses_storageService:
  "usesOnly (createServiceGuard (getOrCreateStorageService env cr x)) {KLookup, KCreate}"
  by (intro emits_intros stg_svc.emits_run; simp)

lemma service_obtained:
  "hvalid (begun env k h0 cr) (createServiceGuard (getOrCreateStorageService env cr (createStorageService cr)))
     (\<lambda>svc. serving env k h0 cr svc) (\<lambda>_ _. True)"
proof (rule hvalid_at)
  fix h1 assume h1: "begun env k h0 cr h1"
  have stay: "hvalid (begun env k h0 cr) (createServiceGuard (getOrCreateStorageService env cr (createStorageService cr)))
      (\<lambda>_. begun env k h0 cr) (\<lambda>_. begun env k h0 cr)"
    by (rule hvalid_begun [OF uses_storageService]) simp
  have "hvalid (\<lambda>h. h = h1) (createServiceGuard (getOrCreateStorageService env cr (createStorageService cr)))
      (\<lambda>svc h. \<exists>es. obtained (SetControllerReference_Service env cr (createStorageService cr))
         (\<lambda>x. EvGetService (svcKey x)) EvCreateService svc (es @ h1) h) (\<lambda>_ h. \<exists>es. h = es @ h1)"
    unfolding createServiceGuard_def numeral_3_eq_3 by (rule hvalid_pre [OF stg_svc.guarded_obtains]) auto
  from hvalid_conj [OF stay this]
  show "hvalid (\<lambda>h. h = h1) (createServiceGuard (getOrCreateStorageService env cr (createStorageService cr)))
      (\<lambda>svc. serving env k h0 cr svc) (\<lambda>_ _. True)"
    by (elim hvalid_conseq) (use h1 in \<open>auto intro: obtained_service\<close>)
qed

lemma set_obtained:
  "hvalid (serving env k h0 cr svc) (createStatefulSetGuard (getOrCreateStorageStatefulSet env cr))
     (\<lambda>ss h. equipped env k h0 cr ss svc h \<and> returned ss h) (\<lambda>_ _. True)"
proof (rule hvalid_at)
  fix h1 assume h1: "serving env k h0 cr svc h1"
  have stay: "hvalid (serving env k h0 cr svc) (createStatefulSetGuard (getOrCreateStorageStatefulSet env cr))
      (\<lambda>_. serving env k h0 cr svc) (\<lambda>_. serving env k h0 cr svc)"
    by (rule hvalid_emits [where A = "\<lambda>e. (\<exists>k r. e = EvGetStatefulSet k r) \<or> (\<exists>x r. e = EvCreateStatefulSet x r)"],
        intro emits_intros stg_ss.emits_run; simp add: serving_Cons)
  have "hvalid (\<lambda>h. h = h1) (createStatefulSetGuard (getOrCreateStorageStatefulSet env cr))
      (\<lambda>ss h. \<exists>es. obtained (SetControllerReference_StatefulSet env cr (createStorageStatefulSet cr))
         (\<lambda>x. EvGetStatefulSet (ssKey x)) EvCreateStatefulSet ss (es @ h1) h) (\<lambda>_ h. \<exists>es. h = es @ h1)"
    unfolding createStatefulSetGuard_def numeral_3_eq_3 by (rule hvalid_pre [OF stg_ss.guarded_obtains]) auto
  from hvalid_conj [OF stay this]
  show "hvalid (\<lambda>h. h = h1) (createStatefulSetGuard (getOrCreateStorageStatefulSet env cr))
      (\<lambda>ss h. equipped env k h0 cr ss svc h \<and> returned ss h) (\<lambda>_ _. True)"
    by (elim hvalid_conseq) (use h1 in \<open>auto dest: obtained_set\<close>)
qed

text \<open>An update of the StatefulSet that changes nothing but its size.\<close>

lemma equipped_update:
  assumes "equipped env k h0 cr ss svc h"
  shows "equipped env k h0 cr ss' svc (EvUpdateStatefulSet (ss\<lparr>ss_Replicas := n\<rparr>) (Inr ss') # h)"
proof -
  obtain v where "viewOf env h = Some v" "view_Key v = k" "view_Before v = h0" "view_Cr v = cr" "view_Set v = Some ss" "view_Svc v = Some svc"
    using assms by (auto simp: equipped_def)
  then show ?thesis unfolding equipped_def by (intro exI [of _ "v\<lparr>view_Set := Some ss'\<rparr>"]) simp
qed

lemma update_equipped:
  "hvalid (equipped env k h0 cr ss svc) (updateStorageStatefulSet env cr ss)
     (\<lambda>ss'. equipped env k h0 cr ss' svc) (\<lambda>_ _. True)"
proof -
  let ?x = "ss\<lparr>ss_Replicas := Some (i32_of_int (int_of_u32 (ChunkNumber (Spec cr)) * halfChunkNodeNumber))\<rparr>"
  have "hvalid (equipped env k h0 cr ss svc) (tryM (updateStatefulSet env ?x))
      (\<lambda>r h. \<forall>ss'. r = Inr ss' \<longrightarrow> equipped env k h0 cr ss' svc h) (\<lambda>_ _. True)"
    unfolding updateStatefulSet_def by (intro hvalid_try hvalid_callE) (auto intro: equipped_update split: option.splits)
  then show ?thesis
    unfolding updateStorageStatefulSet_def Let_def
    by (rule hvalid_bind) (intro hrules; simp)
qed

text \<open>What \<open>createStorage\<close> returns are the storage objects of the view.\<close>

lemma createStorage_equips:
  "hvalid (begun env k h0 cr) (createStorage env cr) (\<lambda>(ss, svc). equipped env k h0 cr ss svc) (\<lambda>_ _. True)"
proof -
  have pub: "hvalid (begun env k h0 cr) (tryM (createServiceGuard (getOrCreateStorageService env cr x)))
      (\<lambda>_. begun env k h0 cr) (\<lambda>_ _. True)" for x
    by (rule hvalid_post [OF hvalid_begun [OF emits_try [OF uses_storageService]]]) auto
  have fin: "hvalid (equipped env k h0 cr ss svc) (bindM (updateStorageStatefulSet env cr ss) (\<lambda>ss'. returnM (ss', svc)))
      (\<lambda>(ss, svc). equipped env k h0 cr ss svc) (\<lambda>_ _. True)" for ss svc
    by (rule hvalid_bind [OF update_equipped]) (auto intro!: hrules)
  show ?thesis
    unfolding createStorage_def
    by (rule hvalid_bind [OF pub], rule hvalid_bind [OF service_obtained], rule hvalid_bind [OF set_obtained])
      (auto intro!: hrules hvalid_pre [OF fin])
qed

lemma createResources_equips:
  "hvalid (begun env k h0 cr) (createResources env cr)
     (\<lambda>r. equipped env k h0 cr (storageStatefulSet r) (storageService r)) (\<lambda>_ _. True)"
proof -
  have bk: "hvalid (begun env k h0 cr) (createBroker env cr) (\<lambda>_. begun env k h0 cr) (\<lambda>_ _. True)"
    by (rule hvalid_post [OF hvalid_begun [OF uses_createBroker]]) auto
  have cd: "hvalid (begun env k h0 cr) (createCoordinator env cr) (\<lambda>_. begun env k h0 cr) (\<lambda>_ _. True)"
    by (rule hvalid_post [OF hvalid_begun [OF uses_createCoordinator]]) auto
  show ?thesis
    unfolding createResources_def
    by (rule hvalid_bind [OF bk] hvalid_bind [OF cd] hvalid_bind [OF createStorage_equips] hvalid_case_prod hvalid_return | simp)+
qed

section \<open>The master broker\<close>

lemma equipped_status:
  assumes "equipped env k h0 cr ss svc h"
  shows "viewOf env (EvUpdateStatus (cr\<lparr>Status := (Status cr)\<lparr>MasterBrokerAddress := m\<rparr>\<rparr>) (Inr cr') # h) = Some (ledBy k h0 cr' m ss svc)"
proof -
  obtain v where "viewOf env h = Some v" "view_Key v = k" "view_Before v = h0" "view_Cr v = cr" "view_Set v = Some ss" "view_Svc v = Some svc"
    using assms by (auto simp: equipped_def)
  then show ?thesis by (cases v) simp
qed

lemma setMaster_leads:
  "hvalid (equipped env k h0 cr ss svc) (setMasterBrokerStatus env cr m)
     (\<lambda>cr' h. viewOf env h = Some (ledBy k h0 cr' m ss svc)) (\<lambda>_ _. True)"
proof -
  let ?x = "cr\<lparr>Status := (Status cr)\<lparr>MasterBrokerAddress := m\<rparr>\<rparr>"
  have "hvalid (equipped env k h0 cr ss svc) (tryM (updateStatus env ?x))
      (\<lambda>r h. \<forall>cr'. r = Inr cr' \<longrightarrow> viewOf env h = Some (ledBy k h0 cr' m ss svc)) (\<lambda>_ _. True)"
    unfolding updateStatus_def
    by (intro hvalid_try hvalid_callE) (auto simp del: viewOf.simps intro: equipped_status split: option.splits)
  then show ?thesis
    unfolding setMasterBrokerStatus_def by (rule hvalid_bind) (intro hrules; simp)
qed

lemma reconcileMaster_leads:
  "hvalid (equipped env k h0 cr ss svc) (reconcileMaster env cr bsvc)
     (\<lambda>(cr', m, _) h. viewOf env h = Some (ledBy k h0 cr' m ss svc)) (\<lambda>_ _. True)"
proof -
  have stay: "hvalid (equipped env k h0 cr ss svc) x (\<lambda>_. equipped env k h0 cr ss svc) (\<lambda>_ _. True)"
    if "usesOnly x K" "K \<subseteq> {KEndpoints, KHttp, KRedis}" for x :: "('a, 'b) op" and K
    by (rule hvalid_post [OF hvalid_emits [OF that(1)]], rule equipped_message) (use that(2) in auto)
  have ep: "usesOnly (getEndpoints env n ns) {KEndpoints}" for n ns by (intro emits_intros) simp
  show ?thesis
    unfolding reconcileMaster_def Let_def
    by (rule hvalid_bind [OF stay [OF ep]] hvalid_bind [OF stay [OF uses_getCurrentMaster]] hvalid_bind [OF setMaster_leads]
        hvalid_return | simp)+
qed

section \<open>The view within a run\<close>

lemma suffix_above:
  assumes "es @ x # h0 = as @ h" and "length h0 < length h"
  shows "\<exists>bs. es = as @ bs \<and> h = bs @ x # h0"
proof -
  from assms(1) obtain us where "(es = as @ us \<and> us @ x # h0 = h) \<or> (es @ us = as \<and> x # h0 = us @ h)"
    unfolding append_eq_append_conv2 by blast
  then show ?thesis
  proof (elim disjE conjE)
    assume eq: "es @ us = as" "x # h0 = us @ h"
    from arg_cong [OF eq(2), of length] assms(2) have "\<not> 0 < length us" by (simp del: length_greater_0_conv)
    then have "us = []" by simp
    with eq show ?thesis by simp
  qed auto
qed

text \<open>A reconciliation reads the resource once, first of all.\<close>

lemma uses_reconcileScale: "usesOnly (reconcileScale env r cr m rs b info) {KEndpoints, KHttp, KUpdateSS}"
  unfolding reconcileScale_def
  by (intro emits_intros usesOnly_mono [OF uses_storageAllReadyAndStable] usesOnly_mono [OF uses_changeMeta]
      usesOnly_mono [OF uses_reconcileMeta] usesOnly_mono [OF uses_scaleDownStorageStatefulSet]; simp)

lemma uses_not_reading: "usesOnly m K \<Longrightarrow> KReadCR \<notin> K \<Longrightarrow> emits m (\<lambda>e. kind e \<noteq> KReadCR)"
  by (erule emits_mono) auto

lemmas not_reading = uses_not_reading [OF uses_createResources] uses_not_reading [OF uses_brokerAndCoordinatorReady]
  uses_not_reading [OF uses_reconcileMaster] uses_not_reading [OF uses_configSetBroker] uses_not_reading [OF uses_getMaxEpoch]
  uses_not_reading [OF uses_fixBrokerEpoch] uses_not_reading [OF uses_storage_getServerProxies]
  uses_not_reading [OF uses_storageAllReady] uses_not_reading [OF uses_reconcileMeta] uses_not_reading [OF uses_reconcileScale]

lemma Reconcile_reads_first:
  fixes env :: "'a env"
  assumes "Reconcile env req s = (r, t)"
  shows "\<exists>es x. history t = es @ EvGetUndermoon (NamespacedName req) x # history s \<and> (\<forall>e \<in> set es. kind e \<noteq> KReadCR)"
proof -
  let ?I = "\<lambda>h. \<exists>es x. h = es @ EvGetUndermoon (NamespacedName req) x # history s \<and> (\<forall>e \<in> set es. kind e \<noteq> KReadCR)"
  have first: "hvalid (\<lambda>h. h = history s) (tryM (getUndermoon env (NamespacedName req))) (\<lambda>_. ?I) (\<lambda>_. ?I)"
    unfolding getUndermoon_def
    by (intro hvalid_try hvalid_callE) (fastforce intro: exI [of _ "[]"])+
  have stay: "hvalid ?I m (\<lambda>_. ?I) (\<lambda>_. ?I)" if "emits m (\<lambda>e. kind e \<noteq> KReadCR)" for m :: "('a, reconcileResult) op"
    by (rule hvalid_emits [OF that]) (metis append_Cons set_ConsD)
  have "hvalid (\<lambda>h. h = history s) (Reconcile env req) (\<lambda>_. ?I) (\<lambda>_. ?I)"
    unfolding Reconcile_def
    by (rule hvalid_bind [OF first], rule stay, intro emits_intros not_reading; simp)
  from hvalidD [OF this, where s = s] assms show ?thesis by (cases r) simp_all
qed

text \<open>So the view at any point of the run is that of this run. When the API server leaves the specification as it is at
  updates of the status, it is the one that was read.\<close>

definition keepsSpec :: "event \<Rightarrow> bool" where
  "keepsSpec e \<longleftrightarrow> (\<forall>x y. e = EvUpdateStatus x (Inr y) \<longrightarrow> Spec y = Spec x)"

lemma see_keepsSpec: "keepsSpec e \<Longrightarrow> Spec (view_Cr (see env e v)) = Spec (view_Cr v)"
  by (cases "(env, e, v)" rule: see.cases) (auto simp: keepsSpec_def split: option.splits,
      metis undermoon.select_convs(2) undermoon.surjective undermoon.update_convs(3))

lemma viewOf_run:
  assumes "\<forall>e \<in> set es. kind e \<noteq> KReadCR" and "viewOf env (es @ EvGetUndermoon k x # h0) = Some v"
  shows "view_Key v = k \<and> view_Before v = h0 \<and> (\<exists>c. x = Inr c \<and> ((\<forall>e \<in> set es. keepsSpec e) \<longrightarrow> Spec (view_Cr v) = Spec c))"
  using assms
proof (induction es arbitrary: v)
  case Nil
  then show ?case by (auto split: sum.splits)
next
  case (Cons e es)
  have "viewOf env ((e # es) @ EvGetUndermoon k x # h0) = map_option (see env e) (viewOf env (es @ EvGetUndermoon k x # h0))"
    using Cons.prems(1) by (cases e) auto
  then have "map_option (see env e) (viewOf env (es @ EvGetUndermoon k x # h0)) = Some v" using Cons.prems(2) by argo
  then obtain u where u: "viewOf env (es @ EvGetUndermoon k x # h0) = Some u" "v = see env e u" by blast
  with Cons.IH [OF _ u(1)] Cons.prems(1) see_frame [of env e u] see_keepsSpec [of e env u] show ?case by auto
qed

end
