(* ===== verification/CallRules.thy ===== *)
theory CallRules
  imports View
begin

text \<open>
  Safety conditions over the history of calls. Three kinds of calls can do harm: updating a
  StatefulSet, asking the broker to move slots, and removing a server proxy from the
  registry. All other calls are ordinary. A condition that ordinary calls cannot break is kept by
  a whole reconciliation when the four operations that make the other calls keep it, each with
  what the reconciliation knows at that point; the locale \<open>audit\<close> states this.
\<close>

section \<open>The calls that matter\<close>

definition isScale :: "httpRequest \<Rightarrow> bool" where
  "isScale q \<longleftrightarrow> req_Method q = POST \<and> req_Body q = None"

definition isDeregister :: "httpRequest \<Rightarrow> bool" where
  "isDeregister q \<longleftrightarrow> req_Method q = DELETE \<and> req_SetError q = None"

definition ordinary :: "event \<Rightarrow> bool" where
  "ordinary e \<longleftrightarrow> (case e of
     EvUpdateStatefulSet _ _ \<Rightarrow> False
   | EvHttp q _ \<Rightarrow> \<not> isScale q \<and> \<not> isDeregister q
   | _ \<Rightarrow> True)"

lemma ordinary_kind: "kind e \<notin> {KUpdateSS, KHttp} \<Longrightarrow> ordinary e"
  by (cases e) (auto simp: ordinary_def)

lemma ordinary_uses: "usesOnly m K \<Longrightarrow> KUpdateSS \<notin> K \<Longrightarrow> KHttp \<notin> K \<Longrightarrow> emits m ordinary"
  by (erule emits_mono) (auto intro!: ordinary_kind)

lemmas ordinary_http = ordinary_def isScale_def isDeregister_def request_def infoRequest_def

lemma ordinary_brokerClient:
  "emits (getReplicaAddresses env a) ordinary"
  "emits (brokerClient_getEpoch env a) ordinary"
  "emits (brokerClient_getServerProxies env a) ordinary"
  "emits (brokerClient_setBrokerReplicas env a rs) ordinary"
  "emits (registerServerProxy env a p) ordinary"
  "emits (brokerClient_createCluster env a b n) ordinary"
  "emits (clusterExists env a b) ordinary"
  "emits (removeFreeNodes env a b) ordinary"
  "emits (brokerClient_getClusterInfo env a b) ordinary"
  "emits (fixEpoch env a) ordinary"
  unfolding brokerClient_defs Let_def by (intro emits_intros; simp add: ordinary_http)+

lemma ordinary_fixBrokerEpoch: "emits (fixBrokerEpoch env m e) ordinary"
  unfolding fixBrokerEpoch_def by (intro emits_intros ordinary_brokerClient)

lemma ordinary_reconcileMaster: "emits (reconcileMaster env cr svc) ordinary"
  unfolding reconcileMaster_def setMasterBrokerStatus_def getCurrentMaster_def masterCandidates_def maxEpochLoop_def Let_def
  by (intro emits_intros ordinary_brokerClient; simp add: ordinary_def)

section \<open>Rules for calls\<close>

text \<open>\<open>justified J n h\<close>: every call of \<open>h\<close> that is on top of at least \<open>n\<close> earlier ones satisfies \<open>J\<close>
  with the history before it.\<close>

fun justified :: "(event \<Rightarrow> event list \<Rightarrow> bool) \<Rightarrow> nat \<Rightarrow> event list \<Rightarrow> bool" where
  "justified J n [] = True"
| "justified J n (e # h) \<longleftrightarrow> justified J n h \<and> (n \<le> length h \<longrightarrow> J e h)"

lemma justified_old: "length h \<le> n \<Longrightarrow> justified J n h"
  by (induction h) auto

lemma justified_at: "justified J n (as @ e # h) \<Longrightarrow> n \<le> length h \<Longrightarrow> J e h"
  by (induction as) auto

lemma justified_emits:
  assumes "emits m A" and "\<And>e h. A e \<Longrightarrow> J e h"
  shows "hvalid (justified J n) m (\<lambda>_. justified J n) (\<lambda>_. justified J n)"
  by (rule hvalid_emits [OF assms(1)]) (simp add: assms(2))

section \<open>What the reconciliation has established\<close>

text \<open>The last call was the report \<open>info\<close> of the master broker on the cluster of the resource at hand.\<close>

definition reported :: "'w env \<Rightarrow> view \<Rightarrow> clusterInfo \<Rightarrow> event list \<Rightarrow> bool" where
  "reported env v info h \<longleftrightarrow> (\<exists>m res h'. view_Master v = Some m \<and>
     h = EvHttp (infoRequest m (ClusterName (Spec (view_Cr v)))) (Inr res) # h' \<and> viewOf env h' = Some v \<and>
     StatusCode res = 200 \<and> resp_Result res = Some (PClusterInfo info))"

text \<open>The number of pods of the storage StatefulSet for \<open>c\<close> chunks.\<close>

definition replicasOf :: "u32 \<Rightarrow> i32" where
  "replicasOf c = i32_of_int (int_of_u32 c * halfChunkNodeNumber)"

text \<open>All pods of the StatefulSet have been made, and none is being replaced.\<close>

definition steady :: "statefulSet \<Rightarrow> bool" where
  "steady ss \<longleftrightarrow> ss_Replicas ss = Some (ss_StatusCurrentReplicas ss) \<and> ss_Replicas ss = Some (ss_StatusReplicas ss)"

text \<open>The last call showed all storage pods behind the storage service, right after the report; and the
  storage StatefulSet was steady when it was returned.\<close>

definition reportedReady :: "'w env \<Rightarrow> view \<Rightarrow> clusterInfo \<Rightarrow> event list \<Rightarrow> bool" where
  "reportedReady env v info h \<longleftrightarrow> (\<exists>ss svc r eps h'. view_Set v = Some ss \<and> view_Svc v = Some svc \<and>
     h = EvGetEndpoints (svcKey svc) r # h' \<and> reported env v info h' \<and>
     readEndpoints r = Inr eps \<and> sint (replicasOf (ChunkNumber (Spec (view_Cr v)))) \<le> len eps \<and> steady ss)"

lemma reported_view: "reported env v info h \<Longrightarrow> viewOf env h = Some v"
  by (auto simp: reported_def viewOf_message simp del: viewOf.simps)

lemma reportedReady_view: "reportedReady env v info h \<Longrightarrow> viewOf env h = Some v"
  by (auto simp: reportedReady_def viewOf_message simp del: viewOf.simps dest: reported_view)

section \<open>The scheme\<close>

locale audit =
  fixes env :: "'w env" and H :: "event list \<Rightarrow> bool"
  assumes ordinary_keeps: "ordinary e \<Longrightarrow> H h \<Longrightarrow> H (e # h)"
    and storage_keeps: "hvalid (\<lambda>h. H h \<and> begun env k h0 cr h) (createStorage env cr) (\<lambda>_. H) (\<lambda>_. H)"
    and registry_keeps: "view_Cr v = cr \<Longrightarrow> view_Master v = Some m \<Longrightarrow>
      hvalid (\<lambda>h. H h \<and> viewOf env h = Some v) (deregisterServerProxies env m ps cr) (\<lambda>_. H) (\<lambda>_. H)"
    and change_keeps: "view_Cr v = cr \<Longrightarrow> view_Master v = Some m \<Longrightarrow>
      hvalid (\<lambda>h. H h \<and> reportedReady env v info h) (changeMeta env m cr info) (\<lambda>_. H) (\<lambda>_. H)"
    and shrink_keeps: "view_Cr v = cr \<Longrightarrow> view_Set v = Some ss \<Longrightarrow>
      hvalid (\<lambda>h. H h \<and> reported env v info h) (scaleDownStorageStatefulSet env cr ss info) (\<lambda>_. H) (\<lambda>_. H)"
begin

lemma keeps:
  assumes "emits m ordinary"
  shows "hvalid H m (\<lambda>_. H) (\<lambda>_. H)"
  by (rule hvalid_emits [OF assms]) (rule ordinary_keeps)

text \<open>What an operation establishes besides.\<close>

lemma keeps_and:
  assumes "hvalid (\<lambda>h. H h \<and> P h) m (\<lambda>_. H) (\<lambda>_. H)" and "hvalid P m Q (\<lambda>_ _. True)"
  shows "hvalid (\<lambda>h. H h \<and> P h) m (\<lambda>x h. H h \<and> Q x h) (\<lambda>_. H)"
  by (rule hvalid_conseq [OF hvalid_conj [OF assms]]) auto

lemma keeps_and_ordinary:
  assumes "emits m ordinary" and "hvalid P m Q (\<lambda>_ _. True)"
  shows "hvalid (\<lambda>h. H h \<and> P h) m (\<lambda>x h. H h \<and> Q x h) (\<lambda>_. H)"
  by (rule keeps_and [OF hvalid_pre [OF keeps [OF assms(1)]] assms(2)]) auto

text \<open>The view stays through messages and lookups of endpoints.\<close>

lemma view_stays:
  assumes "usesOnly m K" and "K \<subseteq> {KEndpoints, KHttp, KRedis}"
  shows "hvalid (\<lambda>h. viewOf env h = Some v) m (\<lambda>_ h. viewOf env h = Some v) (\<lambda>_ _. True)"
  by (rule hvalid_post [OF hvalid_view [OF assms, where P = "\<lambda>x. x = Some v"]]) auto

lemmas keeps_view = keeps_and_ordinary [OF _ view_stays]

lemma meta_keeps:
  assumes "view_Cr v = cr" and "view_Master v = Some m"
  shows "hvalid (\<lambda>h. H h \<and> viewOf env h = Some v) (reconcileMeta env m rs ps cr b)
    (\<lambda>info h. H h \<and> reported env v info h) (\<lambda>_. H)"
proof -
  have info: "hvalid (\<lambda>h. H h \<and> viewOf env h = Some v) (meta_getClusterInfo env m cr)
     (\<lambda>info h. H h \<and> reported env v info h) (\<lambda>_. H)"
    unfolding meta_getClusterInfo_def
    by (rule hvalid_at, rule hvalid_post [OF getClusterInfo_call])
      (auto simp: reported_def assms ordinary_http intro!: ordinary_keeps)
  have repl: "emits (meta_setBrokerReplicas env m rs) ordinary" "usesOnly (meta_setBrokerReplicas env m rs) {KHttp}"
    unfolding meta_setBrokerReplicas_def by (intro emits_intros ordinary_brokerClient uses)+
  have reg: "emits (registerServerProxies env m ps) ordinary" "usesOnly (registerServerProxies env m ps) {KHttp}"
    unfolding registerServerProxies_def by (intro emits_intros ordinary_brokerClient uses)+
  have mk: "emits (meta_createCluster env m cr) ordinary" "usesOnly (meta_createCluster env m cr) {KHttp}"
    unfolding meta_createCluster_def by (intro emits_intros ordinary_brokerClient uses)+
  have de: "usesOnly (deregisterServerProxies env m ps cr) {KHttp}"
    unfolding deregisterServerProxies_def Let_def by (intro emits_intros uses)
  note steps = hvalid_bind [OF keeps_view [OF repl]] hvalid_bind [OF keeps_view [OF reg]]
    hvalid_bind [OF keeps_and [OF registry_keeps [OF assms] view_stays [OF de]]] hvalid_bind [OF keeps_view [OF mk]]
  show ?thesis
    unfolding reconcileMeta_def reconcileServerProxyRegistry_def bindM_assoc
    by (rule steps hvalid_if hvalid_throw info | simp)+
qed

text \<open>A stable storage workload was seen in one endpoint lookup.\<close>

lemma stable_keeps:
  assumes "view_Cr v = cr" and "view_Set v = Some ss" and "view_Svc v = Some svc"
  shows "hvalid (\<lambda>h. H h \<and> reported env v info h) (storageAllReadyAndStable env svc ss cr)
    (\<lambda>b h. H h \<and> (b \<longrightarrow> reportedReady env v info h)) (\<lambda>_. H)"
proof -
  let ?Q = "\<lambda>b h. H h \<and> (b \<longrightarrow> (steady ss \<longrightarrow> reportedReady env v info h))"
  have "hvalid (\<lambda>h. H h \<and> reported env v info h) (storageAllReady env svc cr) ?Q (\<lambda>_. H)"
    unfolding hvalid_def valid_def
  proof (intro allI impI)
    fix s :: "'w sys" assume h: "H (history s) \<and> reported env v info (history s)"
    obtain r w where r: "getEndpoints env (meta_Name (svc_Meta svc)) (meta_Namespace (svc_Meta svc)) s =
        (outcome (readEndpoints r), s\<lparr>world := w, history := EvGetEndpoints (svcKey svc) r # history s\<rparr>)"
      using getEndpoints_run [of env "meta_Name (svc_Meta svc)" "meta_Namespace (svc_Meta svc)" s] by blast
    have "H (EvGetEndpoints (svcKey svc) r # history s)" using h by (simp add: ordinary_keeps ordinary_def)
    with h r show "case storageAllReady env svc cr s of
        (Ok b, t) \<Rightarrow> ?Q b (history t) | (Err e, t) \<Rightarrow> H (history t) | (Panic p, t) \<Rightarrow> H (history t)"
      by (cases "readEndpoints r") (auto simp: storageAllReady_def storage_getServiceEndpointsNum_def bindM_def
          returnM_def Let_def reportedReady_def replicasOf_def sint_int_of_i32 assms)
  qed
  then show ?thesis
    unfolding storageAllReadyAndStable_def by (rule hvalid_bind) (auto intro!: hrules simp: steady_def)
qed

lemma scale_keeps:
  assumes v: "view_Cr v = cr" "view_Master v = Some m" "view_Set v = Some (storageStatefulSet r)" "view_Svc v = Some (storageService r)"
  shows "hvalid (\<lambda>h. H h \<and> reported env v info h) (reconcileScale env r cr m rs b info) (\<lambda>_. H) (\<lambda>_. H)"
proof -
  have "hvalid (reportedReady env v info) (changeMeta env m cr info) (\<lambda>_ h. viewOf env h = Some v) (\<lambda>_ _. True)"
    by (rule hvalid_pre [OF view_stays [OF uses_changeMeta]]) (auto dest: reportedReady_view)
  note change = keeps_and [OF change_keeps [OF v(1,2)] this]
  show ?thesis
    unfolding reconcileScale_def
    by (rule hvalid_bind [OF stable_keeps [OF v(1,3,4)]] hvalid_if hvalid_return hvalid_orRequeue_inv [OF hvalid_pre [OF change]]
        hvalid_orRequeue_inv [OF meta_keeps [OF v(1,2)]] hvalid_orRequeue_inv [OF shrink_keeps [OF v(1,3)]] | simp)+
qed

lemma resources_keep:
  "hvalid (\<lambda>h. H h \<and> begun env k h0 cr h) (createResources env cr)
     (\<lambda>r h. H h \<and> equipped env k h0 cr (storageStatefulSet r) (storageService r) h) (\<lambda>_. H)"
proof -
  have stay: "hvalid (begun env k h0 cr) m (\<lambda>_. begun env k h0 cr) (\<lambda>_ _. True)"
    if "usesOnly m {KLookup, KCreate}" for m :: "('w, 'a) op"
    by (rule hvalid_post [OF hvalid_begun [OF that]]) auto
  have bk: "emits (createBroker env cr) ordinary" and cd: "emits (createCoordinator env cr) ordinary"
    by (rule ordinary_uses [OF uses_createBroker] ordinary_uses [OF uses_createCoordinator]; simp)+
  show ?thesis
    unfolding createResources_def
    by (rule hvalid_bind [OF keeps_and_ordinary [OF bk stay [OF uses_createBroker]]]
        hvalid_bind [OF keeps_and_ordinary [OF cd stay [OF uses_createCoordinator]]]
        hvalid_bind [OF keeps_and [OF storage_keeps createStorage_equips]] hvalid_case_prod hvalid_return | simp)+
qed

text \<open>From the elected master on, the view is complete.\<close>

lemma master_keeps:
  "hvalid (\<lambda>h. H h \<and> equipped env k h0 cr ss svc h) (reconcileMaster env cr bsvc)
     (\<lambda>(cr', m, _) h. H h \<and> viewOf env h = Some (ledBy k h0 cr' m ss svc)) (\<lambda>_. H)"
  by (rule hvalid_post [OF keeps_and_ordinary [OF ordinary_reconcileMaster reconcileMaster_leads]]) auto

lemma Reconcile_keeps: "hvalid H (Reconcile env req) (\<lambda>_. H) (\<lambda>_. H)"
proof (rule hvalid_at)
  fix h0 assume "H h0"
  have first: "hvalid (\<lambda>h. h = h0) (tryM (getUndermoon env k)) (\<lambda>_. H) (\<lambda>_. H)" for k
    by (rule hvalid_pre [OF keeps]) (auto intro!: emits_intros simp: \<open>H h0\<close> ordinary_def)
  have get: "hvalid (\<lambda>h. h = h0) (tryM (getUndermoon env k))
      (\<lambda>r h. H h \<and> (\<forall>cr. r = Inr cr \<longrightarrow> begun env k h0 cr h)) (\<lambda>_. H)" for k
    by (rule hvalid_conseq [OF hvalid_conj [OF first getUndermoon_begins]]) auto
  have ready: "hvalid (\<lambda>h. H h \<and> equipped env k h0 cr ss svc h) (brokerAndCoordinatorReady env r)
      (\<lambda>_ h. H h \<and> equipped env k h0 cr ss svc h) (\<lambda>_. H)" for k cr ss svc r
    by (rule keeps_and_ordinary [OF ordinary_uses [OF uses_brokerAndCoordinatorReady]],
        simp, simp, rule hvalid_post [OF hvalid_emits [OF uses_brokerAndCoordinatorReady]], rule equipped_message) auto
  note view = hvalid_bind [OF keeps_view [OF ordinary_uses [OF uses_configSetBroker] uses_configSetBroker]]
    hvalid_bind [OF keeps_view [OF ordinary_uses [OF uses_getMaxEpoch] uses_getMaxEpoch]]
    hvalid_bind [OF keeps_view [OF ordinary_fixBrokerEpoch uses_fixBrokerEpoch]]
    hvalid_bind [OF keeps_view [OF ordinary_uses [OF uses_storage_getServerProxies] uses_storage_getServerProxies]]
    hvalid_bind [OF keeps_view [OF ordinary_uses [OF uses_storageAllReady] uses_storageAllReady]]
  show "hvalid (\<lambda>h. h = h0) (Reconcile env req) (\<lambda>_. H) (\<lambda>_. H)"
    unfolding Reconcile_def
    by (rule hvalid_bind [OF get] hvalid_case_sum hvalid_case_prod hvalid_if hvalid_return hvalid_throw
        hvalid_orRequeue_inv [OF hvalid_pre [OF resources_keep [where k = "NamespacedName req" and ?h0.0 = h0]]]
        hvalid_bind [OF ready] hvalid_orRequeue_inv [OF master_keeps]
        view hvalid_orRequeue_inv [OF meta_keeps] scale_keeps | simp)+
qed

end

end
