(* ===== verification/ScaleSafety.thy ===== *)
theory ScaleSafety
  imports CallRules
begin

text \<open>
  When the operator resizes a StatefulSet. Growing the storage is harmless; shrinking it kills
  pods, and is allowed only when the master broker has just reported that the slots are on exactly the
  nodes that remain. The call right before an update justifies it.
\<close>

section \<open>The condition\<close>

text \<open>The update is of the storage StatefulSet of the resource at hand, as the API server returned it last, with nothing
  changed but the replica count, which becomes the one wanted. Either the last call has just returned it, with fewer
  replicas; or the last call is the report of the master broker that the slots of the cluster are on exactly four nodes per
  chunk.\<close>

definition updateJustified :: "'w env \<Rightarrow> statefulSet \<Rightarrow> event list \<Rightarrow> bool" where
  "updateJustified env x h \<longleftrightarrow> (\<exists>v ss. viewOf env h = Some v \<and> view_Set v = Some ss \<and>
     x = ss\<lparr>ss_Replicas := Some (replicasOf (ChunkNumber (Spec (view_Cr v))))\<rparr> \<and>
     (returned ss h \<and> (\<exists>n. ss_Replicas ss = Some n \<and> sint n < sint (replicasOf (ChunkNumber (Spec (view_Cr v))))) \<or>
      (\<exists>info. reported env v info h \<and> sint (NodeNumberWithSlots info) = 4 * uint (ChunkNumber (Spec (view_Cr v))))))"

definition updateRule :: "'w env \<Rightarrow> event \<Rightarrow> event list \<Rightarrow> bool" where
  "updateRule env e h \<longleftrightarrow> (case e of EvUpdateStatefulSet x _ \<Rightarrow> updateJustified env x h | _ \<Rightarrow> True)"

definition scaleSafe :: "'w env \<Rightarrow> event list \<Rightarrow> bool" where
  "scaleSafe env h \<longleftrightarrow> justified (updateRule env) 0 h"

section \<open>What the operations keep\<close>

lemma updateRule_other: "kind e \<noteq> KUpdateSS \<Longrightarrow> updateRule env e h"
  by (cases e) (auto simp: updateRule_def)

text \<open>An operation that updates no StatefulSet keeps the condition.\<close>

lemma safe_keep:
  assumes "usesOnly m K" and "KUpdateSS \<notin> K"
  shows "hvalid (justified (updateRule env) n) m (\<lambda>_. justified (updateRule env) n) (\<lambda>_. justified (updateRule env) n)"
  by (rule justified_emits [OF assms(1)], rule updateRule_other) (use assms(2) in auto)

lemma safe_and:
  assumes "usesOnly m K" and "KUpdateSS \<notin> K" and "hvalid P m Q (\<lambda>_ _. True)"
  shows "hvalid (\<lambda>h. justified (updateRule env) n h \<and> P h) m (\<lambda>x h. justified (updateRule env) n h \<and> Q x h) (\<lambda>_. justified (updateRule env) n)"
  by (rule hvalid_conseq [OF hvalid_conj [OF safe_keep [OF assms(1,2)] assms(3)]]) auto

text \<open>An update that the last call justifies keeps it.\<close>

lemma safe_update:
  assumes "\<And>h. P h \<Longrightarrow> updateJustified env (ss\<lparr>ss_Replicas := Some (replicasOf (ChunkNumber (Spec cr)))\<rparr>) h"
  shows "hvalid (\<lambda>h. justified (updateRule env) n h \<and> P h) (updateStorageStatefulSet env cr ss)
     (\<lambda>_. justified (updateRule env) n) (\<lambda>_. justified (updateRule env) n)"
  unfolding updateStorageStatefulSet_def updateStatefulSet_def Let_def replicasOf_def [symmetric]
  by (rule hvalid_bind [where R = "\<lambda>_. justified (updateRule env) n"])
    (auto intro!: hvalid_try hvalid_callE hrules assms simp: updateRule_def split: sum.splits)

lemma grow_justified:
  assumes "equipped env k h0 cr ss svc h" and "returned ss h"
    and "ss_Replicas ss = Some n" and "sint n < sint (i32_of_u32 (ChunkNumber (Spec cr)) * 2)"
  shows "updateJustified env (ss\<lparr>ss_Replicas := Some (replicasOf (ChunkNumber (Spec cr)))\<rparr>) h"
  using assms unfolding equipped_def updateJustified_def
  by (elim exE conjE) (rule_tac x = v in exI, simp add: i32_chunk_mult replicasOf_def)

lemma createStorage_safe:
  "hvalid (\<lambda>h. justified (updateRule env) i h \<and> begun env k h0 cr h) (createStorage env cr)
     (\<lambda>_. justified (updateRule env) i) (\<lambda>_. justified (updateRule env) i)"
proof -
  let ?J = "justified (updateRule env) i"
  have pub: "hvalid (begun env k h0 cr) (tryM (createServiceGuard (getOrCreateStorageService env cr x)))
      (\<lambda>_. begun env k h0 cr) (\<lambda>_ _. True)" for x
    by (rule hvalid_post [OF hvalid_begun [OF emits_try [OF uses_storageService]]]) auto
  have set: "usesOnly (createStatefulSetGuard (getOrCreateStorageStatefulSet env cr)) {KLookup, KCreate}"
    by (intro emits_intros stg_ss.emits_run; simp)
  have grow: "hvalid (\<lambda>h. ?J h \<and> equipped env k h0 cr ss svc h \<and> returned ss h)
      (bindM (updateStorageStatefulSet env cr ss) (\<lambda>ss'. returnM (ss', svc))) (\<lambda>_. ?J) (\<lambda>_. ?J)"
    if "ss_Replicas ss = Some n" "sint n < sint (i32_of_u32 (ChunkNumber (Spec cr)) * 2)" for ss svc n
    by (rule hvalid_bind [OF safe_update]) (auto intro!: hrules intro: grow_justified [OF _ _ that])
  show ?thesis
    unfolding createStorage_def
    by (rule hvalid_bind [OF safe_and [OF emits_try [OF uses_storageService] _ pub]], simp,
        rule hvalid_bind [OF safe_and [OF uses_storageService _ service_obtained]], simp,
        rule hvalid_bind [OF safe_and [OF set _ set_obtained]], simp) (auto intro!: hrules grow)
qed

lemma scaleDown_safe:
  assumes v: "view_Cr v = cr" "view_Set v = Some ss"
  shows "hvalid (\<lambda>h. justified (updateRule env) n h \<and> reported env v info h) (scaleDownStorageStatefulSet env cr ss info)
     (\<lambda>_. justified (updateRule env) n) (\<lambda>_. justified (updateRule env) n)"
  unfolding scaleDownStorageStatefulSet_def Let_def
proof (intro hvalid_if hvalid_throw safe_update)
  fix h assume "\<not> sint (int_of_u32 (ChunkNumber (Spec cr)) * chunkNodeNumber) < sint (NodeNumberWithSlots info)"
    and "\<not> sint (NodeNumberWithSlots info) < sint (int_of_u32 (ChunkNumber (Spec cr)) * chunkNodeNumber)"
    and "reported env v info h"
  then show "updateJustified env (ss\<lparr>ss_Replicas := Some (replicasOf (ChunkNumber (Spec cr)))\<rparr>) h"
    unfolding updateJustified_def using v reported_view [of env v info h]
    by (intro exI [of _ v] exI [of _ ss]) (auto simp: sint_chunk_mult)
qed auto

section \<open>A whole reconciliation\<close>

lemma uses_deregisterServerProxies [uses]: "usesOnly (deregisterServerProxies env m ps cr) {KHttp}"
  unfolding deregisterServerProxies_def Let_def by (intro emits_intros uses)

interpretation scl: audit env "justified (updateRule env) n" for env n
proof
  show "ordinary e \<Longrightarrow> justified (updateRule env) n h \<Longrightarrow> justified (updateRule env) n (e # h)" for e h
    by (cases e) (auto simp: ordinary_def updateRule_def)
  show "hvalid (\<lambda>h. justified (updateRule env) n h \<and> viewOf env h = Some v) (deregisterServerProxies env m ps cr)
      (\<lambda>_. justified (updateRule env) n) (\<lambda>_. justified (updateRule env) n)" for v m ps cr
    by (rule hvalid_pre [OF safe_keep [OF uses_deregisterServerProxies]]) auto
  show "hvalid (\<lambda>h. justified (updateRule env) n h \<and> reportedReady env v info h) (changeMeta env m cr info)
      (\<lambda>_. justified (updateRule env) n) (\<lambda>_. justified (updateRule env) n)" for v m info cr
    by (rule hvalid_pre [OF safe_keep [OF uses_changeMeta]]) auto
qed (auto intro: createStorage_safe scaleDown_safe)

end
