(* ===== verification/Operator.thy ===== *)
theory Operator
  imports ScaleSafety
begin

text \<open>
  The operator as a state machine: it starts with empty client pools (\<open>newReconciler\<close> and the
  constructors of the controllers), and each step is one call of \<open>Reconcile\<close> by
  controller-runtime's work queue (one at a time, for any resource), or a change of the world
  around it. The invariants of the reachable states are proved here by rule induction.
\<close>

section \<open>Start and steps\<close>

definition newReconciler :: "'w \<Rightarrow> 'w sys" where
  "newReconciler w = \<lparr>world = w, history = [], coordPool = newCoordinatorClientPool,
     proxyPool = newServerProxyClientPool, nextClient = 0\<rparr>"

inductive opStep :: "'w env \<Rightarrow> 'w sys \<Rightarrow> 'w sys \<Rightarrow> bool" for env where
  reconciles: "Reconcile env req s = (r, t) \<Longrightarrow> opStep env s t"
| worldMoves: "opStep env s (s\<lparr>world := w\<rparr>)"

inductive operates :: "'w env \<Rightarrow> 'w sys \<Rightarrow> bool" for env where
  starts: "operates env (newReconciler w)"
| steps: "operates env s \<Longrightarrow> opStep env s t \<Longrightarrow> operates env t"

inductive_cases opStepE: "opStep env s t"

text \<open>A history predicate that \<open>Reconcile\<close> keeps holds in every reachable state.\<close>

lemma operates_history:
  assumes "\<And>req. hvalid H (Reconcile env req) (\<lambda>_. H) (\<lambda>_. H)" and "H []"
  shows "operates env s \<Longrightarrow> H (history s)"
proof (induction rule: operates.induct)
  case (starts w)
  then show ?case using assms(2) by (simp add: newReconciler_def)
next
  case (steps s t)
  from steps.hyps(2) show ?case
  proof (cases rule: opStep.cases)
    case (reconciles req r)
    show ?thesis using hvalidD [OF assms(1) [of req] steps.IH] reconciles by (cases r) simp_all
  next
    case (worldMoves w)
    with steps.IH show ?thesis by simp
  qed
qed

section \<open>The pools through a reconciliation\<close>

lemma grown_Reconcile: "preserves (grown s0) (Reconcile env req)"
  unfolding Reconcile_def reconcileScale_def orRequeue_def createResources_def brokerAndCoordinatorReady_def
    createBroker_def getOrCreateBrokerService_def getOrCreateBrokerStatefulSet_def brokerReady_def
    broker_getServiceEndpointsNum_def reconcileMaster_def getCurrentMaster_def masterCandidates_def
    maxEpochLoop_def setMasterBrokerStatus_def
    createCoordinator_def getOrCreateCoordinatorService_def getOrCreateCoordinatorStatefulSet_def
    coordinatorReady_def coordinator_getServiceEndpointsNum_def configSetBroker_def
    coordinatorClientPool_setBrokerAddress_def coordinatorClient_setBrokerAddress_def
    createStorage_def getOrCreateStorageService_def getOrCreateStorageStatefulSet_def
    updateStorageStatefulSet_def scaleDownStorageStatefulSet_def storageAllReady_def
    storage_getServiceEndpointsNum_def storageAllReadyAndStable_def storage_getServerProxies_def
    getMaxEpoch_def serverProxyClientPool_getEpoch_def serverProxyClient_getEpoch_def
    reconcileMeta_def meta_setBrokerReplicas_def reconcileServerProxyRegistry_def registerServerProxies_def
    deregisterServerProxies_def meta_createCluster_def meta_getClusterInfo_def changeMeta_def
    changeNodeNumber_def fixBrokerEpoch_def brokerClient_defs Let_def
  by (intro preserves_intros offWorld_grown)

lemma operates_sysInv: "operates env s \<Longrightarrow> sysInv s"
proof (induction rule: operates.induct)
  case (starts w)
  then show ?case by (simp add: newReconciler_def sysInv_def newCoordinatorClientPool_def newServerProxyClientPool_def
        newRedisClientPool_def poolInv_def)
next
  case (steps s t)
  from steps.hyps(2) show ?case
  proof (cases rule: opStep.cases)
    case (reconciles req r)
    have "grown s t"
      by (rule preservesD [OF grown_Reconcile _ reconciles]) (simp add: grown_refl steps.IH)
    then show ?thesis by (simp add: grown_def)
  next
    case (worldMoves w)
    with steps.IH show ?thesis by (simp add: sysInv_def)
  qed
qed

end
