(* ===== verification/Manager.thy ===== *)
theory Manager
  imports Operator
begin

text \<open>
  \<open>cmd/manager/main.go\<close>, \<open>pkg/controller/controller.go\<close>, \<open>pkg/controller/add_undermoon.go\<close> and
  \<open>Add\<close>/\<open>add\<close> of \<open>undermoon_controller.go\<close>: the start of the process. The libraries it calls
  (operator-sdk, controller-runtime, client-go) are the record \<open>libs\<close>; their handles (the REST
  configuration, the kinds of the scheme, a metrics service) are never looked into and are type
  parameters. \<open>os.Exit\<close> is the exit status that \<open>main\<close> returns; the call of \<open>mgr.Start\<close> returns when
  the process is told to stop.
\<close>

section \<open>Text\<close>

text \<open>\<open>strings.Split\<close> with a separator of one byte, and its inverse.\<close>

fun Split :: "string \<Rightarrow> char \<Rightarrow> string list" where
  "Split [] c = [[]]"
| "Split (x # xs) c = (if x = c then [] # Split xs c else
     (case Split xs c of [] \<Rightarrow> [[x]] | p # ps \<Rightarrow> (x # p) # ps))"

fun Join :: "string list \<Rightarrow> char \<Rightarrow> string" where
  "Join [] c = []"
| "Join [p] c = p"
| "Join (p # ps) c = p @ c # Join ps c"

lemma Split_not_Nil [simp]: "Split s c \<noteq> []"
  by (cases s) (auto split: list.splits)

lemma Split_no_sep: "c \<notin> set s \<Longrightarrow> Split s c = [s]"
  by (induction s) auto

lemma Split_append: "c \<notin> set p \<Longrightarrow> Split (p @ c # s) c = p # Split s c"
  by (induction p) auto

lemma Split_Join: "ps \<noteq> [] \<Longrightarrow> \<forall>p \<in> set ps. c \<notin> set p \<Longrightarrow> Split (Join ps c) c = ps"
  by (induction ps c rule: Join.induct) (auto simp: Split_no_sep Split_append)

lemma Join_sep: "\<forall>p \<in> set ps. c \<notin> set p \<Longrightarrow> c \<in> set (Join ps c) \<longleftrightarrow> 2 \<le> length ps"
  by (induction ps c rule: Join.induct) auto

section \<open>The libraries\<close>

text \<open>The options of the manager that the code sets; \<open>NewCache\<close> is \<open>Some ns\<close> for
  \<open>cache.MultiNamespacedCacheBuilder(ns)\<close> and \<open>None\<close> for the default.\<close>

record managerOptions =
  opt_Namespace :: string
  MetricsBindAddress :: string
  NewCache :: "string list option"

datatype watchKind = KindUndermoon | KindStatefulSet

datatype eventHandler =
    EnqueueRequestForObject
  | EnqueueRequestForOwner bool watchKind  \<comment> \<open>\<open>IsController\<close> and \<open>OwnerType\<close>\<close>

record metricsPortSpec =
  mp_Port :: i32
  mp_Name :: string
  mp_Protocol :: string
  mp_TargetPort :: i32

text \<open>The calls of the start-up; the trace keeps each with its error.\<close>

datatype startCall =
    CGetWatchNamespace
  | CGetConfig
  | CBecome string
  | CNewManager managerOptions
  | CAddToScheme
  | CNewController string
  | CWatch watchKind eventHandler
  | CGetOperatorNamespace
  | CGetGVKs
  | CGetNamespacesForMetrics string
  | CServeMetrics "string list" string i32
  | CCreateMetricsService "metricsPortSpec list"
  | CCreateServiceMonitors string
  | CStart

record ('w, 'c, 'g, 's) libs =
  L_GetWatchNamespace :: "'w \<Rightarrow> (goerr + string) \<times> 'w"
  L_GetConfig :: "'w \<Rightarrow> (goerr + 'c) \<times> 'w"
  L_Become :: "string \<Rightarrow> 'w \<Rightarrow> (goerr + unit) \<times> 'w"
  L_NewManager :: "'c \<Rightarrow> managerOptions \<Rightarrow> 'w \<Rightarrow> (goerr + unit) \<times> 'w"
  L_AddToScheme :: "'w \<Rightarrow> (goerr + unit) \<times> 'w"
  L_NewController :: "string \<Rightarrow> 'w sys \<Rightarrow> 'w \<Rightarrow> (goerr + unit) \<times> 'w"
  L_Watch :: "watchKind \<Rightarrow> eventHandler \<Rightarrow> 'w \<Rightarrow> (goerr + unit) \<times> 'w"
  L_GetOperatorNamespace :: "'w \<Rightarrow> (goerr + string) \<times> 'w"
  L_ErrRunLocal :: "goerr \<Rightarrow> bool"  \<comment> \<open>\<open>errors.Is(err, k8sutil.ErrRunLocal)\<close>\<close>
  L_GetGVKs :: "'w \<Rightarrow> (goerr + 'g) \<times> 'w"
  L_GetNamespacesForMetrics :: "string \<Rightarrow> 'w \<Rightarrow> (goerr + string list) \<times> 'w"
  L_ServeMetrics :: "'c \<Rightarrow> string list \<Rightarrow> 'g \<Rightarrow> string \<Rightarrow> i32 \<Rightarrow> 'w \<Rightarrow> (goerr + unit) \<times> 'w"
  L_CreateMetricsService :: "'c \<Rightarrow> metricsPortSpec list \<Rightarrow> 'w \<Rightarrow> (goerr + 's) \<times> 'w"
  L_CreateServiceMonitors :: "'c \<Rightarrow> string \<Rightarrow> 's option list \<Rightarrow> 'w \<Rightarrow> (goerr + unit) \<times> 'w"
  L_Start :: "'w \<Rightarrow> (goerr + unit) \<times> 'w"
  OperatorPortName :: string
  CRPortName :: string

record 'w proc =
  p_world :: 'w
  trace :: "(startCall \<times> goerr option) list"  \<comment> \<open>newest first\<close>

type_synonym ('w, 'a) startup = "('w proc, goerr, 'a) gom"

definition errOf :: "goerr + 'a \<Rightarrow> goerr option" where
  "errOf r = (case r of Inl e \<Rightarrow> Some e | Inr _ \<Rightarrow> None)"

definition libCall :: "startCall \<Rightarrow> ('w \<Rightarrow> (goerr + 'a) \<times> 'w) \<Rightarrow> ('w, 'a) startup" where
  "libCall c f = (\<lambda>s. case f (p_world s) of (r, w) \<Rightarrow>
     liftM r (s\<lparr>p_world := w, trace := (c, errOf r) # trace s\<rparr>))"

section \<open>Registration of the controller\<close>

text \<open>\<open>add\<close>: a controller for the reconciler \<open>r\<close>, a watch on the resources, a watch on the StatefulSets they own.\<close>

definition add :: "('w, 'c, 'g, 's) libs \<Rightarrow> 'w sys \<Rightarrow> ('w, unit) startup" where
  "add libs r =
     bindM (libCall (CNewController ''undermoon-controller'') (L_NewController libs ''undermoon-controller'' r)) (\<lambda>_.
     bindM (libCall (CWatch KindUndermoon EnqueueRequestForObject) (L_Watch libs KindUndermoon EnqueueRequestForObject)) (\<lambda>_.
     bindM (libCall (CWatch KindStatefulSet (EnqueueRequestForOwner True KindUndermoon))
       (L_Watch libs KindStatefulSet (EnqueueRequestForOwner True KindUndermoon))) (\<lambda>_.
     returnM ())))"

text \<open>\<open>Add\<close> gives \<open>add\<close> a fresh reconciler, the start of the theory \<open>Operator\<close>.\<close>

definition Add :: "('w, 'c, 'g, 's) libs \<Rightarrow> ('w, unit) startup" where
  "Add libs = (\<lambda>s. add libs (newReconciler (p_world s)) s)"

text \<open>\<open>init\<close> of \<open>add_undermoon.go\<close> puts the one function \<open>undermoon.Add\<close> on the list.\<close>

definition AddToManagerFuncs :: "('w, 'c, 'g, 's) libs \<Rightarrow> ('w, unit) startup list" where
  "AddToManagerFuncs libs = [Add libs]"

definition AddToManager :: "('w, 'c, 'g, 's) libs \<Rightarrow> ('w, unit) startup" where
  "AddToManager libs = forM (AddToManagerFuncs libs) (\<lambda>f. f)"

section \<open>Metrics\<close>

definition metricsHost :: string where
  "metricsHost = ''0.0.0.0''"

definition metricsPort :: i32 where
  "metricsPort = 8383"

definition operatorMetricsPort :: i32 where
  "operatorMetricsPort = 8686"

definition serveCRMetrics :: "('w, 'c, 'g, 's) libs \<Rightarrow> 'c \<Rightarrow> string \<Rightarrow> ('w, unit) startup" where
  "serveCRMetrics libs cfg operatorNs =
     bindM (libCall CGetGVKs (L_GetGVKs libs)) (\<lambda>filteredGVK.
     bindM (libCall (CGetNamespacesForMetrics operatorNs) (L_GetNamespacesForMetrics libs operatorNs)) (\<lambda>ns.
     bindM (libCall (CServeMetrics ns metricsHost operatorMetricsPort)
       (L_ServeMetrics libs cfg ns filteredGVK metricsHost operatorMetricsPort)) (\<lambda>_.
     returnM ())))"

text \<open>An error of \<open>GetOperatorNamespace\<close> other than \<open>ErrRunLocal\<close> is dropped, and the code goes on
  with the empty namespace; all other errors are only logged.\<close>

definition addMetrics :: "('w, 'c, 'g, 's) libs \<Rightarrow> 'c \<Rightarrow> ('w, unit) startup" where
  "addMetrics libs cfg =
     bindM (tryM (libCall CGetOperatorNamespace (L_GetOperatorNamespace libs))) (\<lambda>r.
     if (case r of Inl e \<Rightarrow> L_ErrRunLocal libs e | Inr _ \<Rightarrow> False) then returnM ()
     else
       let operatorNs = (case r of Inl _ \<Rightarrow> '''' | Inr ns \<Rightarrow> ns);
           servicePorts = [
             \<lparr>mp_Port = metricsPort, mp_Name = OperatorPortName libs, mp_Protocol = ''TCP'', mp_TargetPort = metricsPort\<rparr>,
             \<lparr>mp_Port = operatorMetricsPort, mp_Name = CRPortName libs, mp_Protocol = ''TCP'', mp_TargetPort = operatorMetricsPort\<rparr>]
       in
       bindM (tryM (serveCRMetrics libs cfg operatorNs)) (\<lambda>_.
       bindM (tryM (libCall (CCreateMetricsService servicePorts) (L_CreateMetricsService libs cfg servicePorts))) (\<lambda>r.
       let services = [case r of Inl _ \<Rightarrow> None | Inr service \<Rightarrow> Some service] in
       bindM (tryM (libCall (CCreateServiceMonitors operatorNs) (L_CreateServiceMonitors libs cfg operatorNs services))) (\<lambda>_.
       returnM ()))))"

section \<open>The main function\<close>

definition managerOptionsFor :: "string \<Rightarrow> managerOptions" where
  "managerOptionsFor namespace =
     (let options = \<lparr>opt_Namespace = namespace,
            MetricsBindAddress = metricsHost @ '':'' @ itoa (sint metricsPort), NewCache = None\<rparr>
      in if CHR '','' \<in> set namespace
         then options\<lparr>opt_Namespace := '''', NewCache := Some (Split namespace CHR '','')\<rparr>
         else options)"

text \<open>\<open>if err != nil { log.Error(err, ...); os.Exit(1) }\<close>\<close>

definition orExit :: "('w, 'a) startup \<Rightarrow> ('a \<Rightarrow> ('w, nat) startup) \<Rightarrow> ('w, nat) startup" where
  "orExit m k = bindM (tryM m) (\<lambda>r. case r of Inl _ \<Rightarrow> returnM 1 | Inr x \<Rightarrow> k x)"

definition main :: "('w, 'c, 'g, 's) libs \<Rightarrow> ('w, nat) startup" where
  "main libs =
     orExit (libCall CGetWatchNamespace (L_GetWatchNamespace libs)) (\<lambda>namespace.
     orExit (libCall CGetConfig (L_GetConfig libs)) (\<lambda>cfg.
     orExit (libCall (CBecome ''undermoon-operator-lock'') (L_Become libs ''undermoon-operator-lock'')) (\<lambda>_.
     let options = managerOptionsFor namespace in
     orExit (libCall (CNewManager options) (L_NewManager libs cfg options)) (\<lambda>_.
     orExit (libCall CAddToScheme (L_AddToScheme libs)) (\<lambda>_.
     orExit (AddToManager libs) (\<lambda>_.
     bindM (addMetrics libs cfg) (\<lambda>_.
     orExit (libCall CStart (L_Start libs)) (\<lambda>_.
     returnM 0))))))))"

section \<open>The order of the start-up\<close>

text \<open>The calls that must succeed, in their order, for a given watch namespace. The calls for the
  metrics come before the last one and may fail.\<close>

definition startPlan :: "string \<Rightarrow> startCall list" where
  "startPlan namespace = [CGetWatchNamespace, CGetConfig, CBecome ''undermoon-operator-lock'',
     CNewManager (managerOptionsFor namespace), CAddToScheme, CNewController ''undermoon-controller'',
     CWatch KindUndermoon EnqueueRequestForObject, CWatch KindStatefulSet (EnqueueRequestForOwner True KindUndermoon), CStart]"

fun forMetrics :: "startCall \<Rightarrow> bool" where
  "forMetrics CGetOperatorNamespace = True"
| "forMetrics CGetGVKs = True"
| "forMetrics (CGetNamespacesForMetrics _) = True"
| "forMetrics (CServeMetrics _ _ _) = True"
| "forMetrics (CCreateMetricsService _) = True"
| "forMetrics (CCreateServiceMonitors _) = True"
| "forMetrics _ = False"

abbreviation required :: "'w proc \<Rightarrow> (startCall \<times> goerr option) list" where
  "required s \<equiv> filter (\<lambda>(c, _). \<not> forMetrics c) (rev (trace s))"

text \<open>The first \<open>k\<close> calls of the plan were made and succeeded.\<close>

abbreviation passed :: "nat \<Rightarrow> string \<Rightarrow> 'w proc \<Rightarrow> bool" where
  "passed k ns s \<equiv> required s = map (\<lambda>c. (c, None)) (take k (startPlan ns))"

text \<open>The process ended at the first call of the plan that failed, or after the last.\<close>

definition stoppedAt :: "string \<Rightarrow> nat \<Rightarrow> 'w proc \<Rightarrow> bool" where
  "stoppedAt ns status s \<longleftrightarrow>
     (status = 0 \<and> passed (length (startPlan ns)) ns s) \<or>
     (status = 1 \<and> (\<exists>k e. k < length (startPlan ns) \<and>
        required s = map (\<lambda>c. (c, None)) (take k (startPlan ns)) @ [(startPlan ns ! k, Some e)]))"

lemma libCall_passes:
  fixes f :: "'w \<Rightarrow> (goerr + 'a) \<times> 'w"
  assumes "k' = Suc k" and "k < length (startPlan ns)" and "c = startPlan ns ! k" and "\<not> forMetrics c"
  shows "valid (passed k ns) (libCall c f) (\<lambda>_. passed k' ns) (\<lambda>e s. e \<noteq> None \<and> stoppedAt ns 1 s)"
  unfolding valid_def
proof (intro allI impI)
  fix s :: "'w proc" assume s: "passed k ns s"
  obtain r w where f: "f (p_world s) = (r, w)" by fastforce
  show "case libCall c f s of (Ok x, s') \<Rightarrow> passed k' ns s'
    | (Err e, s') \<Rightarrow> Some e \<noteq> None \<and> stoppedAt ns 1 s' | (Panic p, s') \<Rightarrow> None \<noteq> None \<and> stoppedAt ns 1 s'"
  proof (cases r)
    case (Inl e)
    with f s assms have "stoppedAt ns 1 (s\<lparr>p_world := w, trace := (c, Some e) # trace s\<rparr>)"
      unfolding stoppedAt_def by (intro disjI2 conjI refl exI [of _ k] exI [of _ e]) simp_all
    with f Inl show ?thesis by (simp add: libCall_def liftM_def errOf_def throwM_def)
  next
    case (Inr x)
    with f s assms show ?thesis
      by (simp add: libCall_def liftM_def errOf_def returnM_def take_Suc_conv_app_nth)
  qed
qed


lemma plan_calls:
  "valid (passed 1 ns) (libCall CGetConfig f1) (\<lambda>_. passed 2 ns) (\<lambda>e s. e \<noteq> None \<and> stoppedAt ns 1 s)"
  "valid (passed 2 ns) (libCall (CBecome ''undermoon-operator-lock'') f2) (\<lambda>_. passed 3 ns) (\<lambda>e s. e \<noteq> None \<and> stoppedAt ns 1 s)"
  "valid (passed 3 ns) (libCall (CNewManager (managerOptionsFor ns)) f3) (\<lambda>_. passed 4 ns) (\<lambda>e s. e \<noteq> None \<and> stoppedAt ns 1 s)"
  "valid (passed 4 ns) (libCall CAddToScheme f4) (\<lambda>_. passed 5 ns) (\<lambda>e s. e \<noteq> None \<and> stoppedAt ns 1 s)"
  "valid (passed 5 ns) (libCall (CNewController ''undermoon-controller'') f5) (\<lambda>_. passed 6 ns) (\<lambda>e s. e \<noteq> None \<and> stoppedAt ns 1 s)"
  "valid (passed 6 ns) (libCall (CWatch KindUndermoon EnqueueRequestForObject) f6) (\<lambda>_. passed 7 ns) (\<lambda>e s. e \<noteq> None \<and> stoppedAt ns 1 s)"
  "valid (passed 7 ns) (libCall (CWatch KindStatefulSet (EnqueueRequestForOwner True KindUndermoon)) f7) (\<lambda>_. passed 8 ns)
     (\<lambda>e s. e \<noteq> None \<and> stoppedAt ns 1 s)"
  "valid (passed 8 ns) (libCall CStart f8) (\<lambda>_. passed 9 ns) (\<lambda>e s. e \<noteq> None \<and> stoppedAt ns 1 s)"
  by (rule libCall_passes; simp add: startPlan_def)+

lemma orExit_Ok: "m s = (Ok x, t) \<Longrightarrow> orExit m k s = k x t"
  by (simp add: orExit_def bindM_def tryM_def)

lemma orExit_passes:
  assumes "valid P m (\<lambda>_. R) (\<lambda>e s. e \<noteq> None \<and> stoppedAt ns 1 s)" and "\<And>x. valid R (k x) (stoppedAt ns) (\<lambda>_ _. False)"
  shows "valid P (orExit m k) (stoppedAt ns) (\<lambda>_ _. False)"
proof -
  have "valid P (tryM m) (\<lambda>r s. case r of Inl _ \<Rightarrow> stoppedAt ns 1 s | Inr _ \<Rightarrow> R s) (\<lambda>_ _. False)"
    by (rule valid_try, rule valid_conseq [OF assms(1)]) (auto split: option.splits)
  then show ?thesis
    unfolding orExit_def
    by (rule valid_bind) (auto intro!: valid_return assms(2) split: sum.split)
qed

text \<open>The calls for the metrics leave the required calls alone, whatever they answer.\<close>

lemma metrics_call: "forMetrics c \<Longrightarrow> valid (passed k ns) (tryM (libCall c f)) (\<lambda>_. passed k ns) (\<lambda>_ _. False)"
  by (auto simp: valid_def tryM_def libCall_def liftM_def throwM_def returnM_def split: prod.splits sum.splits)

lemma serve_passes: "valid (passed k ns) (tryM (serveCRMetrics libs cfg ons)) (\<lambda>_. passed k ns) (\<lambda>_ _. False)"
proof -
  have call: "valid (passed k ns) (libCall c f) (\<lambda>_. passed k ns) (\<lambda>e s. e \<noteq> None \<and> passed k ns s)"
    if "forMetrics c" for c and f :: "'x \<Rightarrow> (goerr + 'y) \<times> 'x"
    using that by (auto simp: valid_def libCall_def liftM_def throwM_def returnM_def split: prod.splits sum.splits)
  have "valid (passed k ns) (serveCRMetrics libs cfg ons) (\<lambda>_. passed k ns) (\<lambda>e s. e \<noteq> None \<and> passed k ns s)"
    unfolding serveCRMetrics_def
    by (rule valid_bind [OF call], simp)+ (auto intro: valid_return)
  then show ?thesis
    by (intro valid_try) (erule valid_conseq, auto split: option.splits)
qed

lemma addMetrics_passes: "valid (passed k ns) (addMetrics libs cfg) (\<lambda>_. passed k ns) (\<lambda>_ _. False)"
  unfolding addMetrics_def Let_def
  by (rule valid_bind [OF metrics_call], simp, rule valid_if, rule valid_return, simp,
      rule valid_bind [OF serve_passes], (rule valid_bind [OF metrics_call], simp)+, rule valid_return)

lemma AddToManager_passes:
  "valid (passed 5 ns) (AddToManager libs) (\<lambda>_. passed 8 ns) (\<lambda>e s. e \<noteq> None \<and> stoppedAt ns 1 s)"
proof -
  have "valid (passed 5 ns) (add libs r) (\<lambda>_. passed 8 ns) (\<lambda>e s. e \<noteq> None \<and> stoppedAt ns 1 s)" for r
    unfolding add_def
    by (rule valid_bind [OF plan_calls(5)] valid_bind [OF plan_calls(6)] valid_bind [OF plan_calls(7)] valid_return | assumption)+
  then have "valid (passed 5 ns) (Add libs) (\<lambda>_. passed 8 ns) (\<lambda>e s. e \<noteq> None \<and> stoppedAt ns 1 s)"
    unfolding valid_def Add_def by simp
  then show ?thesis by (simp add: AddToManager_def AddToManagerFuncs_def)
qed

lemma main_run:
  assumes "trace s = []"
  shows "\<exists>status t. main libs s = (Ok status, t) \<and> (case fst (L_GetWatchNamespace libs (p_world s)) of
      Inl e \<Rightarrow> status = 1 \<and> trace t = [(CGetWatchNamespace, Some e)]
    | Inr ns \<Rightarrow> stoppedAt ns status t)"
proof -
  obtain r w where r: "L_GetWatchNamespace libs (p_world s) = (r, w)" by fastforce
  show ?thesis
  proof (cases r)
    case (Inl e)
    with r assms show ?thesis
      by (simp add: main_def orExit_def bindM_def tryM_def libCall_def liftM_def errOf_def throwM_def returnM_def)
  next
    case (Inr ns)
    let ?s = "s\<lparr>p_world := w, trace := [(CGetWatchNamespace, None)]\<rparr>"
    let ?rest = "orExit (libCall CGetConfig (L_GetConfig libs)) (\<lambda>cfg.
      orExit (libCall (CBecome ''undermoon-operator-lock'') (L_Become libs ''undermoon-operator-lock'')) (\<lambda>_.
      orExit (libCall (CNewManager (managerOptionsFor ns)) (L_NewManager libs cfg (managerOptionsFor ns))) (\<lambda>_.
      orExit (libCall CAddToScheme (L_AddToScheme libs)) (\<lambda>_.
      orExit (AddToManager libs) (\<lambda>_.
      bindM (addMetrics libs cfg) (\<lambda>_.
      orExit (libCall CStart (L_Start libs)) (\<lambda>_. returnM 0)))))))"
    have "main libs s = ?rest ?s"
      unfolding main_def Let_def
      by (rule orExit_Ok) (use r Inr assms in \<open>simp add: libCall_def liftM_def errOf_def returnM_def\<close>)
    moreover have "valid (passed 1 ns) ?rest (stoppedAt ns) (\<lambda>_ _. False)"
      by (rule orExit_passes [OF plan_calls(1)] orExit_passes [OF plan_calls(2)] orExit_passes [OF plan_calls(3)]
          orExit_passes [OF plan_calls(4)] orExit_passes [OF AddToManager_passes] valid_bind [OF addMetrics_passes]
          orExit_passes [OF plan_calls(8)] valid_return)+ (simp add: stoppedAt_def startPlan_def)
    moreover have "passed 1 ns ?s" by (simp add: startPlan_def)
    ultimately obtain status t where "main libs s = (Ok status, t)" "stoppedAt ns status t"
      using validD [of "passed 1 ns" ?rest "stoppedAt ns" "\<lambda>_ _. False" ?s]
      by (cases "?rest ?s" rule: prod.exhaust, cases "fst (?rest ?s)") auto
    with r Inr show ?thesis by simp
  qed
qed

section \<open>Properties\<close>

text \<open>Libraries that answer every call, for two namespaces, in a cluster without the metrics server.\<close>

definition simLibs :: "(unit, unit, unit, unit) libs" where
  "simLibs = \<lparr>L_GetWatchNamespace = (\<lambda>w. (Inr ''ns1,ns2'', w)), L_GetConfig = (\<lambda>w. (Inr (), w)),
     L_Become = (\<lambda>_ w. (Inr (), w)), L_NewManager = (\<lambda>_ _ w. (Inr (), w)), L_AddToScheme = (\<lambda>w. (Inr (), w)),
     L_NewController = (\<lambda>_ _ w. (Inr (), w)), L_Watch = (\<lambda>_ _ w. (Inr (), w)),
     L_GetOperatorNamespace = (\<lambda>w. (Inr ''ns1'', w)), L_ErrRunLocal = (\<lambda>_. False), L_GetGVKs = (\<lambda>w. (Inr (), w)),
     L_GetNamespacesForMetrics = (\<lambda>ns w. (Inr [ns], w)),
     L_ServeMetrics = (\<lambda>_ _ _ _ _ w. (Inl (ClientError ''no metrics''), w)),
     L_CreateMetricsService = (\<lambda>_ _ w. (Inl (ClientError ''no metrics''), w)),
     L_CreateServiceMonitors = (\<lambda>_ _ _ w. (Inl (ClientError ''no metrics''), w)),
     L_Start = (\<lambda>w. (Inr (), w)), OperatorPortName = ''http-metrics'', CRPortName = ''cr-metrics''\<rparr>"

definition simProc :: "unit proc" where
  "simProc = \<lparr>p_world = (), trace = []\<rparr>"

text \<open>C33: The process starts up in a fixed order and never skips a failed step: whatever the libraries answer, \<open>main\<close> returns,
  and apart from the calls for the metrics, which may fail, the calls it made are a prefix of the plan (watch
  namespace, configuration, leader election, manager, scheme, controller, both watches, start), of which all but the last
  succeeded; it exits with status 0 when all of the plan succeeded and with status 1 at the first failure. In particular
  the manager is started only by the leader and with the watches in place.\<close>

theorem startup_order:
  assumes "trace s = []"
  shows "\<exists>status t. main libs s = (Ok status, t) \<and> (case fst (L_GetWatchNamespace libs (p_world s)) of
      Inl e \<Rightarrow> status = 1 \<and> trace t = [(CGetWatchNamespace, Some e)]
    | Inr ns \<Rightarrow> stoppedAt ns status t)"
  by (rule main_run [OF assms])

theorem startup_order_witness:
  "trace simProc = [] \<and> (\<exists>status t. main simLibs simProc = (Ok status, t) \<and> stoppedAt ''ns1,ns2'' status t)"
  using startup_order [of simProc simLibs] by (simp add: simProc_def simLibs_def)

text \<open>Which objects the cache of a manager with these options holds: those of the listed namespaces when there is a
  list, otherwise those of the one namespace, where the empty name stands for all.\<close>

definition watches :: "managerOptions \<Rightarrow> string \<Rightarrow> bool" where
  "watches options ns = (case NewCache options of
     Some nss \<Rightarrow> ns \<in> set nss
   | None \<Rightarrow> opt_Namespace options = '''' \<or> ns = opt_Namespace options)"

text \<open>C34: The list of namespaces in \<open>WATCH_NAMESPACE\<close> is read back exactly: for any list of one or more names without
  commas and not empty, joined with commas, the manager watches these namespaces and no others.\<close>

theorem namespaces_watched:
  assumes "names \<noteq> []" and "\<forall>n \<in> set names. n \<noteq> '''' \<and> CHR '','' \<notin> set n"
  shows "watches (managerOptionsFor (Join names CHR '','')) ns \<longleftrightarrow> ns \<in> set names"
proof (cases "2 \<le> length names")
  case True
  then have "CHR '','' \<in> set (Join names CHR '','')" using assms(2) by (simp add: Join_sep)
  moreover have "Split (Join names CHR '','') CHR '','' = names" using assms by (intro Split_Join) auto
  ultimately show ?thesis by (simp add: watches_def managerOptionsFor_def)
next
  case False
  with assms(1) obtain n where "names = [n]" by (cases names) (auto simp: Suc_le_eq)
  with assms(2) show ?thesis by (auto simp: watches_def managerOptionsFor_def)
qed

theorem namespaces_watched_witness:
  "watches (managerOptionsFor ''ns1,ns2'') ''ns2'' \<and> \<not> watches (managerOptionsFor ''ns1,ns2'') ''ns1,ns2''"
  using namespaces_watched [of "[''ns1'', ''ns2'']" "''ns2''"] namespaces_watched [of "[''ns1'', ''ns2'']" "''ns1,ns2''"] by simp

end
