(* ===== verification/MigrationSafety.thy ===== *)
theory MigrationSafety
  imports CallRules
begin

text \<open>
  When the operator asks the broker to move slots to a new number of nodes, and which server
  proxies it removes from the broker's registry.
\<close>

section \<open>Moving slots\<close>

abbreviation scaleRequest :: "string \<Rightarrow> string \<Rightarrow> i64 \<Rightarrow> httpRequest" where
  "scaleRequest address clusterName nodeNumber \<equiv>
     (request POST (scaleUrl address clusterName nodeNumber))\<lparr>req_SetError := Some KErrorResponse\<rparr>"

text \<open>The request asks the master broker for four nodes per chunk of the resource at hand. It comes right after an
  endpoint lookup that showed all its storage pods, and that right after the report of the same broker that
  the cluster is not migrating.\<close>

definition scaleJustified :: "'w env \<Rightarrow> httpRequest \<Rightarrow> event list \<Rightarrow> bool" where
  "scaleJustified env q h \<longleftrightarrow> (\<exists>v m info. reportedReady env v info h \<and> \<not> IsMigrating info \<and> view_Master v = Some m \<and>
     q = scaleRequest m (ClusterName (Spec (view_Cr v))) (int_of_u32 (ChunkNumber (Spec (view_Cr v))) * chunkNodeNumber))"

definition scaleRule :: "'w env \<Rightarrow> event \<Rightarrow> event list \<Rightarrow> bool" where
  "scaleRule env e h \<longleftrightarrow> (case e of EvHttp q _ \<Rightarrow> isScale q \<longrightarrow> scaleJustified env q h | _ \<Rightarrow> True)"

definition migrationSafe :: "'w env \<Rightarrow> event list \<Rightarrow> bool" where
  "migrationSafe env h \<longleftrightarrow> justified (scaleRule env) 0 h"

text \<open>The calls that are no such request.\<close>

abbreviation noScale :: "event \<Rightarrow> bool" where
  "noScale e \<equiv> (\<forall>q r. e = EvHttp q r \<longrightarrow> \<not> isScale q)"

lemma noScale_ordinary: "emits m ordinary \<Longrightarrow> emits m noScale"
  by (erule emits_mono) (auto simp: ordinary_def)

lemma noScale_uses: "usesOnly m K \<Longrightarrow> KHttp \<notin> K \<Longrightarrow> emits m noScale"
  by (erule emits_mono) auto

lemma noScale_deregister: "emits (deregisterServerProxy env m a) noScale"
  unfolding deregisterServerProxy_def by (intro emits_intros) (simp add: isScale_def request_def)

lemma noScale_deregisterAll: "emits (deregisterServerProxies env m ps cr) noScale"
  unfolding deregisterServerProxies_def Let_def
  by (intro emits_intros noScale_deregister noScale_ordinary [OF ordinary_brokerClient(3)])

lemma scaleRule_other: "noScale e \<Longrightarrow> scaleRule env e h"
  by (cases e) (auto simp: scaleRule_def)

lemma migration_keep:
  assumes "emits m noScale"
  shows "hvalid (justified (scaleRule env) n) m (\<lambda>_. justified (scaleRule env) n) (\<lambda>_. justified (scaleRule env) n)"
  by (rule justified_emits [OF assms]) (rule scaleRule_other)

lemma changeNodeNumber_safe:
  assumes "\<not> IsMigrating info" and v: "view_Cr v = cr" "view_Master v = Some m"
  shows "hvalid (\<lambda>h. justified (scaleRule env) n h \<and> reportedReady env v info h) (changeNodeNumber env m cr)
    (\<lambda>_. justified (scaleRule env) n) (\<lambda>_. justified (scaleRule env) n)"
proof -
  let ?J = "justified (scaleRule env) n"
  have just: "scaleJustified env (scaleRequest m (ClusterName (Spec cr)) (int_of_u32 (ChunkNumber (Spec cr)) * chunkNodeNumber)) h"
    if "reportedReady env v info h" for h
    unfolding scaleJustified_def using that assms by (intro exI [of _ v] exI [of _ m] exI [of _ info]) simp
  have "hvalid (\<lambda>h. ?J h \<and> reportedReady env v info h)
      (scaleNodes env m (ClusterName (Spec cr)) (int_of_u32 (ChunkNumber (Spec cr)))) (\<lambda>_. ?J) (\<lambda>_. ?J)"
    unfolding scaleNodes_def http_def Let_def
    by (rule hvalid_bind [where R = "\<lambda>_. ?J"]) (auto intro!: hvalid_callE hrules just simp: scaleRule_def)
  then have scale: "hvalid (\<lambda>h. ?J h \<and> reportedReady env v info h)
      (tryM (scaleNodes env m (ClusterName (Spec cr)) (int_of_u32 (ChunkNumber (Spec cr))))) (\<lambda>_. ?J) (\<lambda>_. ?J)"
    by (intro hvalid_try, elim hvalid_post) (auto split: option.splits)
  note free = migration_keep [OF emits_try [OF noScale_ordinary [OF ordinary_brokerClient(8)]]]
  show ?thesis
    unfolding changeNodeNumber_def Let_def
    by (rule hvalid_bind [OF scale] hvalid_bind [OF free] hvalid_case_sum hvalid_if hvalid_return hvalid_throw | simp)+
qed

lemma changeMeta_safe:
  assumes v: "view_Cr v = cr" "view_Master v = Some m"
  shows "hvalid (\<lambda>h. justified (scaleRule env) n h \<and> reportedReady env v info h) (changeMeta env m cr info)
    (\<lambda>_. justified (scaleRule env) n) (\<lambda>_. justified (scaleRule env) n)"
proof (cases "IsMigrating info")
  case False
  have "hvalid (\<lambda>h. justified (scaleRule env) n h \<and> reportedReady env v info h) (tryM (changeNodeNumber env m cr))
      (\<lambda>_. justified (scaleRule env) n) (\<lambda>_. justified (scaleRule env) n)"
    by (intro hvalid_try hvalid_post [OF changeNodeNumber_safe [OF False v]]) (auto split: option.splits)
  then show ?thesis
    unfolding changeMeta_def if_not_P [OF False] by (rule hvalid_bind) (auto intro!: hrules)
qed (auto simp: changeMeta_def intro!: hrules)

interpretation mig: audit env "justified (scaleRule env) n" for env n
proof
  show "ordinary e \<Longrightarrow> justified (scaleRule env) n h \<Longrightarrow> justified (scaleRule env) n (e # h)" for e h
    by (cases e) (auto simp: ordinary_def scaleRule_def)
  show "hvalid (\<lambda>h. justified (scaleRule env) n h \<and> begun env k h0 cr h) (createStorage env cr)
      (\<lambda>_. justified (scaleRule env) n) (\<lambda>_. justified (scaleRule env) n)" for k h0 cr
    by (rule hvalid_pre [OF migration_keep [OF noScale_uses [OF uses_createStorage]]]) auto
  show "hvalid (\<lambda>h. justified (scaleRule env) n h \<and> viewOf env h = Some v) (deregisterServerProxies env m ps cr)
      (\<lambda>_. justified (scaleRule env) n) (\<lambda>_. justified (scaleRule env) n)" for v m ps cr
    by (rule hvalid_pre [OF migration_keep [OF noScale_deregisterAll]]) auto
  show "hvalid (\<lambda>h. justified (scaleRule env) n h \<and> reported env v info h) (scaleDownStorageStatefulSet env cr ss info)
      (\<lambda>_. justified (scaleRule env) n) (\<lambda>_. justified (scaleRule env) n)" for v info cr ss
    by (rule hvalid_pre [OF migration_keep [OF noScale_uses [OF uses_scaleDownStorageStatefulSet]]]) auto
qed (auto intro: changeMeta_safe)

section \<open>Removing server proxies\<close>

text \<open>The proxy removed is none of the pods that the resource at hand asks for, and the broker addressed is the master
  and listed it before.\<close>

definition removalJustified :: "'w env \<Rightarrow> httpRequest \<Rightarrow> event list \<Rightarrow> bool" where
  "removalJustified env q h \<longleftrightarrow> (\<exists>v m a res ps. viewOf env h = Some v \<and> view_Master v = Some m \<and> q = deregisterRequest m a \<and>
     a \<notin> set (genStorageStatefulSetAddrs (view_Cr v)) \<and>
     EvHttp (proxiesRequest m) (Inr res) \<in> set h \<and> resp_Result res = Some (PServerProxies ps) \<and> a \<in> set (Addresses ps))"

definition removalRule :: "'w env \<Rightarrow> event \<Rightarrow> event list \<Rightarrow> bool" where
  "removalRule env e h \<longleftrightarrow> (case e of EvHttp q _ \<Rightarrow> isDeregister q \<longrightarrow> removalJustified env q h | _ \<Rightarrow> True)"

definition registrySafe :: "'w env \<Rightarrow> event list \<Rightarrow> bool" where
  "registrySafe env h \<longleftrightarrow> justified (removalRule env) 0 h"

lemma removal_keep:
  assumes "emits m (\<lambda>e. \<forall>q r. e = EvHttp q r \<longrightarrow> \<not> isDeregister q)"
  shows "hvalid (justified (removalRule env) n) m (\<lambda>_. justified (removalRule env) n) (\<lambda>_. justified (removalRule env) n)"
  by (rule justified_emits [OF assms]) (auto simp: removalRule_def split: event.splits)

lemma removal_keep_uses:
  assumes "usesOnly m K" and "KHttp \<notin> K"
  shows "hvalid (justified (removalRule env) n) m (\<lambda>_. justified (removalRule env) n) (\<lambda>_. justified (removalRule env) n)"
  by (rule removal_keep [OF emits_mono [OF assms(1)]]) (use assms(2) in auto)

definition listed :: "string \<Rightarrow> string list \<Rightarrow> event list \<Rightarrow> bool" where
  "listed m as h \<longleftrightarrow> (\<exists>res ps. EvHttp (proxiesRequest m) (Inr res) \<in> set h \<and>
     resp_Result res = Some (PServerProxies ps) \<and> as = Addresses ps)"

lemma getServerProxies_listed:
  "hvalid (\<lambda>h. justified (removalRule env) n h \<and> viewOf env h = Some v) (brokerClient_getServerProxies env m)
     (\<lambda>as h. justified (removalRule env) n h \<and> viewOf env h = Some v \<and> listed m as h) (\<lambda>_. justified (removalRule env) n)"
  unfolding brokerClient_getServerProxies_def http_def
proof (rule hvalid_bind)
  show "hvalid (\<lambda>h. justified (removalRule env) n h \<and> viewOf env h = Some v) (callE (Http env (proxiesRequest m)) (EvHttp (proxiesRequest m)))
     (\<lambda>res h. justified (removalRule env) n h \<and> viewOf env h = Some v \<and> EvHttp (proxiesRequest m) (Inr res) \<in> set h)
     (\<lambda>_. justified (removalRule env) n)"
    by (intro hvalid_callE) (auto simp: removalRule_def isDeregister_def request_def)
qed (intro hrules; auto simp: listed_def elim!: asServerProxies_SomeE)

lemma deregisterServerProxies_safe:
  assumes v: "view_Cr v = cr" "view_Master v = Some m"
  shows "hvalid (\<lambda>h. justified (removalRule env) n h \<and> viewOf env h = Some v) (deregisterServerProxies env m ps cr)
    (\<lambda>_. justified (removalRule env) n) (\<lambda>_. justified (removalRule env) n)"
  unfolding deregisterServerProxies_def
proof (rule hvalid_bind [OF getServerProxies_listed])
  fix as
  let ?I = "\<lambda>h. justified (removalRule env) n h \<and> viewOf env h = Some v \<and> listed m as h"
  have one: "hvalid ?I (bindM (tryM (deregisterServerProxy env m a)) (\<lambda>_. returnM ())) (\<lambda>_. ?I) (\<lambda>_. justified (removalRule env) n)"
    if "a \<in> set as" "a \<notin> keepSet ps cr" for a
  proof (rule hvalid_bind [where R = "\<lambda>_. ?I"], rule hvalid_try, unfold deregisterServerProxy_def http_def, rule hvalid_bind)
    have "removalJustified env (deregisterRequest m a) h" if "viewOf env h = Some v" "listed m as h" for h
      using that v \<open>a \<in> set as\<close> \<open>a \<notin> keepSet ps cr\<close> unfolding removalJustified_def listed_def keepSet_def by blast
    then show "hvalid ?I (callE (Http env (deregisterRequest m a)) (EvHttp (deregisterRequest m a))) (\<lambda>_. ?I)
        (\<lambda>e h. case e of None \<Rightarrow> justified (removalRule env) n h | Some _ \<Rightarrow> ?I h)"
      by (intro hvalid_callE) (auto simp: listed_def removalRule_def)
  qed (intro hrules; simp)+
  show "hvalid ?I
      (let deleteList = filter (\<lambda>a. a \<notin> keepSet ps cr) as in
        forM deleteList (\<lambda>a. bindM (tryM (deregisterServerProxy env m a)) (\<lambda>_. returnM ())))
      (\<lambda>_. justified (removalRule env) n) (\<lambda>_. justified (removalRule env) n)"
    unfolding Let_def by (rule hvalid_post [OF hvalid_forM [OF one]]) auto
qed

lemma change_not_deregister:
  "emits (changeMeta env m cr info) (\<lambda>e. \<forall>q r. e = EvHttp q r \<longrightarrow> \<not> isDeregister q)"
  unfolding changeMeta_def changeNodeNumber_def scaleNodes_def removeFreeNodes_def Let_def
  by (intro emits_intros) (auto simp: isDeregister_def request_def)

interpretation dreg: audit env "justified (removalRule env) n" for env n
proof
  show "ordinary e \<Longrightarrow> justified (removalRule env) n h \<Longrightarrow> justified (removalRule env) n (e # h)" for e h
    by (cases e) (auto simp: ordinary_def removalRule_def)
  show "hvalid (\<lambda>h. justified (removalRule env) n h \<and> begun env k h0 cr h) (createStorage env cr)
      (\<lambda>_. justified (removalRule env) n) (\<lambda>_. justified (removalRule env) n)" for k h0 cr
    by (rule hvalid_pre [OF removal_keep_uses [OF uses_createStorage]]) auto
  show "hvalid (\<lambda>h. justified (removalRule env) n h \<and> reportedReady env v info h) (changeMeta env m cr info)
      (\<lambda>_. justified (removalRule env) n) (\<lambda>_. justified (removalRule env) n)" for v m info cr
    by (rule hvalid_pre [OF removal_keep [OF change_not_deregister]]) auto
  show "hvalid (\<lambda>h. justified (removalRule env) n h \<and> reported env v info h) (scaleDownStorageStatefulSet env cr ss info)
      (\<lambda>_. justified (removalRule env) n) (\<lambda>_. justified (removalRule env) n)" for v info ss cr
    by (rule hvalid_pre [OF removal_keep_uses [OF uses_scaleDownStorageStatefulSet]]) auto
qed (auto intro: deregisterServerProxies_safe)

end
