(* ===== verification/TrafficGate.thy ===== *)
theory TrafficGate
  imports CallRules
begin

text \<open>
  A reconciliation talks to brokers, coordinators and server proxies only after it has seen
  enough brokers and a coordinator behind their services.
\<close>

definition silent :: "event \<Rightarrow> bool" where
  "silent e \<longleftrightarrow> kind e \<notin> {KHttp, KRedis}"

text \<open>From \<open>h0\<close> to \<open>h\<close> no message was sent.\<close>

definition noTraffic :: "event list \<Rightarrow> event list \<Rightarrow> bool" where
  "noTraffic h0 h \<longleftrightarrow> (\<exists>es. h = es @ h0 \<and> (\<forall>e \<in> set es. silent e))"

definition seesAtLeast :: "nat \<Rightarrow> goerr + endpoints \<Rightarrow> bool" where
  "seesAtLeast n r \<longleftrightarrow> (\<exists>eps. readEndpoints r = Inr eps \<and> n \<le> length eps)"

text \<open>Before the first message two lookups in a row gave at least two addresses for the service
  \<open>k1\<close> (the brokers) and at least one for \<open>k2\<close> (the coordinators).\<close>

definition opened :: "event list \<Rightarrow> event list \<Rightarrow> bool" where
  "opened h0 h \<longleftrightarrow> (\<exists>es k2 r2 k1 r1 h1. h = es @ EvGetEndpoints k2 r2 # EvGetEndpoints k1 r1 # h1 \<and>
     noTraffic h0 h1 \<and> seesAtLeast 2 r1 \<and> seesAtLeast 1 r2)"

definition gated :: "event list \<Rightarrow> event list \<Rightarrow> bool" where
  "gated h0 h \<longleftrightarrow> noTraffic h0 h \<or> opened h0 h"

lemma noTraffic_refl: "noTraffic h h"
  by (simp add: noTraffic_def)

lemma noTraffic_Cons: "silent e \<Longrightarrow> noTraffic h0 h \<Longrightarrow> noTraffic h0 (e # h)"
  unfolding noTraffic_def by (metis append_Cons set_ConsD)

lemma opened_Cons: "opened h0 h \<Longrightarrow> opened h0 (e # h)"
  unfolding opened_def by (metis append_Cons)

lemma hvalid_quiet:
  assumes "usesOnly m K" and "KHttp \<notin> K" and "KRedis \<notin> K"
  shows "hvalid (noTraffic h0) m (\<lambda>_. noTraffic h0) (\<lambda>_. gated h0)"
proof -
  have "hvalid (noTraffic h0) m (\<lambda>_. noTraffic h0) (\<lambda>_. noTraffic h0)"
    by (rule hvalid_emits [OF assms(1)]) (use assms(2,3) in \<open>auto simp: silent_def intro!: noTraffic_Cons\<close>)
  then show ?thesis by (rule hvalid_post) (auto simp: gated_def)
qed

lemma hvalid_open:
  assumes "emits m A"
  shows "hvalid (opened h0) m (\<lambda>_. gated h0) (\<lambda>_. gated h0)"
proof -
  have "hvalid (opened h0) m (\<lambda>_. opened h0) (\<lambda>_. opened h0)"
    by (rule hvalid_emits [OF assms]) (rule opened_Cons)
  then show ?thesis by (rule hvalid_post) (auto simp: gated_def)
qed

text \<open>What the readiness checks have seen when they say yes.\<close>

lemma brokerReady_seen:
  "hvalid (\<lambda>h. h = h1) (brokerReady env ss svc)
     (\<lambda>b h. \<exists>r. h = EvGetEndpoints (svcKey svc) r # h1 \<and> (b \<longrightarrow> seesAtLeast 2 r)) (\<lambda>_ h. \<exists>r. h = EvGetEndpoints (svcKey svc) r # h1)"
  unfolding hvalid_def valid_def
proof (intro allI impI)
  fix s :: "'a sys" assume h: "history s = h1"
  obtain r w where r: "getEndpoints env (meta_Name (svc_Meta svc)) (meta_Namespace (svc_Meta svc)) s =
      (outcome (readEndpoints r), s\<lparr>world := w, history := EvGetEndpoints (svcKey svc) r # history s\<rparr>)"
    using getEndpoints_run [of env "meta_Name (svc_Meta svc)" "meta_Namespace (svc_Meta svc)" s] by blast
  with h show "case brokerReady env ss svc s of
      (Ok b, t) \<Rightarrow> \<exists>r. history t = EvGetEndpoints (svcKey svc) r # h1 \<and> (b \<longrightarrow> seesAtLeast 2 r)
    | (Err e, t) \<Rightarrow> \<exists>r. history t = EvGetEndpoints (svcKey svc) r # h1
    | (Panic p, t) \<Rightarrow> \<exists>r. history t = EvGetEndpoints (svcKey svc) r # h1"
    by (cases "readEndpoints r") (auto simp: brokerReady_def broker_getServiceEndpointsNum_def bindM_def returnM_def
        seesAtLeast_def sint_int_of_i32 brokerNum_def)
qed

lemma coordinatorReady_seen:
  "hvalid (\<lambda>h. h = h1) (coordinatorReady env ss svc)
     (\<lambda>b h. \<exists>r. h = EvGetEndpoints (svcKey svc) r # h1 \<and> (b \<longrightarrow> seesAtLeast 1 r)) (\<lambda>_ h. \<exists>r. h = EvGetEndpoints (svcKey svc) r # h1)"
  unfolding hvalid_def valid_def
proof (intro allI impI)
  fix s :: "'a sys" assume h: "history s = h1"
  obtain r w where r: "getEndpoints env (meta_Name (svc_Meta svc)) (meta_Namespace (svc_Meta svc)) s =
      (outcome (readEndpoints r), s\<lparr>world := w, history := EvGetEndpoints (svcKey svc) r # history s\<rparr>)"
    using getEndpoints_run [of env "meta_Name (svc_Meta svc)" "meta_Namespace (svc_Meta svc)" s] by blast
  with h show "case coordinatorReady env ss svc s of
      (Ok b, t) \<Rightarrow> \<exists>r. history t = EvGetEndpoints (svcKey svc) r # h1 \<and> (b \<longrightarrow> seesAtLeast 1 r)
    | (Err e, t) \<Rightarrow> \<exists>r. history t = EvGetEndpoints (svcKey svc) r # h1
    | (Panic p, t) \<Rightarrow> \<exists>r. history t = EvGetEndpoints (svcKey svc) r # h1"
    by (cases "readEndpoints r") (auto simp: coordinatorReady_def coordinator_getServiceEndpointsNum_def bindM_def returnM_def
        seesAtLeast_def)
qed

lemma noTraffic_lookup: "noTraffic h0 h \<Longrightarrow> noTraffic h0 (EvGetEndpoints k r # h)"
  by (auto intro!: noTraffic_Cons simp: silent_def)

lemma opened_lookups:
  "noTraffic h0 h1 \<Longrightarrow> seesAtLeast 2 r1 \<Longrightarrow> seesAtLeast 1 r2 \<Longrightarrow> opened h0 (EvGetEndpoints k2 r2 # EvGetEndpoints k1 r1 # h1)"
  unfolding opened_def by (metis append_Nil)

lemma ready_opens:
  "hvalid (noTraffic h0) (brokerAndCoordinatorReady env resource)
     (\<lambda>b h. (b \<longrightarrow> opened h0 h) \<and> (\<not> b \<longrightarrow> noTraffic h0 h)) (\<lambda>_. gated h0)"
proof (rule hvalid_at)
  fix h1 assume h1: "noTraffic h0 h1"
  have cd: "hvalid (\<lambda>h. \<exists>r1. h = EvGetEndpoints k1 r1 # h1 \<and> seesAtLeast 2 r1)
      (bindM (coordinatorReady env ss svc) (\<lambda>ready. if \<not> ready then returnM False else returnM True))
      (\<lambda>b h. (b \<longrightarrow> opened h0 h) \<and> (\<not> b \<longrightarrow> noTraffic h0 h)) (\<lambda>_. gated h0)" for k1 ss svc
  proof (rule hvalid_at, elim exE conjE)
    fix h2 r1 assume h2: "h2 = EvGetEndpoints k1 r1 # h1" "seesAtLeast 2 r1"
    show "hvalid (\<lambda>h. h = h2) (bindM (coordinatorReady env ss svc) (\<lambda>ready. if \<not> ready then returnM False else returnM True))
        (\<lambda>b h. (b \<longrightarrow> opened h0 h) \<and> (\<not> b \<longrightarrow> noTraffic h0 h)) (\<lambda>_. gated h0)"
      by (rule hvalid_bind [OF hvalid_post [OF coordinatorReady_seen]], assumption)
        (use h1 h2 in \<open>auto intro!: hrules opened_lookups noTraffic_lookup simp: gated_def\<close>)
  qed
  show "hvalid (\<lambda>h. h = h1) (brokerAndCoordinatorReady env resource)
     (\<lambda>b h. (b \<longrightarrow> opened h0 h) \<and> (\<not> b \<longrightarrow> noTraffic h0 h)) (\<lambda>_. gated h0)"
    unfolding brokerAndCoordinatorReady_def
    by (rule hvalid_bind [OF hvalid_post [OF brokerReady_seen]], assumption)
      (use h1 in \<open>auto intro!: hrules noTraffic_lookup hvalid_pre [OF cd] simp: gated_def\<close>)
qed

lemma emits_rest:
  "emits (reconcileScale env resource cr m rs b info) (\<lambda>_. True)"
  unfolding reconcileScale_def
  by (intro emits_intros emits_mono [OF uses_storageAllReadyAndStable] emits_mono [OF uses_changeMeta]
      emits_mono [OF uses_reconcileMeta] emits_mono [OF uses_scaleDownStorageStatefulSet] TrueI)

lemma Reconcile_gated:
  "hvalid (\<lambda>h. h = h0) (Reconcile env req) (\<lambda>_. gated h0) (\<lambda>_. gated h0)"
proof -
  have get: "hvalid (\<lambda>h. h = h0) (tryM (getUndermoon env k)) (\<lambda>_. noTraffic h0) (\<lambda>_. gated h0)" for k
    unfolding getUndermoon_def
    by (auto intro!: hvalid_try hvalid_callE noTraffic_Cons noTraffic_refl simp: silent_def)
  have rest: "emits (orRequeue (reconcileMaster env cr (brokerService resource)) (\<lambda>(cr, m, rs).
      bindM (configSetBroker env cr (coordinatorService resource) m) (\<lambda>_.
      bindM (getMaxEpoch env (storageService resource) cr) (\<lambda>e.
      bindM (fixBrokerEpoch env m e) (\<lambda>_.
      bindM (storage_getServerProxies env (storageService resource) cr) (\<lambda>ps.
      bindM (storageAllReady env (storageService resource) cr) (\<lambda>b.
      orRequeue (reconcileMeta env m rs ps cr b) (\<lambda>info.
      reconcileScale env resource cr m rs b info)))))))) (\<lambda>_. True)" for cr resource
    by (intro emits_intros emits_mono [OF uses_reconcileMaster] emits_mono [OF uses_configSetBroker]
        emits_mono [OF uses_getMaxEpoch] emits_mono [OF uses_fixBrokerEpoch] emits_mono [OF uses_storage_getServerProxies]
        emits_mono [OF uses_storageAllReady] emits_mono [OF uses_reconcileMeta] emits_rest TrueI)
  have closed: "hvalid (noTraffic h0) (returnM x) (\<lambda>_. gated h0) (\<lambda>_. gated h0)"
    "hvalid (noTraffic h0) (throwM e) (\<lambda>_. gated h0) (\<lambda>_. gated h0)" for x :: reconcileResult and e
    by (auto intro!: hrules simp: gated_def)
  have after: "hvalid (\<lambda>h. (b \<longrightarrow> opened h0 h) \<and> (\<not> b \<longrightarrow> noTraffic h0 h))
      (if \<not> b then returnM (requeueAfter 3) else m) (\<lambda>_. gated h0) (\<lambda>_. gated h0)"
    if "emits m (\<lambda>_. True)" for b and m :: "('w, reconcileResult) op"
    using closed hvalid_open [OF that] by (cases b) simp_all
  show ?thesis
    unfolding Reconcile_def
    by (rule hvalid_bind [OF get] hvalid_case_sum hvalid_if closed
        hvalid_orRequeue_inv [OF hvalid_quiet [OF uses_createResources]]
        hvalid_bind [OF ready_opens] after rest | simp)+
qed

end
