(* ===== verification/Simulation.thy ===== *)
theory Simulation
  imports Utils
begin

text \<open>
  A small simulated cluster: an environment with concrete answers. It shows that the hypotheses of
  the properties can hold, and lets the operations be evaluated. Its world is the replica count of
  the storage StatefulSet; everything the other parts answer is fixed by a record.
\<close>

record sim =
  sim_Cr :: undermoon
  sim_Epoch :: "string \<Rightarrow> string"  \<comment> \<open>the body of the answer to a GET without a result type\<close>
  sim_Replicas :: "string \<Rightarrow> string list"  \<comment> \<open>the replica addresses of the broker asked\<close>
  sim_Proxies :: "string list"  \<comment> \<open>the proxies the broker knows\<close>
  sim_Info :: clusterInfo
  sim_ProxyEpoch :: "string \<Rightarrow> i64"

definition simMeta :: "string \<Rightarrow> string \<Rightarrow> objectMeta" where
  "simMeta n ns = \<lparr>meta_Name = n, meta_Namespace = ns, meta_Labels = Map.empty,
     meta_OwnerReferences = [], meta_ResourceVersion = ''''\<rparr>"

definition simService :: "namespacedName \<Rightarrow> service" where
  "simService k = \<lparr>svc_Meta = simMeta (nn_Name k) (nn_Namespace k), svc_Ports = [],
     svc_ClusterIP = ''None'', svc_Selector = Map.empty, svc_PublishNotReadyAddresses = True\<rparr>"

definition simStatefulSet :: "namespacedName \<Rightarrow> i32 \<Rightarrow> statefulSet" where
  "simStatefulSet k n = \<lparr>ss_Kind = ''StatefulSet'', ss_APIVersion = ''apps/v1'',
     ss_Meta = simMeta (nn_Name k) (nn_Namespace k), ss_Selector = Map.empty, ss_ServiceName = '''',
     ss_Replicas = Some n,
     ss_Template = \<lparr>tpl_Labels = Map.empty, tpl_Containers = [], tpl_Affinity = []\<rparr>,
     ss_PodManagementPolicy = ''Parallel'',
     ss_StatusReplicas = n, ss_StatusReadyReplicas = n, ss_StatusCurrentReplicas = n\<rparr>"

text \<open>The pods behind a service \<open>x-svc\<close> are \<open>x-ss-0\<close> and \<open>x-ss-1\<close>.\<close>

definition simHosts :: "string \<Rightarrow> string list" where
  "simHosts svc = (let base = take (length svc - 3) svc in [base @ ''ss-0'', base @ ''ss-1''])"

definition simEndpoints :: "namespacedName \<Rightarrow> endpoints" where
  "simEndpoints k = \<lparr>eps_Subsets = [\<lparr>sub_Addresses = map (\<lambda>h. \<lparr>ep_Hostname = h, ep_IP = ''10.0.0.1''\<rparr>) (simHosts (nn_Name k)),
     sub_NotReadyAddresses = []\<rparr>]\<rparr>"

definition simOk :: "string \<Rightarrow> payload option \<Rightarrow> httpResponse" where
  "simOk body result = \<lparr>StatusCode = 200, resp_Body = body, resp_Result = result, resp_Error = None\<rparr>"

definition simHttp :: "sim \<Rightarrow> httpRequest \<Rightarrow> httpResponse" where
  "simHttp c q = (case req_SetResult q of
     None \<Rightarrow> simOk (sim_Epoch c (req_Url q)) None
   | Some KBrokerConfig \<Rightarrow> simOk '''' (Some (PBrokerConfig \<lparr>ReplicaAddresses = sim_Replicas c (req_Url q)\<rparr>))
   | Some KServerProxies \<Rightarrow> simOk '''' (Some (PServerProxies \<lparr>Addresses = sim_Proxies c\<rparr>))
   | Some KClusterNames \<Rightarrow> simOk '''' (Some (PClusterNames \<lparr>Names = [ClusterName (Spec (sim_Cr c))]\<rparr>))
   | Some KClusterInfo \<Rightarrow> simOk '''' (Some (PClusterInfo (sim_Info c)))
   | Some KErrorResponse \<Rightarrow> simOk '''' None)"

text \<open>The API server's default for the number of replicas.\<close>

definition simDefault :: "statefulSet \<Rightarrow> statefulSet" where
  "simDefault x = x\<lparr>ss_Replicas := Some (case ss_Replicas x of Some n \<Rightarrow> n | None \<Rightarrow> 1)\<rparr>"

definition simEnv :: "sim \<Rightarrow> i32 env" where
  "simEnv c = \<lparr>
     Get_Undermoon = (\<lambda>k w. (Inr (sim_Cr c), w)),
     Get_Service = (\<lambda>k w. (Inr (simService k), w)),
     Get_StatefulSet = (\<lambda>k w. (Inr (simStatefulSet k w), w)),
     Get_Endpoints = (\<lambda>k w. (Inr (simEndpoints k), w)),
     Create_Service = (\<lambda>x w. (Inr x, w)),
     Create_StatefulSet = (\<lambda>x w. (Inr (simDefault x), w)),
     Update_StatefulSet = (\<lambda>x w. (Inr (simDefault x), case ss_Replicas x of Some n \<Rightarrow> n | None \<Rightarrow> w)),
     Update_Status = (\<lambda>x w. (Inr x, w)),
     SetControllerReference_Service = (\<lambda>cr x. Inr (x\<lparr>svc_Meta := (svc_Meta x)\<lparr>meta_OwnerReferences := [crName cr]\<rparr>\<rparr>)),
     SetControllerReference_StatefulSet = (\<lambda>cr x. Inr (x\<lparr>ss_Meta := (ss_Meta x)\<lparr>meta_OwnerReferences := [crName cr]\<rparr>\<rparr>)),
     Http = (\<lambda>q w. (Inr (simHttp c q), w)),
     Redis_Process = (\<lambda>a args w. ((None, \<lparr>cmd_Int = sim_ProxyEpoch c a, cmd_Str = ''OK'', cmd_Err = None\<rparr>), w))\<rparr>"

definition noResources :: resourceRequirements where
  "noResources = \<lparr>res_Limits = Map.empty, res_Requests = Map.empty\<rparr>"

text \<open>A resource with one chunk, and a settled cluster for it with room to shrink.\<close>

definition simResource :: undermoon where
  "simResource = \<lparr>um_Meta = simMeta ''um'' ''ns'',
     Spec = \<lparr>ClusterName = ''mycluster'', ChunkNumber = 1, MaxMemory = 100, Port = 5299,
       ActiveRedirection = False, ProxyThreads = 2, UndermoonImage = ''undermoon'',
       UndermoonImagePullPolicy = ''IfNotPresent'', RedisImage = ''redis'',
       BrokerResources = noResources, CoordinatorResources = noResources,
       ProxyResources = noResources, RedisResources = noResources\<rparr>,
     Status = \<lparr>MasterBrokerAddress = ''''\<rparr>\<rparr>"

definition simInfo :: clusterInfo where
  "simInfo = \<lparr>info_Name = ''mycluster'', info_NodeNumber = 4, NodeNumberWithSlots = 4, IsMigrating = False\<rparr>"

definition simSettled :: sim where
  "simSettled = \<lparr>sim_Cr = simResource, sim_Epoch = (\<lambda>_. ''7''), sim_Replicas = (\<lambda>_. []),
     sim_Proxies = [''um-stg-ss-0.um-stg-svc.ns.svc.cluster.local:5299'', ''old:5299''],
     sim_Info = simInfo, sim_ProxyEpoch = (\<lambda>_. 5)\<rparr>"

definition simRequest :: reconcileRequest where
  "simRequest = \<lparr>NamespacedName = \<lparr>nn_Name = ''um'', nn_Namespace = ''ns''\<rparr>\<rparr>"

definition simStart :: "i32 sys" where
  "simStart = \<lparr>world = 4, history = [], coordPool = newRedisClientPool, proxyPool = newRedisClientPool, nextClient = 0\<rparr>"

lemmas sim_defs = simEnv_def simDefault_def simHttp_def simOk_def simEndpoints_def simHosts_def simStatefulSet_def
  simService_def simMeta_def

section \<open>A cluster of two chunks\<close>

text \<open>The resource \<open>um\<close> asks for two chunks. Its three brokers and three coordinators are there and six storage pods, two
  more than it needs; the master broker reports \<open>info\<close>. All server proxies are registered already and there are no free
  nodes, which the broker says with the status codes of its API. Other objects do not exist.\<close>

definition simTwo :: undermoon where
  "simTwo = simResource\<lparr>Spec := (Spec simResource)\<lparr>ChunkNumber := 2\<rparr>\<rparr>"

definition simTwoInfo :: clusterInfo where
  "simTwoInfo = simInfo\<lparr>info_NodeNumber := 8, NodeNumberWithSlots := 8\<rparr>"

definition simAbsent :: "goerr + 'a" where
  "simAbsent = Inl (StatusError ReasonNotFound ''no such object'')"

definition simFind :: "namespacedName \<Rightarrow> (string \<times> 'a) list \<Rightarrow> goerr + 'a" where
  "simFind k objects = (if nn_Namespace k \<noteq> ''ns'' then simAbsent
     else case map_of objects (nn_Name k) of None \<Rightarrow> simAbsent | Some x \<Rightarrow> Inr x)"

definition simPods :: "string \<Rightarrow> nat \<Rightarrow> endpoints" where
  "simPods name n = \<lparr>eps_Subsets = [\<lparr>sub_Addresses = map (\<lambda>i. \<lparr>ep_Hostname = name @ ''-'' @ utoa i, ep_IP = ''10.0.0.1''\<rparr>) [0..<n],
     sub_NotReadyAddresses = []\<rparr>]\<rparr>"

definition simBroker :: "clusterInfo \<Rightarrow> httpRequest \<Rightarrow> httpResponse" where
  "simBroker info q = (case req_Method q of
     GET \<Rightarrow> simHttp (simSettled\<lparr>sim_Info := info\<rparr>) q
   | PUT \<Rightarrow> simOk ''OK'' None
   | POST \<Rightarrow> (case req_Body q of
         Some (PServerProxyMeta _) \<Rightarrow> (simOk '''' None)\<lparr>StatusCode := 409\<rparr>
       | _ \<Rightarrow> simOk '''' None)
   | DELETE \<Rightarrow> (if req_SetError q = None then (simOk '''' None)\<lparr>StatusCode := 404\<rparr>
       else (simOk '''' None)\<lparr>StatusCode := 409, resp_Error := Some (PErrorResponse \<lparr>er_Error = ''FREE_NODE_NOT_FOUND''\<rparr>)\<rparr>))"

definition simReporting :: "clusterInfo \<Rightarrow> i32 env" where
  "simReporting info = (simEnv simSettled)
     \<lparr>Get_Undermoon := (\<lambda>k w. (simFind k [(''um'', simTwo)], w)),
      Get_Service := (\<lambda>k w. (simFind k (map (\<lambda>n. (n, simService \<lparr>nn_Name = n, nn_Namespace = ''ns''\<rparr>)) [''um-bk-svc'', ''um-cd-svc'', ''um-stg-svc'']), w)),
      Get_StatefulSet := (\<lambda>k w. (simFind k [(''um-bk-ss'', simStatefulSet k 3), (''um-cd-ss'', simStatefulSet k 3), (''um-stg-ss'', simStatefulSet k 6)], w)),
      Get_Endpoints := (\<lambda>k w. (simFind k [(''um-bk-svc'', simPods ''um-bk-ss'' 3), (''um-cd-svc'', simPods ''um-cd-ss'' 3), (''um-stg-svc'', simPods ''um-stg-ss'' 6)], w)),
      Update_Status := (\<lambda>x w. (Inr (x\<lparr>um_Meta := (um_Meta x)\<lparr>meta_ResourceVersion := ''2''\<rparr>\<rparr>), w)),
      Http := (\<lambda>q w. (Inr (simBroker info q), w))\<rparr>"

definition simHealthy :: "i32 env" where
  "simHealthy = simReporting simTwoInfo"

lemmas sim_cluster_defs = simReporting_def simEnv_def simFind_def simAbsent_def simPods_def simBroker_def simHttp_def simOk_def simStatefulSet_def
  simService_def simMeta_def simSettled_def simRequest_def

end
