(* ===== verification/Robustness.thy ===== *)
theory Robustness
  imports Reconciler Simulation
begin

text \<open>
  How a reconciliation can end. In an environment that behaves as documented it never panics, it
  returns one of three results, and the operator's own sentinel errors never leave it.
\<close>

section \<open>Outcomes\<close>

text \<open>\<open>ends m Q P\<close>: \<open>m\<close> never panics, its values satisfy \<open>Q\<close> and its errors satisfy \<open>P\<close>.\<close>

definition ends :: "('w, 'a) op \<Rightarrow> ('a \<Rightarrow> bool) \<Rightarrow> (goerr \<Rightarrow> bool) \<Rightarrow> bool" where
  "ends m Q P \<longleftrightarrow> valid (\<lambda>_. True) m (\<lambda>x _. Q x) (\<lambda>e _. case e of None \<Rightarrow> False | Some e \<Rightarrow> P e)"

named_theorems ends_intros \<open>outcomes of each construct\<close>

lemma ends_return [ends_intros]: "Q x \<Longrightarrow> ends (returnM x) Q P"
  by (auto simp: ends_def intro: vrules)

lemma ends_throw [ends_intros]: "P e \<Longrightarrow> ends (throwM e) Q P"
  by (auto simp: ends_def intro: vrules)

lemma ends_bind: "ends m R P \<Longrightarrow> (\<And>x. R x \<Longrightarrow> ends (f x) Q P) \<Longrightarrow> ends (bindM m f) Q P"
  unfolding ends_def by (rule valid_bind, assumption) (auto simp: valid_def)

lemma ends_try: "ends m (\<lambda>x. Q (Inr x)) (\<lambda>e. Q (Inl e)) \<Longrightarrow> ends (tryM m) Q P"
  unfolding ends_def by (rule valid_try, rule valid_conseq, assumption) (auto split: option.splits)

lemma ends_bind_try:
  assumes "ends m R E" and "\<And>x. R x \<Longrightarrow> ends (f (Inr x)) Q P" and "\<And>e. E e \<Longrightarrow> ends (f (Inl e)) Q P"
  shows "ends (bindM (tryM m) f) Q P"
proof (rule ends_bind)
  show "ends (tryM m) (\<lambda>r. case r of Inl e \<Rightarrow> E e | Inr x \<Rightarrow> R x) P"
    using assms(1) by (intro ends_try) simp
qed (use assms(2,3) in \<open>auto split: sum.splits\<close>)

lemma ends_lift: "(\<And>x. r = Inr x \<Longrightarrow> Q x) \<Longrightarrow> (\<And>e. r = Inl e \<Longrightarrow> P e) \<Longrightarrow> ends (liftM r) Q P"
  by (cases r) (simp_all add: liftM_def ends_intros)

lemma ends_if [ends_intros]:
  "(b \<Longrightarrow> ends m Q P) \<Longrightarrow> (\<not> b \<Longrightarrow> ends n Q P) \<Longrightarrow> ends (if b then m else n) Q P"
  by simp

lemma ends_case_sum [ends_intros]:
  "(\<And>a. r = Inl a \<Longrightarrow> ends (f a) Q P) \<Longrightarrow> (\<And>b. r = Inr b \<Longrightarrow> ends (g b) Q P) \<Longrightarrow> ends (case r of Inl a \<Rightarrow> f a | Inr b \<Rightarrow> g b) Q P"
  by (cases r) auto

lemma ends_case_option [ends_intros]:
  "(r = None \<Longrightarrow> ends m Q P) \<Longrightarrow> (\<And>b. r = Some b \<Longrightarrow> ends (g b) Q P) \<Longrightarrow> ends (case r of None \<Rightarrow> m | Some b \<Rightarrow> g b) Q P"
  by (cases r) auto

lemma ends_case_prod [ends_intros]:
  "(\<And>a b. r = (a, b) \<Longrightarrow> ends (f a b) Q P) \<Longrightarrow> ends (case r of (a, b) \<Rightarrow> f a b) Q P"
  by (cases r) auto

lemma ends_forM: "(\<And>x. x \<in> set xs \<Longrightarrow> ends (f x) (\<lambda>_. True) P) \<Longrightarrow> Q () \<Longrightarrow> ends (forM xs f) Q P"
  by (induction xs) (auto intro!: ends_intros ends_bind)

lemma ends_foldM: "(\<And>a x. I a \<Longrightarrow> x \<in> set xs \<Longrightarrow> ends (f a x) I P) \<Longrightarrow> I a \<Longrightarrow> ends (foldM f a xs) I P"
  by (induction xs arbitrary: a) (auto intro!: ends_intros ends_bind)

lemma ends_mono: "ends m Q P \<Longrightarrow> (\<And>x. Q x \<Longrightarrow> Q' x) \<Longrightarrow> (\<And>e. P e \<Longrightarrow> P' e) \<Longrightarrow> ends m Q' P'"
  unfolding ends_def by (rule valid_conseq, assumption) (auto split: option.splits)

lemma ends_any: "ends m Q P \<Longrightarrow> (\<And>e. P e \<Longrightarrow> P' e) \<Longrightarrow> ends m (\<lambda>_. True) P'"
  by (erule ends_mono) auto

lemma ends_call: "(\<And>w. Q (fst (f w))) \<Longrightarrow> ends (call f ev) Q P"
  unfolding ends_def call_def valid_def by (auto split: prod.splits) (metis fst_conv)

lemma ends_callE:
  "(\<And>w x. fst (f w) = Inr x \<Longrightarrow> Q x) \<Longrightarrow> (\<And>w e. fst (f w) = Inl e \<Longrightarrow> P e) \<Longrightarrow> ends (callE f ev) Q P"
  unfolding callE_def
  by (rule ends_bind [OF ends_call [where Q = "\<lambda>r. \<exists>w. r = fst (f w)"]]) (auto intro!: ends_lift dest: sym)

section \<open>The documented behaviour of the environment\<close>

text \<open>The operator's sentinel errors are unexported variables of its package: no library returns
  them.\<close>

definition sentinel :: "goerr \<Rightarrow> bool" where
  "sentinel e \<longleftrightarrow> e \<in> {errRetryReconciliation, errMigrationRunning, errFreeNodeFound}"

definition foreignErrors :: "'w env \<Rightarrow> bool" where
  "foreignErrors env \<longleftrightarrow>
     (\<forall>k w e. fst (Get_Undermoon env k w) = Inl e \<longrightarrow> \<not> sentinel e) \<and>
     (\<forall>k w e. fst (Get_Service env k w) = Inl e \<longrightarrow> \<not> sentinel e) \<and>
     (\<forall>k w e. fst (Get_StatefulSet env k w) = Inl e \<longrightarrow> \<not> sentinel e) \<and>
     (\<forall>k w e. fst (Get_Endpoints env k w) = Inl e \<longrightarrow> \<not> sentinel e) \<and>
     (\<forall>x w e. fst (Create_Service env x w) = Inl e \<longrightarrow> \<not> sentinel e) \<and>
     (\<forall>x w e. fst (Create_StatefulSet env x w) = Inl e \<longrightarrow> \<not> sentinel e) \<and>
     (\<forall>x w e. fst (Update_StatefulSet env x w) = Inl e \<longrightarrow> \<not> sentinel e) \<and>
     (\<forall>x w e. fst (Update_Status env x w) = Inl e \<longrightarrow> \<not> sentinel e) \<and>
     (\<forall>cr x e. SetControllerReference_Service env cr x = Inl e \<longrightarrow> \<not> sentinel e) \<and>
     (\<forall>cr x e. SetControllerReference_StatefulSet env cr x = Inl e \<longrightarrow> \<not> sentinel e) \<and>
     (\<forall>q w e. fst (Http env q w) = Inl e \<longrightarrow> \<not> sentinel e) \<and>
     (\<forall>a args w e. fst (fst (Redis_Process env a args w)) = Some e \<longrightarrow> \<not> sentinel e) \<and>
     (\<forall>a args w e. cmd_Err (snd (fst (Redis_Process env a args w))) = Some e \<longrightarrow> \<not> sentinel e)"

text \<open>The API server fills in \<open>spec.replicas\<close> of a StatefulSet (its default is 1).\<close>

definition replicasDefaulted :: "'w env \<Rightarrow> bool" where
  "replicasDefaulted env \<longleftrightarrow>
     (\<forall>k w ss. fst (Get_StatefulSet env k w) = Inr ss \<longrightarrow> ss_Replicas ss \<noteq> None) \<and>
     (\<forall>x w ss. fst (Create_StatefulSet env x w) = Inr ss \<longrightarrow> ss_Replicas ss \<noteq> None) \<and>
     (\<forall>x w ss. fst (Update_StatefulSet env x w) = Inr ss \<longrightarrow> ss_Replicas ss \<noteq> None)"

text \<open>\<open>Result()\<close> of a successful response has the type given to \<open>SetResult\<close>.\<close>

definition resultTyped :: "'w env \<Rightarrow> bool" where
  "resultTyped env \<longleftrightarrow> (\<forall>q w res. fst (Http env q w) = Inr res \<longrightarrow> StatusCode res = 200 \<longrightarrow>
     req_SetResult q = Some KServerProxies \<longrightarrow> (\<exists>ps. resp_Result res = Some (PServerProxies ps)))"

definition documented :: "'w env \<Rightarrow> bool" where
  "documented env \<longleftrightarrow> foreignErrors env \<and> replicasDefaulted env \<and> resultTyped env"

lemma sentinelD: "sentinel e \<Longrightarrow> e = errRetryReconciliation \<or> e = errMigrationRunning \<or> e = errFreeNodeFound"
  by (simp add: sentinel_def)

lemma sentinel_simps [simp]:
  "sentinel errRetryReconciliation" "sentinel errMigrationRunning" "sentinel errFreeNodeFound"
  "\<not> sentinel (Errorf m)" "\<not> sentinel (badStatus w res)" "\<not> sentinel (badStatusNoBody w res)"
  by (simp_all add: sentinel_def badStatus_def badStatusNoBody_def)

section \<open>The components\<close>

abbreviation foreign :: "goerr \<Rightarrow> bool" where
  "foreign e \<equiv> \<not> sentinel e"

abbreviation foreignOrRetry :: "goerr \<Rightarrow> bool" where
  "foreignOrRetry e \<equiv> e = errRetryReconciliation \<or> \<not> sentinel e"

lemma not_found_foreign: "IsNotFound e \<Longrightarrow> foreign e" "IsAlreadyExists e \<Longrightarrow> foreign e" "IsConflict e \<Longrightarrow> foreign e"
  by (auto simp: IsNotFound_def IsAlreadyExists_def IsConflict_def sentinel_def)

lemma ends_http: "foreignErrors env \<Longrightarrow> ends (http env q) (\<lambda>res. \<exists>w. fst (Http env q w) = Inr res) foreign"
  unfolding http_def by (rule ends_callE) (auto simp: foreignErrors_def)

lemma ends_getEndpoints: "foreignErrors env \<Longrightarrow> ends (getEndpoints env n ns) (\<lambda>_. True) foreign"
  unfolding getEndpoints_def getEndpointsObj_def
  by (rule ends_bind_try [OF ends_callE [where Q = "\<lambda>_. True" and P = foreign]])
    (auto intro!: ends_intros simp: foreignErrors_def)

lemma ends_brokerClient:
  assumes "foreignErrors env"
  shows "ends (getReplicaAddresses env a) (\<lambda>_. True) foreign"
    "ends (brokerClient_getEpoch env a) (\<lambda>_. True) foreign"
    "ends (brokerClient_setBrokerReplicas env a rs) (\<lambda>_. True) foreign"
    "ends (registerServerProxy env a p) (\<lambda>_. True) foreign"
    "ends (deregisterServerProxy env a b) (\<lambda>_. True) foreign"
    "ends (brokerClient_createCluster env a b n) (\<lambda>_. True) foreignOrRetry"
    "ends (clusterExists env a b) (\<lambda>_. True) foreign"
    "ends (scaleNodes env a b n) (\<lambda>_. True) (\<lambda>e. e \<noteq> errRetryReconciliation)"
    "ends (removeFreeNodes env a b) (\<lambda>_. True) (\<lambda>e. e = errMigrationRunning \<or> foreign e)"
    "ends (brokerClient_getClusterInfo env a b) (\<lambda>_. True) foreign"
    "ends (fixEpoch env a) (\<lambda>_. True) foreign"
  unfolding brokerClient_defs Let_def
  by (rule ends_bind [OF ends_mono [OF ends_http [OF assms]]];
      auto intro!: ends_intros simp: sentinel_def badStatus_def badStatusNoBody_def)+

lemma ends_getServerProxies:
  assumes "foreignErrors env" and "resultTyped env"
  shows "ends (brokerClient_getServerProxies env a) (\<lambda>_. True) foreign"
  unfolding brokerClient_getServerProxies_def
  by (rule ends_bind [OF ends_http [OF assms(1)]])
    (use assms(2) in \<open>force intro!: ends_intros simp: resultTyped_def\<close>)

lemma ends_createGuardLoop:
  assumes "ends m Q P"
  shows "\<forall>e. err = Some e \<longrightarrow> P e \<Longrightarrow> err \<noteq> None \<or> 0 < i \<Longrightarrow> ends (createGuardLoop i err m) Q P"
proof (induction i arbitrary: err)
  case 0
  then show ?case by (auto intro!: ends_intros split: option.splits)
next
  case (Suc i)
  show ?case
    unfolding createGuardLoop.simps by (rule ends_bind_try [OF assms]) (auto intro!: ends_intros Suc.IH)
qed

lemma ends_guards:
  "ends m Q P \<Longrightarrow> ends (createServiceGuard m) Q P"
  "ends n R P \<Longrightarrow> ends (createStatefulSetGuard n) R P"
  unfolding createServiceGuard_def createStatefulSetGuard_def by (auto intro!: ends_createGuardLoop)

lemma ends_objects:
  assumes "foreignErrors env"
  shows "ends (getService env k) (\<lambda>_. True) foreign" "ends (createService env svc) (\<lambda>_. True) foreign"
  unfolding getService_def createService_def using assms
  by (auto intro!: ends_callE simp: foreignErrors_def)

lemma ends_statefulSets:
  assumes "foreignErrors env" and "replicasDefaulted env"
  shows "ends (getStatefulSet env k) (\<lambda>ss. ss_Replicas ss \<noteq> None) foreign"
    "ends (createStatefulSet env ss) (\<lambda>ss. ss_Replicas ss \<noteq> None) foreign"
    "ends (updateStatefulSet env ss) (\<lambda>ss. ss_Replicas ss \<noteq> None) foreign"
  unfolding getStatefulSet_def createStatefulSet_def updateStatefulSet_def using assms
  by (auto intro!: ends_callE simp: foreignErrors_def replicasDefaulted_def)

lemma ends_owned:
  assumes "foreignErrors env"
  shows "ends (liftM (SetControllerReference_Service env cr svc)) (\<lambda>_. True) foreign"
    "ends (liftM (SetControllerReference_StatefulSet env cr ss)) (\<lambda>_. True) foreign"
  using assms by (auto intro!: ends_lift simp: foreignErrors_def)

lemma ends_getOrCreate_service:
  assumes "foreignErrors env"
  shows "ends (getOrCreateBrokerService env cr) (\<lambda>_. True) foreign"
    "ends (getOrCreateCoordinatorService env cr) (\<lambda>_. True) foreign"
    "ends (getOrCreateStorageService env cr svc) (\<lambda>_. True) foreign"
  unfolding getOrCreateBrokerService_def getOrCreateCoordinatorService_def getOrCreateStorageService_def
  by (rule ends_bind [OF ends_owned(1) [OF assms]], rule ends_bind_try [OF ends_objects(1) [OF assms]];
      auto intro!: ends_intros ends_objects [OF assms])+

lemma ends_getOrCreate_statefulSet:
  assumes "foreignErrors env" and "replicasDefaulted env"
  shows "ends (getOrCreateBrokerStatefulSet env cr) (\<lambda>ss. ss_Replicas ss \<noteq> None) foreign"
    "ends (getOrCreateCoordinatorStatefulSet env cr) (\<lambda>ss. ss_Replicas ss \<noteq> None) foreign"
    "ends (getOrCreateStorageStatefulSet env cr) (\<lambda>ss. ss_Replicas ss \<noteq> None) foreign"
  unfolding getOrCreateBrokerStatefulSet_def getOrCreateCoordinatorStatefulSet_def getOrCreateStorageStatefulSet_def
  by (rule ends_bind [OF ends_owned(2) [OF assms(1)]], rule ends_bind_try [OF ends_statefulSets(1) [OF assms]];
      fastforce intro!: ends_intros ends_statefulSets [OF assms])+

lemma ends_updateStorage:
  assumes "foreignErrors env" and "replicasDefaulted env"
  shows "ends (updateStorageStatefulSet env cr ss) (\<lambda>ss. ss_Replicas ss \<noteq> None) foreignOrRetry"
  unfolding updateStorageStatefulSet_def Let_def
  by (rule ends_bind_try [OF ends_statefulSets(3) [OF assms]]) (auto intro!: ends_intros)

text \<open>The created storage StatefulSet has a replica count.\<close>

lemma ends_createResources:
  assumes "foreignErrors env" and "replicasDefaulted env"
  shows "ends (createResources env cr) (\<lambda>r. ss_Replicas (storageStatefulSet r) \<noteq> None) foreignOrRetry"
proof -
  note svc = ends_guards(1) [OF ends_mono [OF ends_getOrCreate_service(1) [OF assms(1)]]]
    ends_guards(1) [OF ends_mono [OF ends_getOrCreate_service(2) [OF assms(1)]]]
    ends_guards(1) [OF ends_mono [OF ends_getOrCreate_service(3) [OF assms(1)]]]
  note ss = ends_guards(2) [OF ends_mono [OF ends_getOrCreate_statefulSet(1) [OF assms]]]
    ends_guards(2) [OF ends_mono [OF ends_getOrCreate_statefulSet(2) [OF assms]]]
    ends_guards(2) [OF ends_mono [OF ends_getOrCreate_statefulSet(3) [OF assms]]]
  have bk: "ends (createBroker env cr) (\<lambda>_. True) foreignOrRetry"
    unfolding createBroker_def
    by (rule ends_bind [where R = "\<lambda>_. True"], rule svc, simp, simp, rule ends_bind [where R = "\<lambda>_. True"], rule ss)
      (auto intro!: ends_intros)
  have cd: "ends (createCoordinator env cr) (\<lambda>_. True) foreignOrRetry"
    unfolding createCoordinator_def
    by (rule ends_bind [where R = "\<lambda>_. True"], rule svc, simp, simp, rule ends_bind [where R = "\<lambda>_. True"], rule ss)
      (auto intro!: ends_intros)
  have rest: "ends (bindM (createServiceGuard (getOrCreateStorageService env cr (createStorageService cr))) (\<lambda>storageService.
      bindM (createStatefulSetGuard (getOrCreateStorageStatefulSet env cr)) (\<lambda>storage. f storage storageService)))
      (\<lambda>(ss, _). ss_Replicas ss \<noteq> None) foreignOrRetry"
    if "\<And>ss svc. ss_Replicas ss \<noteq> None \<Longrightarrow> ends (f ss svc) (\<lambda>(ss, _). ss_Replicas ss \<noteq> None) foreignOrRetry"
    for f
    by (rule ends_bind [where R = "\<lambda>_. True"], rule svc, simp, simp,
        rule ends_bind [where R = "\<lambda>ss. ss_Replicas ss \<noteq> None"], rule ss, simp, simp, rule that)
  have fin: "ends (case ss_Replicas ss of None \<Rightarrow> panicM p
      | Some n \<Rightarrow> if g n then bindM (updateStorageStatefulSet env cr ss) (\<lambda>ss'. returnM (ss', svc)) else returnM (ss, svc))
      (\<lambda>(ss, _). ss_Replicas ss \<noteq> None) foreignOrRetry" if "ss_Replicas ss \<noteq> None" for ss svc p g
    using that by (auto intro!: ends_intros ends_bind [OF ends_updateStorage [OF assms]])
  have st: "ends (createStorage env cr) (\<lambda>(ss, _). ss_Replicas ss \<noteq> None) foreignOrRetry"
    unfolding createStorage_def
    by (rule ends_bind_try [where R = "\<lambda>_. True" and E = foreignOrRetry], rule svc, simp, simp)
      (rule rest, erule fin)+
  show ?thesis
    unfolding createResources_def
    by (rule ends_bind [OF bk] ends_bind [OF cd] ends_bind [OF st] ends_case_prod ends_return | simp)+
qed

lemma ends_endpointsNum:
  assumes "foreignErrors env"
  shows "ends (broker_getServiceEndpointsNum env svc) (\<lambda>_. True) foreign"
    "ends (coordinator_getServiceEndpointsNum env svc) (\<lambda>_. True) foreign"
    "ends (storage_getServiceEndpointsNum env svc) (\<lambda>_. True) foreign"
  unfolding broker_getServiceEndpointsNum_def coordinator_getServiceEndpointsNum_def storage_getServiceEndpointsNum_def
  by (rule ends_bind [OF ends_getEndpoints [OF assms]]; auto intro!: ends_intros)+

lemma ends_ready:
  assumes "foreignErrors env"
  shows "ends (brokerAndCoordinatorReady env resource) (\<lambda>_. True) foreign"
    "ends (storageAllReady env svc cr) (\<lambda>_. True) foreign"
    "ss_Replicas ss \<noteq> None \<Longrightarrow> ends (storageAllReadyAndStable env svc ss cr) (\<lambda>_. True) foreign"
proof -
  show all: "ends (storageAllReady env svc cr) (\<lambda>_. True) foreign"
    unfolding storageAllReady_def Let_def
    by (rule ends_bind [OF ends_endpointsNum(3) [OF assms]]) (auto intro!: ends_intros)
  show "ss_Replicas ss \<noteq> None \<Longrightarrow> ends (storageAllReadyAndStable env svc ss cr) (\<lambda>_. True) foreign"
    unfolding storageAllReadyAndStable_def by (rule ends_bind [OF all]) (auto intro!: ends_intros)
  show "ends (brokerAndCoordinatorReady env resource) (\<lambda>_. True) foreign"
    unfolding brokerAndCoordinatorReady_def brokerReady_def coordinatorReady_def bindM_assoc
    by (rule ends_bind [OF ends_endpointsNum(1) [OF assms]] ends_bind [OF ends_endpointsNum(2) [OF assms]]
        ends_if ends_return | simp only: bindM_returnM | simp)+
qed

lemma ends_reconcileMaster:
  assumes "foreignErrors env"
  shows "ends (reconcileMaster env cr svc) (\<lambda>_. True) foreignOrRetry"
proof -
  have cands: "ends (masterCandidates env as) (\<lambda>_. True) foreign" for as
    unfolding masterCandidates_def
    by (rule ends_foldM) (auto intro!: ends_bind_try [OF ends_brokerClient(1) [OF assms]] ends_intros)
  have loop: "ends (maxEpochLoop env as) (\<lambda>_. True) foreign" for as
    unfolding maxEpochLoop_def
    by (rule ends_foldM) (auto intro!: ends_bind_try [OF ends_brokerClient(2) [OF assms]] ends_intros)
  have cur: "ends (getCurrentMaster env as) (\<lambda>_. True) foreign" for as
    unfolding getCurrentMaster_def Let_def
    by (rule ends_if ends_throw ends_return ends_bind [OF cands] ends_bind [OF loop] ends_case_prod | simp)+
  have st: "ends (setMasterBrokerStatus env cr m) (\<lambda>_. True) foreignOrRetry" for m
    unfolding setMasterBrokerStatus_def updateStatus_def
    by (rule ends_bind_try [OF ends_callE [where Q = "\<lambda>_. True" and P = foreign]])
      (use assms in \<open>auto intro!: ends_intros simp: foreignErrors_def\<close>)
  show ?thesis
    unfolding reconcileMaster_def Let_def
    by (rule ends_bind [OF ends_any [OF ends_getEndpoints [OF assms]]] ends_bind [OF ends_any [OF cur]]
        ends_bind [OF st] ends_return | simp)+
qed

lemma ends_configSetBroker:
  assumes "foreignErrors env"
  shows "ends (configSetBroker env cr svc m) (\<lambda>_. True) foreign"
proof -
  have cl: "ends (coordinatorClientPool_getClient a) (\<lambda>_. True) foreign" for a
    by (simp add: ends_def valid_def coordinatorClientPool_getClient_def split: prod.splits)
  have rp: "ends (redisProcess env a args) (\<lambda>(err, cmd). (\<forall>e. err = Some e \<longrightarrow> foreign e) \<and> (\<forall>e. cmd_Err cmd = Some e \<longrightarrow> foreign e)) foreign" for a args
    unfolding redisProcess_def by (rule ends_call) (use assms in \<open>auto simp: foreignErrors_def split: prod.splits\<close>, (metis fst_conv snd_conv)+)
  have set: "ends (coordinatorClientPool_setBrokerAddress env a m) (\<lambda>_. True) foreign" for a
    unfolding coordinatorClientPool_setBrokerAddress_def coordinatorClient_setBrokerAddress_def
    by (rule ends_bind [OF cl], rule ends_bind [OF rp]) (auto intro!: ends_intros)
  have loop: "ends (foldM (\<lambda>err endpoint. let address = genCoordinatorAddressFromName (ep_Hostname endpoint) cr in
       bindM (tryM (coordinatorClientPool_setBrokerAddress env address m)) (\<lambda>r.
         returnM (case r of Inl e \<Rightarrow> Some e | Inr _ \<Rightarrow> None))) None eps) (\<lambda>err. \<forall>e. err = Some e \<longrightarrow> foreign e) foreign" for eps
    by (rule ends_foldM) (auto intro!: ends_bind_try [OF set] ends_intros simp: Let_def)
  show ?thesis
    unfolding configSetBroker_def
    by (rule ends_bind [OF ends_getEndpoints [OF assms]], rule ends_bind [OF loop]) (auto intro!: ends_intros)
qed

lemma ends_getMaxEpoch:
  assumes "foreignErrors env"
  shows "ends (getMaxEpoch env svc cr) (\<lambda>_. True) foreign"
proof -
  have "ends (serverProxyClientPool_getEpoch env a) (\<lambda>_. True) foreign" for a
    unfolding serverProxyClientPool_getEpoch_def serverProxyClient_getEpoch_def redisProcess_def
    by (rule ends_bind [where R = "\<lambda>_. True"], simp add: ends_def valid_def serverProxyClientPool_getClient_def split: prod.splits,
        rule ends_bind [OF ends_call [where Q = "\<lambda>_. True"]]) (auto intro!: ends_intros)
  then show ?thesis
    unfolding getMaxEpoch_def Let_def
    by (intro ends_bind [OF ends_getEndpoints [OF assms]] ends_foldM) (auto intro!: ends_intros ends_bind)
qed

lemma ends_storage_getServerProxies:
  assumes "foreignErrors env"
  shows "ends (storage_getServerProxies env svc cr) (\<lambda>_. True) foreign"
  unfolding storage_getServerProxies_def Let_def
  by (intro ends_bind [OF ends_getEndpoints [OF assms]] ends_foldM)
    (auto intro!: ends_intros simp: slice_LastIndex_in_range)

lemma ends_fixBrokerEpoch:
  assumes "foreignErrors env"
  shows "ends (fixBrokerEpoch env m e) (\<lambda>_. True) foreign"
  unfolding fixBrokerEpoch_def
  by (rule ends_bind [OF ends_brokerClient(2) [OF assms]]) (auto intro!: ends_intros ends_brokerClient [OF assms])

lemma ends_reconcileMeta:
  assumes "foreignErrors env" and "resultTyped env"
  shows "ends (reconcileMeta env m rs ps cr b) (\<lambda>_. True) foreignOrRetry"
proof -
  note client = ends_brokerClient [OF assms(1)]
  have repl: "ends (meta_setBrokerReplicas env m rs) (\<lambda>_. True) foreign"
    unfolding meta_setBrokerReplicas_def by (rule ends_bind [OF client(3)], rule ends_forM) (auto intro: client)
  have de: "ends (bindM (tryM (deregisterServerProxy env m a)) (\<lambda>_. returnM ())) (\<lambda>_. True) foreign" for a
    by (rule ends_bind_try [OF client(5)]) (auto intro: ends_intros)
  have rg: "ends (bindM (tryM (registerServerProxy env m a)) (\<lambda>_. returnM ())) (\<lambda>_. True) foreign" for a
    by (rule ends_bind_try [OF client(4)]) (auto intro: ends_intros)
  have "ends (deregisterServerProxies env m ps cr) (\<lambda>_. True) foreign"
    unfolding deregisterServerProxies_def Let_def
    by (rule ends_bind [OF ends_getServerProxies [OF assms]], rule ends_forM [OF de]) simp
  then have registry: "ends (reconcileServerProxyRegistry env m ps cr) (\<lambda>_. True) foreign"
    unfolding reconcileServerProxyRegistry_def registerServerProxies_def
    by (intro ends_bind [OF ends_forM [OF rg]]) simp_all
  have create: "ends (meta_createCluster env m cr) (\<lambda>_. True) foreignOrRetry"
    unfolding meta_createCluster_def
    by (rule ends_bind [OF ends_any [OF client(7)]]) (auto intro!: ends_intros client)
  show ?thesis
    unfolding reconcileMeta_def meta_getClusterInfo_def
    by (rule ends_bind [OF ends_any [OF repl]] ends_bind [OF ends_any [OF registry]] ends_if ends_throw
        ends_bind [OF create] ends_any [OF client(10)] | simp)+
qed

lemma ends_changeMeta:
  assumes "foreignErrors env"
  shows "ends (changeMeta env m cr info) (\<lambda>_. True) foreignOrRetry"
proof -
  note client = ends_brokerClient [OF assms]
  have "ends (changeNodeNumber env m cr) (\<lambda>_. True) foreignOrRetry"
    unfolding changeNodeNumber_def Let_def
    by (rule ends_bind_try [OF client(8)]) (auto intro!: ends_bind_try [OF client(9)] ends_intros dest: sentinelD)
  then show ?thesis
    unfolding changeMeta_def
    by (intro ends_if ends_throw, simp, intro ends_bind_try, assumption) (auto intro!: ends_intros)
qed

lemma ends_orRequeue:
  assumes "ends m R foreignOrRetry" and "Q (requeueAfter 3)" and "\<And>x. R x \<Longrightarrow> ends (k x) Q foreign"
  shows "ends (orRequeue m k) Q foreign"
  unfolding orRequeue_def by (rule ends_bind_try [OF assms(1)]) (use assms(2,3) in \<open>auto intro!: ends_intros\<close>)

section \<open>The reconciliation\<close>

lemma ends_Reconcile:
  assumes "documented env"
  shows "ends (Reconcile env req) (\<lambda>r. r \<in> {doneResult, requeueAfter 3, requeueAfter 10}) foreign"
proof -
  from assms have f: "foreignErrors env" and r: "replicasDefaulted env" and t: "resultTyped env"
    by (auto simp: documented_def)
  have get: "ends (getUndermoon env k) (\<lambda>_. True) foreign" for k
    unfolding getUndermoon_def by (rule ends_callE) (use f in \<open>auto simp: foreignErrors_def\<close>)
  have shrink: "ends (scaleDownStorageStatefulSet env cr ss info) (\<lambda>_. True) foreignOrRetry" for cr ss info
    unfolding scaleDownStorageStatefulSet_def Let_def
    by (intro ends_intros ends_any [OF ends_updateStorage [OF f r]]) auto
  have scale: "ends (reconcileScale env resource cr m rs b info) (\<lambda>r. r \<in> {doneResult, requeueAfter 3, requeueAfter 10}) foreign"
    if "ss_Replicas (storageStatefulSet resource) \<noteq> None" for resource cr m rs b info
    unfolding reconcileScale_def
    by (rule ends_bind [OF ends_ready(3) [OF f that]] ends_if ends_return ends_orRequeue [OF ends_changeMeta [OF f]]
        ends_orRequeue [OF ends_reconcileMeta [OF f t]] ends_orRequeue [OF shrink] | simp)+
  show ?thesis
    unfolding Reconcile_def
    by (rule ends_bind_try [OF get] ends_case_sum ends_case_prod ends_if ends_return ends_throw
        ends_orRequeue [OF ends_createResources [OF f r]] ends_bind [OF ends_ready(1) [OF f]]
        ends_orRequeue [OF ends_reconcileMaster [OF f]] ends_bind [OF ends_configSetBroker [OF f]]
        ends_bind [OF ends_getMaxEpoch [OF f]] ends_bind [OF ends_fixBrokerEpoch [OF f]]
        ends_bind [OF ends_storage_getServerProxies [OF f]] ends_bind [OF ends_ready(2) [OF f]]
        ends_orRequeue [OF ends_reconcileMeta [OF f t]] scale | simp)+
qed

lemma documented_sim: "documented (simEnv c)"
  by (simp add: documented_def foreignErrors_def replicasDefaulted_def resultTyped_def sim_defs split: payloadKind.splits option.splits)

end
