(* ===== verification/Health.thy ===== *)
theory Health
  imports MigrationSafety Robustness
begin

text \<open>
  A responsive environment for a resource: the workloads that the operator keeps for it are there, enough pods are
  behind their services, the servers accept what the operator asks, and the
  reports on the cluster satisfy a predicate \<open>J\<close>. In it every operation before the change of the
  cluster's size succeeds, so that a reconciliation gets there; what it does then depends on \<open>J\<close>.
  Nothing is assumed of other objects, and the three workloads have different sizes. The conditions are on the answers in every state of
  the world; the answers themselves may differ from state to state.
\<close>

section \<open>Responsive environments\<close>

text \<open>The resource is there, and its status can be updated.\<close>

definition resourceServed :: "'w env \<Rightarrow> namespacedName \<Rightarrow> undermoon \<Rightarrow> bool" where
  "resourceServed env k cr \<longleftrightarrow> (\<forall>w. fst (Get_Undermoon env k w) = Inr cr) \<and>
     (\<forall>x w. \<exists>y. fst (Update_Status env x w) = Inr y \<and> Spec y = Spec x)"

text \<open>The service that the operator would make is there, with at least \<open>n\<close> ready addresses.\<close>

definition serviceServed :: "'w env \<Rightarrow> undermoon \<Rightarrow> service \<Rightarrow> int \<Rightarrow> bool" where
  "serviceServed env cr x n \<longleftrightarrow>
     (\<exists>y. SetControllerReference_Service env cr x = Inr y \<and> svcKey y = svcKey x) \<and>
     (\<forall>w. \<exists>y. fst (Get_Service env (svcKey x) w) = Inr y \<and> svcKey y = svcKey x) \<and>
     (\<forall>w. \<exists>eps. readEndpoints (fst (Get_Endpoints env (svcKey x) w)) = Inr eps \<and> n \<le> len eps)"

text \<open>The StatefulSet that the operator would make is there and satisfies \<open>P\<close>.\<close>

definition setServed :: "'w env \<Rightarrow> undermoon \<Rightarrow> statefulSet \<Rightarrow> (statefulSet \<Rightarrow> bool) \<Rightarrow> bool" where
  "setServed env cr x P \<longleftrightarrow>
     (\<exists>y. SetControllerReference_StatefulSet env cr x = Inr y \<and> ssKey y = ssKey x) \<and>
     (\<forall>w. \<exists>ss. fst (Get_StatefulSet env (ssKey x) w) = Inr ss \<and> P ss)"

text \<open>A storage StatefulSet that is large enough, with all its pods.\<close>

definition stableSet :: "undermoon \<Rightarrow> statefulSet \<Rightarrow> bool" where
  "stableSet cr ss \<longleftrightarrow> (\<exists>n. ss_Replicas ss = Some n \<and> sint (replicasOf (ChunkNumber (Spec cr))) \<le> sint n) \<and> steady ss"

text \<open>A broker's answer. To a question: success, with the result asked for, an epoch that is a
  number, a report on this cluster that satisfies \<open>J\<close>. To a request: success, or the answer that there was nothing to do: the
  proxy or the cluster is registered already, the proxy or the free nodes are not there.\<close>

definition goodAnswer :: "undermoon \<Rightarrow> (clusterInfo \<Rightarrow> bool) \<Rightarrow> httpRequest \<Rightarrow> httpResponse \<Rightarrow> bool" where
  "goodAnswer cr J q res \<longleftrightarrow> (case req_Method q of
     GET \<Rightarrow> StatusCode res = 200 \<and> (case req_SetResult q of
         None \<Rightarrow> snd (ParseInt (resp_Body res)) = None
       | Some KBrokerConfig \<Rightarrow> (\<exists>x. resp_Result res = Some (PBrokerConfig x))
       | Some KServerProxies \<Rightarrow> (\<exists>x. resp_Result res = Some (PServerProxies x))
       | Some KClusterNames \<Rightarrow> (\<exists>x. resp_Result res = Some (PClusterNames x))
       | Some KClusterInfo \<Rightarrow> (\<exists>x. resp_Result res = Some (PClusterInfo x) \<and>
           ((\<exists>m. q = infoRequest m (ClusterName (Spec cr))) \<longrightarrow> J x))
       | Some KErrorResponse \<Rightarrow> True)
   | PUT \<Rightarrow> StatusCode res = 200
   | POST \<Rightarrow> StatusCode res = 200 \<or> StatusCode res = 409 \<and> (case req_Body q of
         Some (PServerProxyMeta _) \<Rightarrow> True
       | Some (PCreateCluster _) \<Rightarrow> errorIs res errStrAlreadyExists
       | _ \<Rightarrow> False)
   | DELETE \<Rightarrow> StatusCode res = 200 \<or>
       (if req_SetError q = None then StatusCode res = 404
        else StatusCode res \<in> {404, 409} \<and> errorIs res errStrFreeNodeNotFound))"

definition responsive :: "'w env \<Rightarrow> namespacedName \<Rightarrow> undermoon \<Rightarrow> (clusterInfo \<Rightarrow> bool) \<Rightarrow> bool" where
  "responsive env k cr J \<longleftrightarrow>
     resourceServed env k cr \<and>
     serviceServed env cr (createBrokerService cr) 2 \<and>
     setServed env cr (createBrokerStatefulSet cr) (\<lambda>ss. 2 \<le> sint (ss_StatusReadyReplicas ss)) \<and>
     serviceServed env cr (createCoordinatorService cr) 1 \<and>
     setServed env cr (createCoordinatorStatefulSet cr) (\<lambda>ss. 1 \<le> sint (ss_StatusReadyReplicas ss)) \<and>
     serviceServed env cr (createStorageService cr) (sint (replicasOf (ChunkNumber (Spec cr)))) \<and>
     setServed env cr (createStorageStatefulSet cr) (stableSet cr) \<and>
     (\<forall>x w. \<exists>ss. fst (Update_StatefulSet env x w) = Inr ss) \<and>
     (\<forall>q w. \<exists>res. fst (Http env q w) = Inr res \<and> goodAnswer cr J q res) \<and>
     (\<forall>a args w. fst (fst (Redis_Process env a args w)) = None \<and> cmd_Err (snd (fst (Redis_Process env a args w))) = None)"

lemma responsiveD:
  assumes "responsive env k cr J"
  shows "resourceServed env k cr"
    and "serviceServed env cr (createBrokerService cr) 2"
    and "setServed env cr (createBrokerStatefulSet cr) (\<lambda>ss. 2 \<le> sint (ss_StatusReadyReplicas ss))"
    and "serviceServed env cr (createCoordinatorService cr) 1"
    and "setServed env cr (createCoordinatorStatefulSet cr) (\<lambda>ss. 1 \<le> sint (ss_StatusReadyReplicas ss))"
    and "serviceServed env cr (createStorageService cr) (sint (replicasOf (ChunkNumber (Spec cr))))"
    and "setServed env cr (createStorageStatefulSet cr) (stableSet cr)"
    and "\<exists>ss. fst (Update_StatefulSet env x w) = Inr ss"
    and "\<exists>res. fst (Http env q w) = Inr res \<and> goodAnswer cr J q res"
    and "fst (fst (Redis_Process env a args w)) = None" and "cmd_Err (snd (fst (Redis_Process env a args w))) = None"
  using assms unfolding responsive_def by blast+

abbreviation never :: "goerr \<Rightarrow> bool" where
  "never \<equiv> \<lambda>_. False"

section \<open>Single calls\<close>

lemma ok_callE:
  assumes "\<And>w. \<exists>x. fst (f w) = Inr x \<and> Q x"
  shows "ends (callE f ev) Q never"
  by (rule ends_callE) (use assms in \<open>metis Inr_inject sum.distinct(1)\<close>)+

lemma ok_http:
  assumes "responsive env k cr J"
  shows "ends (http env q) (goodAnswer cr J q) never"
  unfolding http_def by (rule ok_callE) (rule responsiveD(9) [OF assms])

text \<open>An endpoint lookup for a service by its name.\<close>

lemma ok_getEndpoints:
  assumes "serviceServed env cr x n" and "svcKey svc = svcKey x"
  shows "ends (getEndpoints env (meta_Name (svc_Meta svc)) (meta_Namespace (svc_Meta svc))) (\<lambda>eps. n \<le> len eps) never"
proof -
  have *: "\<exists>eps. readEndpoints (fst (Get_Endpoints env (svcKey svc) w)) = Inr eps \<and> n \<le> len eps" for w
    using assms(1) unfolding assms(2) serviceServed_def by blast
  have "tryM (callE f ev) = call f ev" for f :: "'a \<Rightarrow> (goerr + endpoints) \<times> 'a" and ev
    by (auto simp: fun_eq_iff tryM_def callE_def call_def bindM_def liftM_def returnM_def throwM_def
        split: prod.splits sum.splits)
  then show ?thesis
    unfolding getEndpoints_def getEndpointsObj_def
    by (simp only:, intro ends_bind [OF ends_call [where Q = "\<lambda>r. \<exists>eps. readEndpoints r = Inr eps \<and> n \<le> len eps"]] *)
      (auto intro!: ends_intros simp: readEndpoints_def split: sum.splits if_splits)
qed

text \<open>The error texts are different.\<close>

lemma errorIs_apart:
  "errorIs res errStrAlreadyExists \<Longrightarrow> \<not> errorIs res errStrNoAvailableResource"
  "errorIs res errStrFreeNodeNotFound \<Longrightarrow> \<not> errorIs res errStrMigrationRunning"
  by (auto simp: errorIs_def errStrAlreadyExists_def errStrNoAvailableResource_def errStrFreeNodeNotFound_def
      errStrMigrationRunning_def split: option.splits)

lemma ok_brokerClient:
  assumes "responsive env k cr J"
  shows "ends (getReplicaAddresses env a) (\<lambda>_. True) never"
    "ends (brokerClient_getEpoch env a) (\<lambda>_. True) never"
    "ends (brokerClient_getServerProxies env a) (\<lambda>_. True) never"
    "ends (brokerClient_setBrokerReplicas env a rs) (\<lambda>_. True) never"
    "ends (registerServerProxy env a p) (\<lambda>_. True) never"
    "ends (deregisterServerProxy env a b) (\<lambda>_. True) never"
    "ends (brokerClient_createCluster env a b n) (\<lambda>_. True) never"
    "ends (clusterExists env a b) (\<lambda>_. True) never"
    "ends (scaleNodes env a b n) (\<lambda>_. True) never"
    "ends (removeFreeNodes env a b) (\<lambda>_. True) never"
    "ends (fixEpoch env a) (\<lambda>_. True) never"
  unfolding brokerClient_defs Let_def
  by (rule ends_bind [OF ok_http [OF assms]];
      auto intro!: ends_intros simp: goodAnswer_def request_def errorIs_apart)+

lemma ok_getClusterInfo:
  assumes "responsive env k cr J"
  shows "ends (brokerClient_getClusterInfo env a (ClusterName (Spec cr))) J never"
  unfolding brokerClient_getClusterInfo_def
  by (rule ends_bind [OF ok_http [OF assms]]) (auto intro!: ends_intros simp: goodAnswer_def infoRequest_def request_def)

section \<open>Creation\<close>

lemma ok_createGuards:
  "ends m Q never \<Longrightarrow> ends (createServiceGuard m) Q never"
  "ends n R never \<Longrightarrow> ends (createStatefulSetGuard n) R never"
  by (auto intro: ends_guards)

text \<open>The six \<open>getOrCreate\<close> methods find the object that is there.\<close>

lemma ok_findService:
  assumes "serviceServed env cr x n"
  shows "ends (bindM (liftM (SetControllerReference_Service env cr x)) (\<lambda>service.
      bindM (tryM (getService env (svcKey service))) (\<lambda>r.
        case r of Inl e \<Rightarrow> if IsNotFound e then createService env service else throwM e
        | Inr found \<Rightarrow> returnM found))) (\<lambda>y. svcKey y = svcKey x) never"
proof -
  obtain y where y: "SetControllerReference_Service env cr x = Inr y" "svcKey y = svcKey x"
    using assms unfolding serviceServed_def by blast
  have get: "ends (getService env (svcKey y)) (\<lambda>y. svcKey y = svcKey x) never"
    unfolding getService_def y(2) by (rule ok_callE) (use assms in \<open>simp add: serviceServed_def\<close>)
  show ?thesis
    unfolding y(1)
    by (rule ends_bind [OF ends_lift [where Q = "\<lambda>z. z = y"]], simp_all, rule ends_bind_try [OF get]) (auto intro: ends_intros)
qed

lemma ok_findSet:
  assumes "setServed env cr x P"
  shows "ends (bindM (liftM (SetControllerReference_StatefulSet env cr x)) (\<lambda>ss.
      bindM (tryM (getStatefulSet env (ssKey ss))) (\<lambda>r.
        case r of Inl e \<Rightarrow> if IsNotFound e then createStatefulSet env ss else throwM e
        | Inr found \<Rightarrow> returnM found))) P never"
proof -
  obtain y where y: "SetControllerReference_StatefulSet env cr x = Inr y" "ssKey y = ssKey x"
    using assms unfolding setServed_def by blast
  have get: "ends (getStatefulSet env (ssKey y)) P never"
    unfolding getStatefulSet_def y(2) by (rule ok_callE) (use assms in \<open>simp add: setServed_def\<close>)
  show ?thesis
    unfolding y(1)
    by (rule ends_bind [OF ends_lift [where Q = "\<lambda>z. z = y"]], simp_all, rule ends_bind_try [OF get]) (auto intro: ends_intros)
qed

lemmas ok_found = ok_createGuards(1) [OF ok_findService] ok_createGuards(2) [OF ok_findSet]

text \<open>The public service may fail: its error is dropped.\<close>

lemma ends_publicService: "ends (createServiceGuard (getOrCreateStorageService env cr x)) (\<lambda>_. True) (\<lambda>_. True)"
  unfolding getOrCreateStorageService_def getService_def createService_def
  by (rule ends_guards(1), rule ends_bind [OF ends_lift [where Q = "\<lambda>_. True"]], simp_all,
      rule ends_bind_try [OF ends_callE [where Q = "\<lambda>_. True" and P = "\<lambda>_. True"]]) (auto intro!: ends_intros ends_callE)

text \<open>What \<open>createResources\<close> returns: the services by their names, enough ready pods, and a stable storage.\<close>

definition stableResources :: "undermoon \<Rightarrow> umResource \<Rightarrow> bool" where
  "stableResources cr r \<longleftrightarrow>
     svcKey (brokerService r) = svcKey (createBrokerService cr) \<and> 2 \<le> sint (ss_StatusReadyReplicas (brokerStatefulSet r)) \<and>
     svcKey (coordinatorService r) = svcKey (createCoordinatorService cr) \<and> 1 \<le> sint (ss_StatusReadyReplicas (coordinatorStatefulSet r)) \<and>
     svcKey (storageService r) = svcKey (createStorageService cr) \<and> stableSet cr (storageStatefulSet r)"

lemma ok_createResources:
  assumes "responsive env k cr J"
  shows "ends (createResources env cr) (stableResources cr) never"
proof -
  note r = responsiveD [OF assms]
  have bk: "ends (createBroker env cr) (\<lambda>(ss, svc). svcKey svc = svcKey (createBrokerService cr) \<and>
      2 \<le> sint (ss_StatusReadyReplicas ss)) never"
    unfolding createBroker_def getOrCreateBrokerService_def getOrCreateBrokerStatefulSet_def
    by (rule ends_bind [OF ok_found(1) [OF r(2)]], rule ends_bind [OF ok_found(2) [OF r(3)]]) (auto intro: ends_intros)
  have cd: "ends (createCoordinator env cr) (\<lambda>(ss, svc). svcKey svc = svcKey (createCoordinatorService cr) \<and>
      1 \<le> sint (ss_StatusReadyReplicas ss)) never"
    unfolding createCoordinator_def getOrCreateCoordinatorService_def getOrCreateCoordinatorStatefulSet_def
    by (rule ends_bind [OF ok_found(1) [OF r(4)]], rule ends_bind [OF ok_found(2) [OF r(5)]]) (auto intro: ends_intros)
  have st: "ends (createStorage env cr) (\<lambda>(ss, svc). svcKey svc = svcKey (createStorageService cr) \<and> stableSet cr ss) never"
    unfolding createStorage_def
    by (rule ends_bind_try [OF ends_publicService]; unfold getOrCreateStorageService_def getOrCreateStorageStatefulSet_def,
        rule ends_bind [OF ok_found(1) [OF r(6)]], rule ends_bind [OF ok_found(2) [OF r(7)]])
      (auto intro!: ends_intros simp: stableSet_def replicasOf_def i32_chunk_mult)
  show ?thesis
    unfolding createResources_def
    by (rule ends_bind [OF bk] ends_bind [OF cd] ends_bind [OF st] ends_case_prod ends_return | simp add: stableResources_def)+
qed

section \<open>Readiness\<close>

lemma ok_ready:
  assumes "responsive env k cr J" and "stableResources cr r"
  shows "ends (brokerAndCoordinatorReady env r) (\<lambda>b. b) never"
    "Spec cr' = Spec cr \<Longrightarrow> ends (storageAllReady env (storageService r) cr') (\<lambda>b. b) never"
    "Spec cr' = Spec cr \<Longrightarrow> ends (storageAllReadyAndStable env (storageService r) (storageStatefulSet r) cr') (\<lambda>b. b) never"
proof -
  note served = responsiveD [OF assms(1)] and res = assms(2) [unfolded stableResources_def]
  show all: "ends (storageAllReady env (storageService r) cr') (\<lambda>b. b) never" if "Spec cr' = Spec cr"
    unfolding storageAllReady_def storage_getServiceEndpointsNum_def bindM_assoc Let_def
    by (rule ends_bind [OF ok_getEndpoints [OF served(6)]])
      (use res in \<open>auto intro!: ends_intros simp: that replicasOf_def sint_int_of_i32\<close>)
  show "Spec cr' = Spec cr \<Longrightarrow> ends (storageAllReadyAndStable env (storageService r) (storageStatefulSet r) cr') (\<lambda>b. b) never"
    unfolding storageAllReadyAndStable_def
    by (rule ends_bind [OF all]) (use res in \<open>auto intro!: ends_intros simp: stableSet_def steady_def\<close>)
  have bk: "ends (brokerReady env (brokerStatefulSet r) (brokerService r)) (\<lambda>b. b) never"
    unfolding brokerReady_def broker_getServiceEndpointsNum_def bindM_assoc
    by (rule ends_bind [OF ok_getEndpoints [OF served(2)]])
      (use res in \<open>auto intro!: ends_intros simp: sint_int_of_i32 brokerNum_def\<close>)
  have cd: "ends (coordinatorReady env (coordinatorStatefulSet r) (coordinatorService r)) (\<lambda>b. b) never"
    unfolding coordinatorReady_def coordinator_getServiceEndpointsNum_def bindM_assoc
    by (rule ends_bind [OF ok_getEndpoints [OF served(4)]]) (use res in \<open>auto intro!: ends_intros\<close>)
  show "ends (brokerAndCoordinatorReady env r) (\<lambda>b. b) never"
    unfolding brokerAndCoordinatorReady_def by (rule ends_bind [OF bk] ends_bind [OF cd] | simp add: ends_intros)+
qed

section \<open>The master broker\<close>

lemma ok_reconcileMaster:
  assumes "responsive env k cr J" and "stableResources cr r"
  shows "ends (reconcileMaster env cr (brokerService r)) (\<lambda>(cr', _, _). Spec cr' = Spec cr) never"
proof -
  note client = ok_brokerClient [OF assms(1)] and served = responsiveD [OF assms(1)]
  have key: "svcKey (brokerService r) = svcKey (createBrokerService cr)" using assms(2) by (simp add: stableResources_def)
  have cands: "ends (masterCandidates env as) (\<lambda>_. True) never" for as
    unfolding masterCandidates_def by (rule ends_foldM) (auto intro!: ends_bind_try [OF client(1)] ends_intros)
  have loop: "ends (maxEpochLoop env as) (\<lambda>_. True) never" for as
    unfolding maxEpochLoop_def by (rule ends_foldM) (auto intro!: ends_bind_try [OF client(2)] ends_intros)
  have cur: "ends (getCurrentMaster env as) (\<lambda>_. True) never" if "as \<noteq> []" for as
    unfolding getCurrentMaster_def Let_def using that
    by (intro ends_intros ends_bind [OF cands] ends_bind [OF loop]) auto
  have st: "ends (setMasterBrokerStatus env cr m) (\<lambda>cr'. Spec cr' = Spec cr) never" for m
    unfolding setMasterBrokerStatus_def updateStatus_def
    by (rule ends_bind_try [OF ok_callE [where Q = "\<lambda>cr'. Spec cr' = Spec cr"]])
      (use served(1) in \<open>auto intro!: ends_intros simp: resourceServed_def\<close>,
       metis undermoon.select_convs(2) undermoon.surjective undermoon.update_convs(3))
  show ?thesis
    unfolding reconcileMaster_def Let_def
    by (rule ends_bind [OF ok_getEndpoints [OF served(2) key]], rule ends_bind [OF cur], force, rule ends_bind [OF st])
      (auto intro!: ends_intros)
qed

lemma ok_announce:
  assumes "responsive env k cr J" and "stableResources cr r"
  shows "ends (configSetBroker env cr' (coordinatorService r) m) (\<lambda>_. True) never"
proof -
  note served = responsiveD [OF assms(1)]
  have key: "svcKey (coordinatorService r) = svcKey (createCoordinatorService cr)" using assms(2) by (simp add: stableResources_def)
  have cl: "ends (coordinatorClientPool_getClient a) (\<lambda>_. True) never" for a
    by (simp add: ends_def valid_def coordinatorClientPool_getClient_def split: prod.splits)
  have rp: "ends (redisProcess env a args) (\<lambda>(err, cmd). err = None \<and> cmd_Err cmd = None) never" for a args
    unfolding redisProcess_def by (rule ends_call) (use served(10,11) in \<open>simp add: split_beta\<close>)
  have set: "ends (coordinatorClientPool_setBrokerAddress env a m) (\<lambda>_. True) never" for a
    unfolding coordinatorClientPool_setBrokerAddress_def coordinatorClient_setBrokerAddress_def
    by (rule ends_bind [OF cl], rule ends_bind [OF rp]) (auto intro!: ends_intros)
  have loop: "ends (foldM (\<lambda>err endpoint. let address = genCoordinatorAddressFromName (ep_Hostname endpoint) cr' in
       bindM (tryM (coordinatorClientPool_setBrokerAddress env address m)) (\<lambda>r.
         returnM (case r of Inl e \<Rightarrow> Some e | Inr _ \<Rightarrow> None))) None eps) (\<lambda>err. err = None) never" for eps
    by (rule ends_foldM) (auto intro!: ends_bind_try [OF set] ends_intros simp: Let_def)
  show ?thesis
    unfolding configSetBroker_def
    by (rule ends_bind [OF ok_getEndpoints [OF served(4) key]], rule ends_bind [OF loop]) (auto intro!: ends_intros)
qed

lemma ok_proxies:
  assumes "responsive env k cr J" and "stableResources cr r"
  shows "ends (getMaxEpoch env (storageService r) cr') (\<lambda>_. True) never"
    "ends (storage_getServerProxies env (storageService r) cr') (\<lambda>_. True) never"
proof -
  have "svcKey (storageService r) = svcKey (createStorageService cr)" using assms(2) by (simp add: stableResources_def)
  note eps = ends_bind [OF ok_getEndpoints [OF responsiveD(6) [OF assms(1)] this]]
  have "ends (serverProxyClientPool_getEpoch env a) (\<lambda>_. True) never" for a
    unfolding serverProxyClientPool_getEpoch_def serverProxyClient_getEpoch_def redisProcess_def
    by (rule ends_bind [where R = "\<lambda>_. True"], simp add: ends_def valid_def serverProxyClientPool_getClient_def split: prod.splits,
        rule ends_bind [OF ends_call [where Q = "\<lambda>_. True"]]) (auto intro!: ends_intros)
  then show "ends (getMaxEpoch env (storageService r) cr') (\<lambda>_. True) never"
    unfolding getMaxEpoch_def Let_def
    by (intro eps ends_foldM) (auto intro!: ends_intros ends_bind)
  show "ends (storage_getServerProxies env (storageService r) cr') (\<lambda>_. True) never"
    unfolding storage_getServerProxies_def Let_def
    by (intro eps ends_foldM) (auto intro!: ends_intros simp: slice_LastIndex_in_range)
qed

section \<open>The metadata\<close>

lemma ok_reconcileMeta:
  assumes "responsive env k cr J" and "Spec cr' = Spec cr"
  shows "ends (reconcileMeta env m rs ps cr' True) J never"
proof -
  note client = ok_brokerClient [OF assms(1)]
  have repl: "ends (meta_setBrokerReplicas env m rs) (\<lambda>_. True) never"
    unfolding meta_setBrokerReplicas_def by (rule ends_bind [OF client(4)], rule ends_forM) (auto intro: client)
  have de: "ends (bindM (tryM (deregisterServerProxy env m a)) (\<lambda>_. returnM ())) (\<lambda>_. True) never" for a
    by (rule ends_bind_try [OF client(6)]) (auto intro: ends_intros)
  have rg: "ends (bindM (tryM (registerServerProxy env m a)) (\<lambda>_. returnM ())) (\<lambda>_. True) never" for a
    by (rule ends_bind_try [OF client(5)]) (auto intro: ends_intros)
  have "ends (deregisterServerProxies env m ps cr') (\<lambda>_. True) never"
    unfolding deregisterServerProxies_def Let_def by (rule ends_bind [OF client(3)], rule ends_forM [OF de]) simp
  then have registry: "ends (reconcileServerProxyRegistry env m ps cr') (\<lambda>_. True) never"
    unfolding reconcileServerProxyRegistry_def registerServerProxies_def
    by (intro ends_bind [OF ends_forM [OF rg]]) simp_all
  have create: "ends (meta_createCluster env m cr') (\<lambda>_. True) never"
    unfolding meta_createCluster_def by (rule ends_bind [OF client(8)]) (auto intro!: ends_intros client)
  show ?thesis
    unfolding reconcileMeta_def meta_getClusterInfo_def assms(2)
    by (simp, rule ends_bind [OF repl], rule ends_bind [OF registry], rule ends_bind [OF create],
        rule ok_getClusterInfo [OF assms(1)])
qed

lemma ok_changeMeta:
  assumes "responsive env k cr J" and "\<not> IsMigrating info"
  shows "ends (changeMeta env m cr' info) (\<lambda>_. True) never"
proof -
  note client = ok_brokerClient [OF assms(1)]
  have "ends (changeNodeNumber env m cr') (\<lambda>_. True) never"
    unfolding changeNodeNumber_def Let_def
    by (rule ends_bind_try [OF client(9)]) (auto intro!: ends_bind_try [OF client(10)] ends_intros)
  then show ?thesis
    unfolding changeMeta_def if_not_P [OF assms(2)] by (rule ends_bind_try) (auto intro!: ends_intros)
qed

lemma ok_update:
  assumes "responsive env k cr J"
  shows "ends (updateStorageStatefulSet env cr' ss) (\<lambda>_. True) never"
proof -
  have up: "ends (updateStatefulSet env x) (\<lambda>_. True) never" for x
    unfolding updateStatefulSet_def by (rule ok_callE) (use responsiveD(8) [OF assms] in simp)
  then show ?thesis
    unfolding updateStorageStatefulSet_def Let_def by (rule ends_bind_try) (auto intro!: ends_intros)
qed

lemma ok_orRequeue: "ends m R never \<Longrightarrow> (\<And>x. R x \<Longrightarrow> ends (k x) Q never) \<Longrightarrow> ends (orRequeue m k) Q never"
  unfolding orRequeue_def by (rule ends_bind_try, assumption) auto

section \<open>Reaching a point of a run\<close>

text \<open>\<open>reaches m Q X\<close>: \<open>m\<close> succeeds with a value in \<open>Q\<close>, and the calls it makes satisfy \<open>X\<close>.\<close>

definition reaches :: "('w, 'a) op \<Rightarrow> ('a \<Rightarrow> bool) \<Rightarrow> (event list \<Rightarrow> bool) \<Rightarrow> bool" where
  "reaches m Q X \<longleftrightarrow> (\<forall>s. \<exists>x t es. m s = (Ok x, t) \<and> Q x \<and> history t = es @ history s \<and> X es)"

lemma endsD_never: "ends m Q never \<Longrightarrow> \<exists>x t. m s = (Ok x, t) \<and> Q x"
  by (cases "m s", cases "fst (m s)") (auto simp: ends_def dest: validD)

lemma reaches_ends: "ends m Q never \<Longrightarrow> emits m A \<Longrightarrow> (\<And>es. \<forall>e \<in> set es. A e \<Longrightarrow> X es) \<Longrightarrow> reaches m Q X"
  unfolding reaches_def by (metis emitsD endsD_never)

text \<open>Conditions on the calls that further calls satisfying \<open>A\<close>, before or after, do not change.\<close>

definition stays :: "(event \<Rightarrow> bool) \<Rightarrow> (event list \<Rightarrow> bool) \<Rightarrow> bool" where
  "stays A X \<longleftrightarrow> (\<forall>as bs es. (\<forall>e \<in> set as \<union> set bs. A e) \<longrightarrow> X es \<longrightarrow> X (as @ es @ bs))"

lemma staysD: "stays A X \<Longrightarrow> X es \<Longrightarrow> \<forall>e \<in> set as. A e \<Longrightarrow> X (as @ es)"
    "stays A X \<Longrightarrow> X es \<Longrightarrow> \<forall>e \<in> set as. A e \<Longrightarrow> X (es @ as)"
  unfolding stays_def by (metis UnE append_Nil append_Nil2 empty_iff empty_set)+

lemma reaches_after:
  assumes "stays A X" and "ends m R never" and "emits m A" and "\<And>x. R x \<Longrightarrow> reaches (f x) Q X"
  shows "reaches (bindM m f) Q X"
  unfolding reaches_def
proof
  fix s
  obtain x t where m: "m s = (Ok x, t)" "R x" using endsD_never [OF assms(2)] by blast
  obtain as where as: "history t = as @ history s" "\<forall>e \<in> set as. A e" using emitsD [OF assms(3) m(1)] by blast
  obtain y u es where f: "f x t = (Ok y, u)" "Q y" "history u = es @ history t" "X es"
    using assms(4) [OF m(2)] unfolding reaches_def by blast
  from m f as staysD(2) [OF assms(1) f(4) as(2)]
  show "\<exists>x t es. bindM m f s = (Ok x, t) \<and> Q x \<and> history t = es @ history s \<and> X es"
    by (intro exI [of _ y] exI [of _ u] exI [of _ "es @ as"]) (simp add: bindM_def)
qed

lemma reaches_before:
  assumes "stays A X" and "reaches m R X" and "\<And>x. R x \<Longrightarrow> ends (f x) Q never" and "\<And>x. emits (f x) A"
  shows "reaches (bindM m f) Q X"
  unfolding reaches_def
proof
  fix s
  obtain x t es where m: "m s = (Ok x, t)" "R x" "history t = es @ history s" "X es"
    using assms(2) unfolding reaches_def by blast
  obtain y u where f: "f x t = (Ok y, u)" "Q y" using endsD_never [OF assms(3) [OF m(2)]] by blast
  obtain as where as: "history u = as @ history t" "\<forall>e \<in> set as. A e" using emitsD [OF assms(4) f(1)] by blast
  from m f as staysD(1) [OF assms(1) m(4) as(2)]
  show "\<exists>x t es. bindM m f s = (Ok x, t) \<and> Q x \<and> history t = es @ history s \<and> X es"
    by (intro exI [of _ y] exI [of _ u] exI [of _ "as @ es"]) (simp add: bindM_def)
qed

lemma reaches_try: "reaches m (\<lambda>x. Q (Inr x)) X \<Longrightarrow> reaches (tryM m) Q X"
  unfolding reaches_def by (elim all_forward exE conjE) (auto simp: tryM_def)

lemma reaches_orRequeue_after:
  assumes "stays A X" and "ends m R never" and "emits m A" and "\<And>x. R x \<Longrightarrow> reaches (k x) Q X"
  shows "reaches (orRequeue m k) Q X"
proof -
  have "ends (tryM m) (\<lambda>r. \<exists>x. r = Inr x \<and> R x) never"
    by (rule ends_try, rule ends_mono [OF assms(2)]) auto
  then show ?thesis
    unfolding orRequeue_def
    by (rule reaches_after [OF assms(1) _ emits_try [OF assms(3)]]) (auto intro: assms(4))
qed

lemma reaches_orRequeue_before:
  assumes "stays A X" and "reaches m R X" and "\<And>x. R x \<Longrightarrow> ends (k x) Q never" and "\<And>x. emits (k x) A"
  shows "reaches (orRequeue m k) Q X"
proof -
  have "reaches (tryM m) (\<lambda>r. \<exists>x. r = Inr x \<and> R x) X" using assms(2) by (intro reaches_try) simp
  then show ?thesis
    unfolding orRequeue_def
    by (rule reaches_before [OF assms(1)]) (auto intro!: assms emits_intros split: sum.splits)
qed

section \<open>The reconciliation up to the change of size\<close>

text \<open>None of the calls before that asks the broker to move slots.\<close>

lemma noScale_reconcileMeta: "emits (reconcileMeta env m rs ps cr b) noScale"
  unfolding reconcileMeta_def meta_setBrokerReplicas_def reconcileServerProxyRegistry_def registerServerProxies_def
    meta_createCluster_def meta_getClusterInfo_def
  by (intro emits_intros noScale_ordinary [OF ordinary_brokerClient(4)] noScale_ordinary [OF ordinary_brokerClient(5)]
      noScale_ordinary [OF ordinary_brokerClient(6)] noScale_ordinary [OF ordinary_brokerClient(7)]
      noScale_ordinary [OF ordinary_brokerClient(9)] noScale_deregisterAll)

text \<open>In a responsive environment a reconciliation comes to the change of size, with the
  storage stable and a report in \<open>J\<close>.\<close>

lemma Reconcile_reaches:
  assumes env: "responsive env (NamespacedName req) cr J" and X: "stays noScale X"
    and tail: "\<And>r cr' m rs info. stableResources cr r \<Longrightarrow> Spec cr' = Spec cr \<Longrightarrow> J info \<Longrightarrow>
      reaches (reconcileScale env r cr' m rs True info) Q X"
  shows "reaches (Reconcile env req) Q X"
proof -
  have get: "ends (tryM (getUndermoon env (NamespacedName req))) (\<lambda>r. r = Inr cr) never"
    unfolding getUndermoon_def
    by (rule ends_try, rule ends_mono [OF ok_callE [where Q = "\<lambda>c. c = cr"]])
      (use responsiveD(1) [OF env] in \<open>simp_all add: resourceServed_def\<close>)
  have getn: "emits (tryM (getUndermoon env k)) noScale" for k by (intro emits_intros) simp
  have epoch: "ends (fixBrokerEpoch env m e) (\<lambda>_. True) never" for m e
    unfolding fixBrokerEpoch_def
    by (rule ends_bind [OF ok_brokerClient(2) [OF env]]) (auto intro!: ends_intros ok_brokerClient [OF env])
  note ns = noScale_uses [OF uses_createResources] noScale_uses [OF uses_brokerAndCoordinatorReady]
    noScale_uses [OF uses_configSetBroker] noScale_uses [OF uses_getMaxEpoch]
    noScale_uses [OF uses_storage_getServerProxies] noScale_uses [OF uses_storageAllReady]
  have meta: "reaches (bindM (storageAllReady env (storageService r) cr') (\<lambda>b. orRequeue (reconcileMeta env m rs ps cr' b)
      (reconcileScale env r cr' m rs b))) Q X"
    if "stableResources cr r" "Spec cr' = Spec cr" for r cr' m rs ps
    by (rule reaches_after [OF X ok_ready(2) [OF env that] ns(6)])
      (use that in \<open>auto intro!: reaches_orRequeue_after [OF X ok_reconcileMeta [OF env that(2)] noScale_reconcileMeta] tail\<close>)
  have rest: "reaches (orRequeue (reconcileMaster env cr (brokerService r)) (\<lambda>(cr', m, rs).
      bindM (configSetBroker env cr' (coordinatorService r) m) (\<lambda>_.
      bindM (getMaxEpoch env (storageService r) cr') (\<lambda>e.
      bindM (fixBrokerEpoch env m e) (\<lambda>_.
      bindM (storage_getServerProxies env (storageService r) cr') (\<lambda>ps.
      bindM (storageAllReady env (storageService r) cr') (\<lambda>b.
      orRequeue (reconcileMeta env m rs ps cr' b) (reconcileScale env r cr' m rs b)))))))) Q X"
    if r: "stableResources cr r" for r
    by (rule reaches_orRequeue_after [OF X ok_reconcileMaster [OF env r] noScale_ordinary [OF ordinary_reconcileMaster]], clarsimp,
        rule reaches_after [OF X ok_announce [OF env r] ns(3)], simp,
        rule reaches_after [OF X ok_proxies(1) [OF env r] ns(4)], simp,
        rule reaches_after [OF X epoch noScale_ordinary [OF ordinary_fixBrokerEpoch]],
        rule reaches_after [OF X ok_proxies(2) [OF env r] ns(5)], simp, rule meta [OF r])
  show ?thesis
    unfolding Reconcile_def
    by (rule reaches_after [OF X get getn], simp,
        rule reaches_orRequeue_after [OF X ok_createResources [OF env] ns(1)], simp,
        rule reaches_after [OF X ok_ready(1) [OF env] ns(2)], assumption, simp, simp, rule rest)
qed

end
