(* ===== verification/Convergence.thy ===== *)
theory Convergence
  imports Health
begin

text \<open>
  What it means that a reconciliation is done, and that in a healthy cluster it gets there.
\<close>

section \<open>Done means converged\<close>

text \<open>The last call set the storage StatefulSet of the resource at hand to two pods per chunk, changing nothing else, and was
  accepted; and the one before it was the report of the master broker that the slots of the cluster are on exactly four
  nodes per chunk.\<close>

definition finished :: "'w env \<Rightarrow> view \<Rightarrow> event list \<Rightarrow> bool" where
  "finished env v h \<longleftrightarrow> (\<exists>info ss y h'. view_Set v = Some ss \<and>
     h = EvUpdateStatefulSet (ss\<lparr>ss_Replicas := Some (replicasOf (ChunkNumber (Spec (view_Cr v))))\<rparr>) (Inr y) # h' \<and>
     reported env v info h' \<and> sint (NodeNumberWithSlots info) = 4 * uint (ChunkNumber (Spec (view_Cr v))))"

text \<open>For the name \<open>k\<close> on top of the history \<open>h0\<close>: the resource is gone, or the run is finished.\<close>

definition gone :: "namespacedName \<Rightarrow> event list \<Rightarrow> event list \<Rightarrow> bool" where
  "gone k h0 h \<longleftrightarrow> (\<exists>e. IsNotFound e \<and> h = EvGetUndermoon k (Inl e) # h0)"

definition converged :: "'w env \<Rightarrow> namespacedName \<Rightarrow> event list \<Rightarrow> event list \<Rightarrow> bool" where
  "converged env k h0 h \<longleftrightarrow> (\<exists>v. view_Key v = k \<and> view_Before v = h0 \<and> finished env v h)"

lemma hvalid_True: "hvalid H m (\<lambda>_ _. True) (\<lambda>_ _. True)"
  by (simp add: hvalid_def valid_def split: prod.splits res.splits)

interpretation any: audit env "\<lambda>_. True" for env
  by unfold_locales (simp_all add: hvalid_True)

lemma update_finished:
  assumes v: "view_Cr v = cr" "view_Set v = Some ss"
    and slots: "sint (NodeNumberWithSlots info) = 4 * uint (ChunkNumber (Spec cr))"
  shows "hvalid (reported env v info) (updateStorageStatefulSet env cr ss) (\<lambda>_. finished env v) (\<lambda>_ _. True)"
proof -
  let ?ss = "ss\<lparr>ss_Replicas := Some (replicasOf (ChunkNumber (Spec cr)))\<rparr>"
  have "hvalid (reported env v info) (tryM (updateStatefulSet env ?ss)) (\<lambda>r h. \<forall>x. r = Inr x \<longrightarrow> finished env v h) (\<lambda>_ _. True)"
    unfolding updateStatefulSet_def finished_def
    by (intro hvalid_try hvalid_callE) (use v slots in \<open>auto split: option.splits\<close>)
  then show ?thesis
    unfolding updateStorageStatefulSet_def Let_def replicasOf_def [symmetric]
    by (rule hvalid_bind) (auto intro!: hrules)
qed

lemma shrink_finished:
  assumes v: "view_Cr v = cr" "view_Set v = Some ss"
  shows "hvalid (\<lambda>h. True \<and> reported env v info h) (scaleDownStorageStatefulSet env cr ss info) (\<lambda>_. finished env v) (\<lambda>_ _. True)"
  unfolding scaleDownStorageStatefulSet_def Let_def
  by (intro hvalid_if hvalid_throw hvalid_pre [OF update_finished [OF v]]) (auto simp: sint_chunk_mult)

lemma hvalid_orRequeue_done:
  assumes "hvalid H m R (\<lambda>_ _. True)" and "\<And>x. hvalid (R x) (k x) (\<lambda>r h. r = doneResult \<longrightarrow> D h) (\<lambda>_ _. True)"
  shows "hvalid H (orRequeue m k) (\<lambda>r h. r = doneResult \<longrightarrow> D h) (\<lambda>_ _. True)"
  by (rule hvalid_orRequeue [OF hvalid_post [OF assms(1)] assms(2)]) (auto simp: Second_def)

lemma scale_finished:
  assumes v: "view_Cr v = cr" "view_Master v = Some m" "view_Set v = Some (storageStatefulSet r)" "view_Svc v = Some (storageService r)"
  shows "hvalid (\<lambda>h. True \<and> reported env v info h) (reconcileScale env r cr m rs b info)
     (\<lambda>x h. x = doneResult \<longrightarrow> finished env v h) (\<lambda>_ _. True)"
proof -
  have change: "hvalid (reportedReady env v info) (changeMeta env m cr info) (\<lambda>_ h. viewOf env h = Some v) (\<lambda>_ _. True)"
    by (rule hvalid_pre [OF any.view_stays [OF uses_changeMeta]]) (auto dest: reportedReady_view)
  have fin: "hvalid (\<lambda>h. True \<and> reported env v info h)
      (orRequeue (scaleDownStorageStatefulSet env cr (storageStatefulSet r) info) (\<lambda>_. returnM doneResult))
      (\<lambda>x h. x = doneResult \<longrightarrow> finished env v h) (\<lambda>_ _. True)" for info
    by (rule hvalid_orRequeue_done [OF shrink_finished [OF v(1,3)]]) (auto intro!: hrules)
  show ?thesis
    unfolding reconcileScale_def
    by (rule hvalid_bind [OF any.stable_keeps [OF v(1,3,4)]] hvalid_if hvalid_orRequeue_done [OF hvalid_pre [OF change]]
        hvalid_orRequeue_done [OF hvalid_pre [OF any.meta_keeps [OF v(1,2)]]] fin hvalid_return | simp add: Second_def)+
qed

lemma Reconcile_done:
  "hvalid (\<lambda>h. h = h0) (Reconcile env req)
     (\<lambda>r h. r = doneResult \<longrightarrow> gone (NamespacedName req) h0 h \<or> converged env (NamespacedName req) h0 h) (\<lambda>_ _. True)"
proof -
  let ?k = "NamespacedName req"
  let ?D = "\<lambda>h. gone ?k h0 h \<or> converged env ?k h0 h"
  have get: "hvalid (\<lambda>h. h = h0) (tryM (getUndermoon env ?k))
      (\<lambda>r h. (\<forall>cr. r = Inr cr \<longrightarrow> True \<and> begun env ?k h0 cr h) \<and> (\<forall>e. r = Inl e \<longrightarrow> IsNotFound e \<longrightarrow> ?D h)) (\<lambda>_ _. True)"
    by (rule hvalid_post [OF getUndermoon_begins]) (auto simp: gone_def)
  have ready: "hvalid (equipped env ?k h0 cr ss svc) (brokerAndCoordinatorReady env r) (\<lambda>_ h. True \<and> equipped env ?k h0 cr ss svc h) (\<lambda>_ _. True)" for cr ss svc r
    by (rule hvalid_post [OF hvalid_emits [OF uses_brokerAndCoordinatorReady]], rule equipped_message) auto
  have scale: "hvalid (\<lambda>h. True \<and> reported env (ledBy ?k h0 cr m (storageStatefulSet r) (storageService r)) info h)
      (reconcileScale env r cr m rs b info) (\<lambda>x h. x = doneResult \<longrightarrow> ?D h) (\<lambda>_ _. True)" for r cr m rs b info
    by (rule hvalid_post [OF scale_finished]) (auto simp: converged_def intro!: exI [of _ "ledBy ?k h0 cr m (storageStatefulSet r) (storageService r)"])
  have meta: "hvalid (\<lambda>h. viewOf env h = Some (ledBy ?k h0 cr m ss svc)) (reconcileMeta env m rs ps cr b)
      (\<lambda>info h. True \<and> reported env (ledBy ?k h0 cr m ss svc) info h) (\<lambda>_ _. True)" for cr m ss svc rs ps b
    by (rule hvalid_pre [OF any.meta_keeps]) simp_all
  show ?thesis
    unfolding Reconcile_def
    by (rule hvalid_bind [OF get] hvalid_case_sum hvalid_case_prod hvalid_if hvalid_throw
        hvalid_orRequeue_done [OF hvalid_pre [OF any.resources_keep [where k = ?k and ?h0.0 = h0]]]
        hvalid_bind [OF hvalid_pre [OF ready]] hvalid_orRequeue_done [OF any.master_keeps]
        hvalid_bind [OF hvalid_pre [OF any.view_stays [OF uses_configSetBroker]]]
        hvalid_bind [OF any.view_stays [OF uses_getMaxEpoch]] hvalid_bind [OF any.view_stays [OF uses_fixBrokerEpoch]]
        hvalid_bind [OF any.view_stays [OF uses_storage_getServerProxies]]
        hvalid_bind [OF any.view_stays [OF uses_storageAllReady]]
        hvalid_orRequeue_done [OF meta] scale hvalid_return | simp add: Second_def)+
qed

section \<open>The specification in a responsive environment\<close>

text \<open>Calls whose answers come from such an environment: the resource read is \<open>cr\<close>, and updates of the status keep the specification.\<close>

definition faithful :: "undermoon \<Rightarrow> event \<Rightarrow> bool" where
  "faithful cr e \<longleftrightarrow> (\<forall>k x. e = EvGetUndermoon k x \<longrightarrow> x = Inr cr) \<and> keepsSpec e"

lemma faithful_uses: "usesOnly m K \<Longrightarrow> KReadCR \<notin> K \<Longrightarrow> KStatus \<notin> K \<Longrightarrow> emits m (faithful cr)"
  by (erule emits_mono) (auto simp: faithful_def keepsSpec_def)

lemma emits_answers: "(\<And>w. A (ev (fst (f w)))) \<Longrightarrow> emits (callE f ev) A"
  unfolding callE_def
  by (intro emits_intros) (auto simp: emits_def call_def split: prod.splits, metis fst_conv)

lemma faithful_Reconcile:
  assumes "resourceServed env (NamespacedName req) cr"
  shows "emits (Reconcile env req) (faithful cr)"
proof -
  have get: "emits (tryM (getUndermoon env (NamespacedName req))) (faithful cr)"
    unfolding getUndermoon_def using assms
    by (intro emits_try emits_answers) (simp add: faithful_def keepsSpec_def resourceServed_def)
  have "emits (updateStatus env x) (faithful cr)" for x
    unfolding updateStatus_def
  proof (rule emits_answers)
    fix w
    obtain y where "fst (Update_Status env x w) = Inr y" "Spec y = Spec x"
      using assms unfolding resourceServed_def by blast
    then show "faithful cr (EvUpdateStatus x (fst (Update_Status env x w)))" by (simp add: faithful_def keepsSpec_def)
  qed
  then have status: "emits (setMasterBrokerStatus env c m) (faithful cr)" for c m
    unfolding setMasterBrokerStatus_def by (rule emits_bind [OF emits_try]) (auto intro!: emits_intros)
  have ep: "usesOnly (getEndpoints env n ns) {KEndpoints}" for n ns by (intro emits_intros) simp
  have master: "emits (reconcileMaster env c svc) (faithful cr)" for c svc
    unfolding reconcileMaster_def Let_def
    by (intro emits_bind emits_return faithful_uses [OF ep] faithful_uses [OF uses_getCurrentMaster] status; simp)
  show ?thesis
    unfolding Reconcile_def
    by (rule emits_bind [OF get], intro emits_intros master faithful_uses [OF uses_createResources]
        faithful_uses [OF uses_brokerAndCoordinatorReady] faithful_uses [OF uses_configSetBroker]
        faithful_uses [OF uses_getMaxEpoch] faithful_uses [OF uses_fixBrokerEpoch] faithful_uses [OF uses_storage_getServerProxies]
        faithful_uses [OF uses_storageAllReady] faithful_uses [OF uses_reconcileMeta] faithful_uses [OF uses_reconcileScale]; simp)
qed

text \<open>So at every point of the run the view is that of the run, with the specification of \<open>cr\<close>.\<close>

lemma view_in_run:
  assumes env: "resourceServed env (NamespacedName req) cr" and run: "Reconcile env req s = (r, t)"
    and h: "history t = as @ h" "length (history s) < length h" and v: "viewOf env h = Some v"
  shows "view_Key v = NamespacedName req \<and> view_Before v = history s \<and> Spec (view_Cr v) = Spec cr"
proof -
  obtain es x where es: "history t = es @ EvGetUndermoon (NamespacedName req) x # history s" "\<forall>e \<in> set es. kind e \<noteq> KReadCR"
    using Reconcile_reads_first [OF run] by blast
  obtain fs where fs: "history t = fs @ history s" "\<forall>e \<in> set fs. faithful cr e"
    using emitsD [OF faithful_Reconcile [OF env] run] by blast
  from es(1) fs(1) have split: "fs = es @ [EvGetUndermoon (NamespacedName req) x]" by simp
  from suffix_above [of es _ "history s" as h] es(1) h
  obtain bs where bs: "h = bs @ EvGetUndermoon (NamespacedName req) x # history s" "es = as @ bs" by auto
  have "x = Inr cr" using fs(2) by (simp add: split faithful_def)
  moreover have "\<forall>e \<in> set bs. keepsSpec e" using fs(2) by (auto simp: split bs(2) faithful_def)
  moreover have "\<forall>e \<in> set bs. kind e \<noteq> KReadCR" using es(2) bs(2) by simp
  ultimately show ?thesis using viewOf_run [of bs env "NamespacedName req" x "history s" v] v bs(1) by auto
qed

section \<open>A healthy cluster converges\<close>

abbreviation settledInfo :: "undermoon \<Rightarrow> clusterInfo \<Rightarrow> bool" where
  "settledInfo cr info \<equiv> \<not> IsMigrating info \<and> sint (NodeNumberWithSlots info) = 4 * uint (ChunkNumber (Spec cr))"

text \<open>Nothing migrates, the slots are on exactly the wanted nodes.\<close>

definition healthy :: "'w env \<Rightarrow> namespacedName \<Rightarrow> undermoon \<Rightarrow> bool" where
  "healthy env k cr \<longleftrightarrow> responsive env k cr (settledInfo cr)"

lemma ok_shrink:
  assumes "responsive env k cr J" and "Spec cr' = Spec cr" and "settledInfo cr info"
  shows "ends (scaleDownStorageStatefulSet env cr' ss info) (\<lambda>_. True) never"
  using ok_update [OF assms(1)] assms(2,3) unfolding scaleDownStorageStatefulSet_def Let_def by (simp add: sint_chunk_mult)

lemma healthy_reaches:
  assumes "healthy env (NamespacedName req) cr"
  shows "reaches (Reconcile env req) (\<lambda>r. r = doneResult) (\<lambda>_. True)"
proof (rule Reconcile_reaches)
  show env: "responsive env (NamespacedName req) cr (settledInfo cr)" using assms by (simp add: healthy_def)
  show "stays noScale (\<lambda>_. True)" by (simp add: stays_def)
  fix r and cr' :: undermoon and m rs and info :: clusterInfo
  assume that: "stableResources cr r" "Spec cr' = Spec cr" "settledInfo cr info"
  have "ends (reconcileScale env r cr' m rs True info) (\<lambda>r. r = doneResult) never"
    unfolding reconcileScale_def
    by (rule ends_bind [OF ok_ready(3) [OF env that(1,2)]], simp, rule ok_orRequeue [OF ok_changeMeta [OF env]])
      (use that in \<open>auto intro!: ok_orRequeue [OF ok_reconcileMeta [OF env]] ok_orRequeue [OF ok_shrink [OF env]] ends_intros\<close>)
  then show "reaches (reconcileScale env r cr' m rs True info) (\<lambda>r. r = doneResult) (\<lambda>_. True)"
    by (rule reaches_ends [OF _ uses_reconcileScale]) simp
qed

lemma healthy_finishes:
  assumes env: "healthy env (NamespacedName req) cr"
  shows "\<exists>t v. Reconcile env req s = (Ok doneResult, t) \<and> finished env v (history t) \<and>
    view_Key v = NamespacedName req \<and> view_Before v = history s \<and> Spec (view_Cr v) = Spec cr"
proof -
  have served: "resourceServed env (NamespacedName req) cr" using env by (simp add: healthy_def responsive_def)
  obtain t where t: "Reconcile env req s = (Ok doneResult, t)"
    using healthy_reaches [OF env] unfolding reaches_def by blast
  have "gone (NamespacedName req) (history s) (history t) \<or> converged env (NamespacedName req) (history s) (history t)"
    using hvalidD(1) [OF Reconcile_done refl t] by simp
  moreover have "\<not> gone (NamespacedName req) (history s) (history t)"
    using emitsD [OF faithful_Reconcile [OF served] t] by (auto simp: gone_def faithful_def)
  ultimately obtain v where v: "view_Key v = NamespacedName req" "view_Before v = history s" "finished env v (history t)"
    unfolding converged_def by blast
  obtain e h where h: "history t = e # h" "viewOf env h = Some v"
    using v(3) unfolding finished_def by (auto dest: reported_view)
  have "length (history s) < length h" using viewOf_Before [OF h(2)] v(2) by simp
  with view_in_run [OF served t, of "[e]" h v] h have "Spec (view_Cr v) = Spec cr" by simp
  with t v show ?thesis by blast
qed

section \<open>A cluster of the wrong size is moved\<close>

text \<open>The report says that nothing migrates and that the slots are on another number of nodes.\<close>

abbreviation misSized :: "undermoon \<Rightarrow> clusterInfo \<Rightarrow> bool" where
  "misSized cr info \<equiv> \<not> IsMigrating info \<and> sint (NodeNumberWithSlots info) \<noteq> 4 * uint (ChunkNumber (Spec cr))"

text \<open>Among the calls is an accepted request to move the slots to four nodes per chunk.\<close>

definition scaleSent :: "undermoon \<Rightarrow> event list \<Rightarrow> bool" where
  "scaleSent cr es \<longleftrightarrow> (\<exists>m res. StatusCode res = 200 \<and>
     EvHttp (scaleRequest m (ClusterName (Spec cr)) (int_of_u32 (ChunkNumber (Spec cr)) * chunkNodeNumber)) (Inr res) \<in> set es)"

text \<open>It was sent to the broker that this run, for the name \<open>k\<close> on top of the history \<open>h0\<close>, had made the master.\<close>

definition masterAsked :: "'w env \<Rightarrow> namespacedName \<Rightarrow> undermoon \<Rightarrow> event list \<Rightarrow> event list \<Rightarrow> bool" where
  "masterAsked env k cr h0 h \<longleftrightarrow> (\<exists>v m res as h'. StatusCode res = 200 \<and>
     h = as @ EvHttp (scaleRequest m (ClusterName (Spec cr)) (int_of_u32 (ChunkNumber (Spec cr)) * chunkNodeNumber)) (Inr res) # h' \<and>
     viewOf env h' = Some v \<and> view_Key v = k \<and> view_Before v = h0 \<and> view_Master v = Some m)"

lemma stays_scaleSent: "stays A (scaleSent cr)"
  unfolding stays_def scaleSent_def by auto

lemma reaches_http:
  fixes env :: "'a env"
  assumes "responsive env k cr J"
  shows "reaches (http env q) (goodAnswer cr J q) (\<lambda>es. \<exists>res. es = [EvHttp q (Inr res)] \<and> goodAnswer cr J q res)"
  unfolding reaches_def
proof
  fix s :: "'a sys"
  have "\<exists>res. fst (Http env q (world s)) = Inr res \<and> goodAnswer cr J q res"
    by (rule responsiveD(9) [OF assms])
  then obtain res where "fst (Http env q (world s)) = Inr res" "goodAnswer cr J q res" by blast
  then show "\<exists>x t es. http env q s = (Ok x, t) \<and> goodAnswer cr J q x \<and> history t = es @ history s \<and>
      (\<exists>res. es = [EvHttp q (Inr res)] \<and> goodAnswer cr J q res)"
    by (cases "Http env q (world s)") (simp add: http_def callE_def call_def bindM_def liftM_def returnM_def)
qed

lemma reaches_mono: "reaches m Q X \<Longrightarrow> (\<And>es. X es \<Longrightarrow> Y es) \<Longrightarrow> reaches m Q Y"
  unfolding reaches_def by blast

lemma changeMeta_reaches:
  assumes env: "responsive env k cr J" and "\<not> IsMigrating info" and spec: "Spec cr' = Spec cr"
  shows "reaches (changeMeta env m cr' info) (\<lambda>_. True) (scaleSent cr)"
proof -
  note step = stays_scaleSent [of "\<lambda>_. True"]
  have any: "emits x (\<lambda>_. True)" if "usesOnly x K" for x :: "('a, 'b) op" and K using that by (rule emits_mono) simp
  let ?q = "scaleRequest m (ClusterName (Spec cr)) (int_of_u32 (ChunkNumber (Spec cr)) * chunkNodeNumber)"
  have q: "reaches (http env ?q) (goodAnswer cr J ?q) (scaleSent cr)"
    by (rule reaches_mono [OF reaches_http [OF env]]) (force simp: scaleSent_def goodAnswer_def request_def)
  have "reaches (scaleNodes env m (ClusterName (Spec cr')) (int_of_u32 (ChunkNumber (Spec cr')))) (\<lambda>_. True) (scaleSent cr)"
    unfolding scaleNodes_def Let_def spec
    by (rule reaches_before [OF step q]) (auto intro!: ends_intros emits_intros simp: goodAnswer_def request_def)
  then have n: "reaches (tryM (scaleNodes env m (ClusterName (Spec cr')) (int_of_u32 (ChunkNumber (Spec cr')))))
      (\<lambda>r. \<exists>u. r = Inr u) (scaleSent cr)"
    by (intro reaches_try) simp
  have free: "ends (tryM (removeFreeNodes env a b)) (\<lambda>r. \<exists>u. r = Inr u) never" for a b
    by (rule ends_try, rule ends_mono [OF ok_brokerClient(10) [OF env]]) auto
  have "reaches (changeNodeNumber env m cr') (\<lambda>_. True) (scaleSent cr)"
    unfolding changeNodeNumber_def Let_def
    by (rule reaches_before [OF step n])
      (auto intro!: ends_bind [OF free] ends_intros emits_intros any [OF uses_brokerClient(11)])
  then have c: "reaches (tryM (changeNodeNumber env m cr')) (\<lambda>r. \<exists>u. r = Inr u) (scaleSent cr)"
    by (intro reaches_try) simp
  show ?thesis
    unfolding changeMeta_def if_not_P [OF assms(2)]
    by (rule reaches_before [OF step c]) (auto intro!: ends_intros emits_intros)
qed

lemma retry_requeues: "ends m (\<lambda>_. False) (\<lambda>e. e = errRetryReconciliation) \<Longrightarrow> ends (orRequeue m k) (\<lambda>r. r = requeueAfter 3) never"
  unfolding orRequeue_def by (rule ends_bind_try, assumption) (auto intro: ends_intros)

lemma misSized_reaches:
  assumes env: "responsive env (NamespacedName req) cr (misSized cr)"
  shows "reaches (Reconcile env req) (\<lambda>r. r = requeueAfter 3) (scaleSent cr)"
proof (rule Reconcile_reaches [OF env stays_scaleSent])
  fix r and cr' :: undermoon and m rs and info :: clusterInfo
  assume that: "stableResources cr r" "Spec cr' = Spec cr" "misSized cr info"
  have "ends (scaleDownStorageStatefulSet env cr' ss i) (\<lambda>_. False) (\<lambda>e. e = errRetryReconciliation)" if "misSized cr i" for ss i
    using that \<open>Spec cr' = Spec cr\<close>
    by (auto intro!: ends_intros simp: scaleDownStorageStatefulSet_def Let_def sint_chunk_mult)
  then have shrink: "ends (orRequeue (scaleDownStorageStatefulSet env cr' ss i) k) (\<lambda>r. r = requeueAfter 3) never"
    if "misSized cr i" for ss i k
    using that by (intro retry_requeues) blast
  have "reaches (orRequeue (changeMeta env m cr' info) (\<lambda>_. orRequeue (reconcileMeta env m rs [] cr' True) (\<lambda>info.
      orRequeue (scaleDownStorageStatefulSet env cr' (storageStatefulSet r) info) (\<lambda>_. returnM doneResult))))
      (\<lambda>r. r = requeueAfter 3) (scaleSent cr)"
    by (rule reaches_orRequeue_before [OF stays_scaleSent changeMeta_reaches [OF env _ that(2)]])
      (use that in \<open>auto intro!: ok_orRequeue [OF ok_reconcileMeta [OF env]] shrink emits_intros noScale_reconcileMeta
        noScale_uses [OF uses_scaleDownStorageStatefulSet]\<close>)
  then show "reaches (reconcileScale env r cr' m rs True info) (\<lambda>r. r = requeueAfter 3) (scaleSent cr)"
    unfolding reconcileScale_def
    by (intro reaches_after [OF stays_scaleSent ok_ready(3) [OF env that(1,2)] noScale_uses [OF uses_storageAllReadyAndStable]])
      simp_all
qed

text \<open>The request that justifies itself by the rule of \<open>MigrationSafety\<close> went to the master broker of the run.\<close>

lemma misSized_asks_master:
  assumes env: "responsive env (NamespacedName req) cr (misSized cr)"
  shows "\<exists>t. Reconcile env req s = (Ok (requeueAfter 3), t) \<and> masterAsked env (NamespacedName req) cr (history s) (history t)"
proof -
  obtain t es where t: "Reconcile env req s = (Ok (requeueAfter 3), t)" "history t = es @ history s" "scaleSent cr es"
    using misSized_reaches [OF env] unfolding reaches_def by blast
  from t(3) obtain m res as bs where e: "StatusCode res = 200"
    "es = as @ EvHttp (scaleRequest m (ClusterName (Spec cr)) (int_of_u32 (ChunkNumber (Spec cr)) * chunkNodeNumber)) (Inr res) # bs"
    unfolding scaleSent_def by (metis split_list)
  let ?q = "scaleRequest m (ClusterName (Spec cr)) (int_of_u32 (ChunkNumber (Spec cr)) * chunkNodeNumber)"
  have split: "history t = as @ EvHttp ?q (Inr res) # bs @ history s" using t(2) e(2) by simp
  have "justified (scaleRule env) (length (history s)) (history t)"
    using hvalidD(1) [OF mig.Reconcile_keeps [where n = "length (history s)"] justified_old [OF order_refl] t(1)] .
  then have "scaleRule env (EvHttp ?q (Inr res)) (bs @ history s)"
    unfolding split by (rule justified_at) simp
  then obtain v m' info where v: "reportedReady env v info (bs @ history s)" "view_Master v = Some m'"
    "?q = scaleRequest m' (ClusterName (Spec (view_Cr v))) (int_of_u32 (ChunkNumber (Spec (view_Cr v))) * chunkNodeNumber)"
    by (auto simp: scaleRule_def isScale_def request_def scaleJustified_def)
  have view: "viewOf env (bs @ history s) = Some v" by (rule reportedReady_view [OF v(1)])
  have long: "length (history s) < length (bs @ history s)"
  proof (rule ccontr)
    assume "\<not> ?thesis"
    then have "bs = []" by simp
    moreover obtain es' x where "history t = es' @ EvGetUndermoon (NamespacedName req) x # history s"
      using Reconcile_reads_first [OF t(1)] by blast
    ultimately show False using split by (auto simp: append_eq_append_conv2 Cons_eq_append_conv append_eq_Cons_conv)
  qed
  have "view_Key v = NamespacedName req \<and> view_Before v = history s \<and> Spec (view_Cr v) = Spec cr"
    using view_in_run [OF responsiveD(1) [OF env] t(1) _ long view, of "as @ [EvHttp ?q (Inr res)]"] split by simp
  with v(2,3) view split e(1) t(1) show ?thesis
    unfolding masterAsked_def by (intro exI [of _ t] conjI exI [of _ v] exI [of _ m'] exI [of _ res] exI [of _ as] exI [of _ "bs @ history s"]) simp_all
qed

section \<open>A migrating cluster is left alone\<close>

lemma migrating_reaches:
  assumes env: "responsive env (NamespacedName req) cr IsMigrating"
  shows "reaches (Reconcile env req) (\<lambda>r. r = requeueAfter 3) (\<lambda>es. \<forall>e \<in> set es. noScale e)"
proof (rule Reconcile_reaches [OF env])
  show "stays noScale (\<lambda>es. \<forall>e \<in> set es. noScale e)" unfolding stays_def by auto
  fix r and cr' :: undermoon and m rs and info :: clusterInfo
  assume that: "stableResources cr r" "Spec cr' = Spec cr" "IsMigrating info"
  have wait: "orRequeue (changeMeta env m cr' info) k = returnM (requeueAfter 3)" for k
    using that(3) by (simp add: fun_eq_iff changeMeta_def orRequeue_def bindM_def tryM_def throwM_def returnM_def)
  have "ends (reconcileScale env r cr' m rs True info) (\<lambda>r. r = requeueAfter 3) never"
    unfolding reconcileScale_def wait
    by (rule ends_bind [OF ok_ready(3) [OF env that(1,2)]]) (auto intro: ends_intros)
  moreover have "emits (reconcileScale env r cr' m rs True info) noScale"
    unfolding reconcileScale_def wait by (intro emits_intros noScale_uses [OF uses_storageAllReadyAndStable]) simp
  ultimately show "reaches (reconcileScale env r cr' m rs True info) (\<lambda>r. r = requeueAfter 3) (\<lambda>es. \<forall>e \<in> set es. noScale e)"
    by (rule reaches_ends)
qed

end
