(* ===== verification/Election.thy ===== *)
theory Election
  imports BrokerController Simulation
begin

text \<open>
  The choice of the master broker (\<open>getCurrentMaster\<close> and \<open>reconcileMaster\<close> of
  \<open>broker_controller.go\<close>) against a specification: a broker that alone has replicas is the master;
  otherwise the first one with the highest epoch among the candidates that answered.
\<close>

section \<open>The specification\<close>

text \<open>The brokers that reported replicas.\<close>

definition candidatesOf :: "(string \<times> (goerr + string list)) list \<Rightarrow> string list" where
  "candidatesOf zs = map fst (filter (\<lambda>(a, y). case y of Inl _ \<Rightarrow> False | Inr rs \<Rightarrow> rs \<noteq> []) zs)"

text \<open>The brokers that reported an epoch, with it.\<close>

definition answered :: "(string \<times> (goerr + i64)) list \<Rightarrow> (string \<times> i64) list" where
  "answered zs = concat (map (\<lambda>(a, y). case y of Inl _ \<Rightarrow> [] | Inr e \<Rightarrow> [(a, e)]) zs)"

text \<open>\<open>z\<close> is the first of \<open>zs\<close> with the highest epoch.\<close>

definition leads :: "(string \<times> i64) list \<Rightarrow> string \<times> i64 \<Rightarrow> bool" where
  "leads zs z \<longleftrightarrow> (\<exists>us vs. zs = us @ z # vs \<and> (\<forall>u \<in> set us. sint (snd u) < sint (snd z)) \<and>
     (\<forall>v \<in> set vs. sint (snd v) \<le> sint (snd z)))"

definition elects :: "(string \<times> (goerr + i64)) list \<Rightarrow> string \<Rightarrow> bool" where
  "elects zs m \<longleftrightarrow> (if answered zs = [] then m = '''' else \<exists>e. leads (answered zs) (m, e))"

text \<open>An election among \<open>as\<close>, from the history \<open>h0\<close> to \<open>h\<close>: all brokers are asked for their
  replicas, and when these do not single one out, the candidates (all brokers when there is no
  candidate) are asked for their epochs.\<close>

definition election :: "string list \<Rightarrow> event list \<Rightarrow> event list \<Rightarrow> string \<Rightarrow> bool" where
  "election as h0 h m \<longleftrightarrow> (\<exists>cfgs h1.
     asked (\<lambda>a. EvHttp (configRequest a)) (answers readConfig) as cfgs h0 h1 \<and>
     (let cands = candidatesOf (zip as cfgs); pool = (if cands = [] then as else cands) in
      if length cands = 1 then h = h1 \<and> cands = [m]
      else \<exists>eps. asked (\<lambda>a. EvHttp (epochRequest a)) (answers readEpoch) pool eps h1 h \<and> elects (zip pool eps) m))"

section \<open>The loops\<close>

lemma candidatesOf_subset: "set (candidatesOf (zip as ys)) \<subseteq> set as"
  by (auto simp: candidatesOf_def dest: set_zip_leftD)

lemma candidates_foldl:
  "foldl (\<lambda>mb (a, r). case r of Inl err \<Rightarrow> mb | Inr rs \<Rightarrow> if rs \<noteq> [] then mb @ [a] else mb) acc zs
    = acc @ candidatesOf zs"
  by (induction zs arbitrary: acc) (auto simp: candidatesOf_def split: sum.splits)

lemma masterCandidates_run:
  "\<exists>t cfgs. masterCandidates env as s = (Ok (candidatesOf (zip as cfgs)), t) \<and>
     asked (\<lambda>a. EvHttp (configRequest a)) (answers readConfig) as cfgs (history s) (history t)"
  using cfg.fold_asks [where s = s and env = env and a = "[]" and xs = as
      and f = "\<lambda>mb a r. case r of Inl err \<Rightarrow> mb | Inr rs \<Rightarrow> if rs \<noteq> [] then mb @ [a] else mb"]
  unfolding masterCandidates_def of_nat_eq_0_iff length_0_conv candidates_foldl by auto

definition epochStep :: "i64 \<times> string \<Rightarrow> string \<times> (goerr + i64) \<Rightarrow> i64 \<times> string" where
  "epochStep acc z = (case (acc, z) of ((mx, b), (a, y)) \<Rightarrow>
     (case y of Inl _ \<Rightarrow> (mx, b) | Inr e \<Rightarrow> if b = '''' \<or> sint e > sint mx then (e, a) else (mx, b)))"

lemma leads_snoc:
  "leads zs z \<Longrightarrow> sint (snd x) \<le> sint (snd z) \<Longrightarrow> leads (zs @ [x]) z"
  "leads zs z \<Longrightarrow> sint (snd z) < sint (snd x) \<Longrightarrow> leads (zs @ [x]) x"
  unfolding leads_def by fastforce+

lemma leads_single: "leads [z] z"
  unfolding leads_def by fastforce

lemma leads_mem: "leads zs z \<Longrightarrow> z \<in> set zs"
  by (auto simp: leads_def)

lemma answered_mem: "(a, e) \<in> set (answered zs) \<Longrightarrow> (a, Inr e) \<in> set zs"
  by (auto simp: answered_def split: sum.splits)

lemma epochStep_leads:
  assumes "'''' \<notin> fst ` set zs" and "foldl epochStep (0, '''') zs = (mx, b)"
  shows "if answered zs = [] then (mx, b) = (0, '''') else leads (answered zs) (b, mx)"
  using assms
proof (induction zs arbitrary: mx b rule: rev_induct)
  case Nil
  then show ?case by (simp add: answered_def)
next
  case (snoc z zs)
  obtain a y where z: "z = (a, y)" by fastforce
  obtain mx' b' where prev: "foldl epochStep (0, '''') zs = (mx', b')" by fastforce
  have IH: "if answered zs = [] then (mx', b') = (0, '''') else leads (answered zs) (b', mx')"
    using snoc.IH [OF _ prev] snoc.prems(1) by simp
  have step: "(mx, b) = epochStep (mx', b') z" using snoc.prems(2) prev by simp
  show ?case
  proof (cases y)
    case (Inl e)
    then have "answered (zs @ [z]) = answered zs" by (simp add: answered_def z)
    with IH step z Inl show ?thesis by (simp add: epochStep_def)
  next
    case (Inr e)
    have ans: "answered (zs @ [z]) = answered zs @ [(a, e)]" by (simp add: answered_def z Inr)
    show ?thesis
    proof (cases "answered zs = []")
      case True
      with IH step ans z Inr show ?thesis by (simp add: epochStep_def leads_single)
    next
      case False
      with IH have l: "leads (answered zs) (b', mx')" by simp
      then have "b' \<noteq> ''''"
        using leads_mem answered_mem snoc.prems(1) by (fastforce simp: image_iff)
      with l step ans z Inr show ?thesis
        by (auto simp: epochStep_def split: if_splits intro: leads_snoc)
    qed
  qed
qed

lemma maxEpochLoop_run:
  assumes "'''' \<notin> set pool"
  shows "\<exists>t eps mx m. maxEpochLoop env pool s = (Ok (mx, m), t) \<and> elects (zip pool eps) m \<and>
     asked (\<lambda>a. EvHttp (epochRequest a)) (answers readEpoch) pool eps (history s) (history t)"
proof -
  let ?f = "\<lambda>acc a r. epochStep acc (a, r)"
  have loop: "maxEpochLoop env pool = foldM (\<lambda>acc a. bindM (tryM (brokerClient_getEpoch env a)) (\<lambda>r. returnM (?f acc a r))) (0, '''') pool"
    unfolding maxEpochLoop_def epochStep_def by (rule arg_cong2 [where f = "\<lambda>g a. foldM g a pool"]) (auto simp: fun_eq_iff)
  obtain b t eps where run: "maxEpochLoop env pool s = (Ok b, t)"
    and asks: "asked (\<lambda>a. EvHttp (epochRequest a)) (answers readEpoch) pool eps (history s) (history t)"
    and b: "b = foldl epochStep (0, '''') (zip pool eps)"
    using epo.fold_asks [where s = s and f = ?f and env = env and a = "(0, '''')" and xs = pool] unfolding loop by (auto simp: case_prod_eta)
  obtain mx m where mm: "b = (mx, m)" by fastforce
  have "'''' \<notin> fst ` set (zip pool eps)" using assms by (auto dest: set_zip_leftD)
  from epochStep_leads [OF this] b mm have "elects (zip pool eps) m"
    unfolding elects_def by (metis prod.inject)
  with run asks mm show ?thesis by blast
qed

section \<open>The election\<close>

lemma getCurrentMaster_run:
  assumes "as \<noteq> []" and "'''' \<notin> set as"
  shows "\<exists>m t. getCurrentMaster env as s = (Ok m, t) \<and> election as (history s) (history t) m"
proof -
  obtain u cfgs where u: "masterCandidates env as s = (Ok (candidatesOf (zip as cfgs)), u)"
    and asks: "asked (\<lambda>a. EvHttp (configRequest a)) (answers readConfig) as cfgs (history s) (history u)"
    using masterCandidates_run by blast
  define cands where "cands = candidatesOf (zip as cfgs)"
  define pool where "pool = (if cands = [] then as else cands)"
  show ?thesis
  proof (cases "length cands = 1")
    case True
    then obtain m where m: "cands = [m]" by (auto simp: length_Suc_conv)
    have "getCurrentMaster env as s = (Ok m, u)"
      using assms(1) u m by (simp add: getCurrentMaster_def cands_def bindM_def returnM_def)
    moreover have "election as (history s) (history u) m"
      unfolding election_def using asks m by (fastforce simp: Let_def cands_def)
    ultimately show ?thesis by blast
  next
    case False
    have "'''' \<notin> set pool" using assms(2) candidatesOf_subset [of as cfgs] by (auto simp: pool_def cands_def)
    then obtain t eps mx m where t: "maxEpochLoop env pool u = (Ok (mx, m), t)" "elects (zip pool eps) m"
      "asked (\<lambda>a. EvHttp (epochRequest a)) (answers readEpoch) pool eps (history u) (history t)"
      using maxEpochLoop_run by blast
    have "getCurrentMaster env as s = (Ok m, t)"
      using assms(1) u t(1) False
      by (auto simp: getCurrentMaster_def bindM_def returnM_def Let_def pool_def cands_def split: if_splits)
    moreover have "election as (history s) (history t) m"
      unfolding election_def using asks t(2,3) False by (fastforce simp: Let_def cands_def pool_def)
    ultimately show ?thesis by blast
  qed
qed

lemma elects_mem: "elects (zip pool eps) m \<Longrightarrow> m = '''' \<or> m \<in> set pool"
  by (auto simp: elects_def split: if_splits dest!: leads_mem answered_mem dest: set_zip_leftD)

lemma election_mem:
  assumes "election as h0 h m"
  shows "m = '''' \<or> m \<in> set as"
proof -
  from assms obtain cfgs h1 where e: "let cands = candidatesOf (zip as cfgs); pool = (if cands = [] then as else cands) in
      if length cands = 1 then h = h1 \<and> cands = [m]
      else \<exists>eps. asked (\<lambda>a. EvHttp (epochRequest a)) (answers readEpoch) pool eps h1 h \<and> elects (zip pool eps) m"
    unfolding election_def by blast
  then show ?thesis
    using candidatesOf_subset [of as cfgs] elects_mem [of as _ m] elects_mem [of "candidatesOf (zip as cfgs)" _ m]
    by (simp add: Let_def split: if_splits) blast+
qed

section \<open>The master is recorded\<close>

lemma setMasterBrokerStatus_run:
  "\<exists>r w. setMasterBrokerStatus env cr m s =
     (outcome (case r of Inl e \<Rightarrow> Inl (if IsConflict e then errRetryReconciliation else e) | Inr cr' \<Rightarrow> Inr cr'),
      s\<lparr>world := w, history := EvUpdateStatus (cr\<lparr>Status := (Status cr)\<lparr>MasterBrokerAddress := m\<rparr>\<rparr>) r # history s\<rparr>)"
proof -
  obtain r w where "Update_Status env (cr\<lparr>Status := (Status cr)\<lparr>MasterBrokerAddress := m\<rparr>\<rparr>) (world s) = (r, w)" by fastforce
  then have "setMasterBrokerStatus env cr m s =
     (outcome (case r of Inl e \<Rightarrow> Inl (if IsConflict e then errRetryReconciliation else e) | Inr cr' \<Rightarrow> Inr cr'),
      s\<lparr>world := w, history := EvUpdateStatus (cr\<lparr>Status := (Status cr)\<lparr>MasterBrokerAddress := m\<rparr>\<rparr>) r # history s\<rparr>)"
    by (cases r) (simp_all add: setMasterBrokerStatus_def updateStatus_def callE_def call_def bindM_def tryM_def liftM_def
        throwM_def returnM_def)
  then show ?thesis by blast
qed

text \<open>What \<open>reconcileMaster\<close> does with the answer to its endpoint lookup: it passes on a lookup error, refuses an
  empty list, and otherwise elects a master among the brokers behind the service, records it in
  the resource's status, and returns the recorded resource, the master and the other brokers.\<close>

definition masterReconciled :: "undermoon \<Rightarrow> goerr + endpointAddress list \<Rightarrow> event list
    \<Rightarrow> (goerr, undermoon \<times> string \<times> string list) res \<Rightarrow> event list \<Rightarrow> bool" where
  "masterReconciled cr eps h1 out h = (case eps of
     Inl e \<Rightarrow> out = Err e \<and> h = h1
   | Inr [] \<Rightarrow> out = Err (Errorf ''broker addresses is empty'') \<and> h = h1
   | Inr (p # ps) \<Rightarrow>
       (let brokers = map (\<lambda>endpoint. genBrokerAddressFromName (ep_Hostname endpoint) cr) (p # ps) in
        \<exists>m h2 r. election brokers h1 h2 m \<and>
          h = EvUpdateStatus (cr\<lparr>Status := (Status cr)\<lparr>MasterBrokerAddress := m\<rparr>\<rparr>) r # h2 \<and>
          out = (case r of
              Inl e \<Rightarrow> Err (if IsConflict e then errRetryReconciliation else e)
            | Inr cr' \<Rightarrow> Ok (cr', m, filter (\<lambda>a. a \<noteq> m) brokers))))"

lemma reconcileMaster_run:
  "\<exists>r. masterReconciled cr (readEndpoints r) (EvGetEndpoints (svcKey svc) r # history s)
     (fst (reconcileMaster env cr svc s)) (history (snd (reconcileMaster env cr svc s)))"
proof -
  obtain r w where r: "getEndpoints env (meta_Name (svc_Meta svc)) (meta_Namespace (svc_Meta svc)) s =
      (outcome (readEndpoints r), s\<lparr>world := w, history := EvGetEndpoints (svcKey svc) r # history s\<rparr>)"
    (is "_ = (_, ?u)")
    using getEndpoints_run [of env "meta_Name (svc_Meta svc)" "meta_Namespace (svc_Meta svc)" s] by blast
  show ?thesis
  proof (cases "readEndpoints r")
    case (Inl e)
    with r show ?thesis by (auto simp: reconcileMaster_def bindM_def masterReconciled_def intro!: exI [of _ r])
  next
    case (Inr eps)
    show ?thesis
    proof (cases eps)
      case Nil
      with Inr r show ?thesis
        by (auto simp: reconcileMaster_def bindM_def masterReconciled_def getCurrentMaster_def throwM_def bindM_def
            intro!: exI [of _ r])
    next
      case (Cons p ps)
      let ?as = "map (\<lambda>endpoint. genBrokerAddressFromName (ep_Hostname endpoint) cr) eps"
      have "?as \<noteq> []" and "'''' \<notin> set ?as" using Cons bk.address_not_empty bk.address_not_empty [symmetric] by auto
      then obtain m t where m: "getCurrentMaster env ?as ?u = (Ok m, t)" "election ?as (history ?u) (history t) m"
        using getCurrentMaster_run by blast
      obtain r2 w2 where r2: "setMasterBrokerStatus env cr m t =
         (outcome (case r2 of Inl e \<Rightarrow> Inl (if IsConflict e then errRetryReconciliation else e) | Inr cr' \<Rightarrow> Inr cr'),
          t\<lparr>world := w2, history := EvUpdateStatus (cr\<lparr>Status := (Status cr)\<lparr>MasterBrokerAddress := m\<rparr>\<rparr>) r2 # history t\<rparr>)"
        using setMasterBrokerStatus_run [of env cr m t] by blast
      have run: "reconcileMaster env cr svc s = (case r2 of Inl e \<Rightarrow> Err (if IsConflict e then errRetryReconciliation else e)
          | Inr cr' \<Rightarrow> Ok (cr', m, filter (\<lambda>a. a \<noteq> m) ?as),
          t\<lparr>world := w2, history := EvUpdateStatus (cr\<lparr>Status := (Status cr)\<lparr>MasterBrokerAddress := m\<rparr>\<rparr>) r2 # history t\<rparr>)"
        using r Inr m(1) r2
        by (cases r2) (auto simp: reconcileMaster_def bindM_def returnM_def Let_def)
      show ?thesis
        using Inr Cons m(2) unfolding run
        by (intro exI [of _ r]) (simp add: masterReconciled_def Let_def, rule exI [of _ m], simp split: sum.splits)
    qed
  qed
qed

section \<open>Properties\<close>

text \<open>C10: For every non-empty list of broker addresses \<open>getCurrentMaster\<close> returns, whatever the brokers
  answer, the master that the election determines: the only broker with replicas if there is exactly one;
  otherwise the first one with the highest epoch among the brokers with replicas (among all when none has
  any) that reported an epoch; the empty address when none did. It asks every broker for its replicas once and
  the candidates for their epochs once, in order, and sends nothing else.\<close>

theorem master_elected:
  assumes "as \<noteq> []" and "'''' \<notin> set as"
  shows "\<exists>m t. getCurrentMaster env as s = (Ok m, t) \<and> election as (history s) (history t) m \<and> (m = '''' \<or> m \<in> set as)"
  using getCurrentMaster_run [OF assms] election_mem by blast

theorem master_elected_witness:
  "\<exists>m t. getCurrentMaster (simEnv simSettled) [''a:1'', ''b:1''] simStart = (Ok m, t) \<and>
     election [''a:1'', ''b:1''] [] (history t) m \<and> (m = '''' \<or> m = ''a:1'' \<or> m = ''b:1'')"
  using master_elected [of "[''a:1'', ''b:1'']" "simEnv simSettled" simStart] by (simp add: simStart_def)

text \<open>C11: \<open>reconcileMaster\<close> looks up the brokers behind the service, elects a master among them, writes it
  to the status of the resource, and returns the resource as the API server stored it, the master, and all other
  brokers as its replicas; a lookup error and a failed status update are passed on (a conflict as the request to
  retry), and an empty service is an error.\<close>

theorem master_recorded:
  "\<exists>r. masterReconciled cr (readEndpoints r) (EvGetEndpoints (svcKey svc) r # history s)
     (fst (reconcileMaster env cr svc s)) (history (snd (reconcileMaster env cr svc s)))"
  by (rule reconcileMaster_run)

end
