(* ===== verification/Registry.thy ===== *)
theory Registry
  imports MetaController StorageController CoordinatorController Simulation
begin

text \<open>
  What the controllers tell brokers, coordinators and the proxy registry: exactly which messages
  each operation sends, in which order, and what it makes of the answers.
\<close>

section \<open>Loops\<close>

lemma foldM_map: "foldM f a (map g xs) = foldM (\<lambda>a x. f a (g x)) a xs"
  by (induction xs arbitrary: a) simp_all

lemma foldM_skip: "foldM (\<lambda>a x. if P x then returnM a else f a x) a xs = foldM f a (filter (\<lambda>x. \<not> P x) xs)"
  by (induction xs arbitrary: a) simp_all

section \<open>The registry of server proxies\<close>

text \<open>What \<open>getServerProxies\<close> makes of the broker's answer.\<close>

definition proxiesOutcome :: "goerr + httpResponse \<Rightarrow> (goerr, string list) res" where
  "proxiesOutcome r = (case r of
     Inl e \<Rightarrow> Err e
   | Inr res \<Rightarrow> if StatusCode res \<noteq> 200 then Err (badStatus ''Failed to register server proxy'' res)
       else (case asServerProxies (resp_Result res) of
         None \<Rightarrow> Panic ''interface conversion'' | Some p \<Rightarrow> Ok (Addresses p)))"

lemma getServerProxies_run:
  "\<exists>r w. brokerClient_getServerProxies env m s =
     (proxiesOutcome r, s\<lparr>world := w, history := EvHttp (proxiesRequest m) r # history s\<rparr>)"
proof -
  obtain r w where "Http env (proxiesRequest m) (world s) = (r, w)" by fastforce
  then have "brokerClient_getServerProxies env m s =
     (proxiesOutcome r, s\<lparr>world := w, history := EvHttp (proxiesRequest m) r # history s\<rparr>)"
    by (cases r) (auto simp: brokerClient_getServerProxies_def http_def callE_def call_def bindM_def liftM_def throwM_def
        returnM_def panicM_def proxiesOutcome_def split: option.splits)
  then show ?thesis by blast
qed

lemma registerServerProxies_run:
  "\<exists>t ys. registerServerProxies env m ps s = (Ok (), t) \<and>
     asked (\<lambda>p. EvHttp (registerRequest m p)) (answers (readStatus {200, 409})) ps ys (history s) (history t)"
  unfolding registerServerProxies_def using reg.for_asks [where s = s and env = env and m = m and xs = ps] by auto

text \<open>The run of \<open>reconcileServerProxyRegistry\<close>, given the answer \<open>r\<close> to the request for the
  list.\<close>

definition registryReconciled :: "string \<Rightarrow> serverProxyMeta list \<Rightarrow> undermoon \<Rightarrow> event list \<Rightarrow> goerr + httpResponse
    \<Rightarrow> (goerr, unit) res \<Rightarrow> event list \<Rightarrow> bool" where
  "registryReconciled m ps cr h0 r out h \<longleftrightarrow> (\<exists>ys h1.
     asked (\<lambda>p. EvHttp (registerRequest m p)) (answers (readStatus {200, 409})) ps ys h0 h1 \<and>
     (case proxiesOutcome r of
        Ok as \<Rightarrow> out = Ok () \<and> (\<exists>zs. asked (\<lambda>a. EvHttp (deregisterRequest m a)) (answers (readStatus {200, 404}))
          (filter (\<lambda>a. a \<notin> set (genStorageStatefulSetAddrs cr) \<and> a \<notin> ProxyAddress ` set ps) as) zs
          (EvHttp (proxiesRequest m) r # h1) h)
      | Err e \<Rightarrow> out = Err e \<and> h = EvHttp (proxiesRequest m) r # h1
      | Panic p \<Rightarrow> out = Panic p \<and> h = EvHttp (proxiesRequest m) r # h1))"

lemma reconcileServerProxyRegistry_run:
  "\<exists>r. registryReconciled m ps cr (history s) r
     (fst (reconcileServerProxyRegistry env m ps cr s)) (history (snd (reconcileServerProxyRegistry env m ps cr s)))"
proof -
  obtain t ys where reg: "registerServerProxies env m ps s = (Ok (), t)"
    "asked (\<lambda>p. EvHttp (registerRequest m p)) (answers (readStatus {200, 409})) ps ys (history s) (history t)"
    using registerServerProxies_run by blast
  obtain r w where got: "brokerClient_getServerProxies env m t =
     (proxiesOutcome r, t\<lparr>world := w, history := EvHttp (proxiesRequest m) r # history t\<rparr>)" (is "_ = (_, ?u)")
    using getServerProxies_run [of env m t] by blast
  have run: "reconcileServerProxyRegistry env m ps cr s = deregisterServerProxies env m ps cr t"
    using reg(1) by (simp add: reconcileServerProxyRegistry_def bindM_def)
  show ?thesis
  proof (cases "proxiesOutcome r")
    case (Ok as)
    let ?del = "filter (\<lambda>a. a \<notin> keepSet ps cr) as"
    obtain v zs where del: "forM ?del (\<lambda>a. bindM (tryM (deregisterServerProxy env m a)) (\<lambda>_. returnM ())) ?u = (Ok (), v)"
      "asked (\<lambda>a. EvHttp (deregisterRequest m a)) (answers (readStatus {200, 404})) ?del zs (history ?u) (history v)"
      using dereg.for_asks [where s = ?u and env = env and m = m and xs = ?del] by blast
    have "deregisterServerProxies env m ps cr t = (Ok (), v)"
      using got Ok del(1) by (simp add: deregisterServerProxies_def bindM_def Let_def)
    moreover from del(2) have "asked (\<lambda>a. EvHttp (deregisterRequest m a)) (answers (readStatus {200, 404}))
        (filter (\<lambda>a. a \<notin> set (genStorageStatefulSetAddrs cr) \<and> a \<notin> ProxyAddress ` set ps) as) zs
        (EvHttp (proxiesRequest m) r # history t) (history v)"
      by (simp add: keepSet_def)
    ultimately show ?thesis
      unfolding registryReconciled_def run using Ok reg(2) by (intro exI [of _ r] exI [of _ ys] exI [of _ "history t"]) auto
  next
    case (Err e)
    with got have "deregisterServerProxies env m ps cr t = (Err e, ?u)"
      by (simp add: deregisterServerProxies_def bindM_def)
    then show ?thesis
      unfolding registryReconciled_def run using Err reg(2) by (intro exI [of _ r] exI [of _ ys] exI [of _ "history t"]) simp
  next
    case (Panic p)
    with got have "deregisterServerProxies env m ps cr t = (Panic p, ?u)"
      by (simp add: deregisterServerProxies_def bindM_def)
    then show ?thesis
      unfolding registryReconciled_def run using Panic reg(2) by (intro exI [of _ r] exI [of _ ys] exI [of _ "history t"]) simp
  qed
qed

section \<open>Replication among brokers\<close>

text \<open>The master gets the list of replicas and every replica gets the empty list, in this order,
  until a request fails.\<close>

definition replicationSet :: "string \<Rightarrow> string list \<Rightarrow> event list \<Rightarrow> (goerr, unit) res \<Rightarrow> event list \<Rightarrow> bool" where
  "replicationSet m rs h0 out h \<longleftrightarrow>
     (let msgs = (m, rs) # map (\<lambda>r. (r, [])) rs;
          told = asked (\<lambda>(a, x). EvHttp (replicasRequest a x)) (answers (readStatus {200})) in
      (out = Ok () \<and> told msgs (replicate (length msgs) (Inr ())) h0 h) \<or>
      (\<exists>n < length msgs. \<exists>e. out = Err e \<and> told (take (Suc n) msgs) (replicate n (Inr ()) @ [Inl e]) h0 h))"

lemma setBrokerReplicas_run:
  "replicationSet m rs (history s) (fst (meta_setBrokerReplicas env m rs s)) (history (snd (meta_setBrokerReplicas env m rs s)))"
proof -
  let ?msgs = "(m, rs) # map (\<lambda>r. (r, [])) rs"
  let ?run = "\<lambda>(a, x). brokerClient_setBrokerReplicas env a x"
  have map: "forM (map g xs) f = forM xs (\<lambda>x. f (g x))" for g and xs :: "string list" and f :: "string \<times> string list \<Rightarrow> ('a, unit) op"
    by (induction xs) simp_all
  have eq: "meta_setBrokerReplicas env m rs = forM ?msgs ?run"
    by (simp add: meta_setBrokerReplicas_def map)
  show ?thesis
    using repl.for_stops [OF TrueI, where s = s and env = env and xs = ?msgs]
    unfolding replicationSet_def Let_def eq by (elim exE conjE disjE) (simp_all only: fst_conv snd_conv, blast+)
qed

section \<open>The broker's epoch\<close>

text \<open>The run of \<open>fixBrokerEpoch\<close>, given the answer \<open>r\<close> to the request for the broker's epoch: the
  recovery request is sent exactly when that epoch is lower than the proxies' highest.\<close>

definition epochFixed :: "string \<Rightarrow> i64 \<Rightarrow> event list \<Rightarrow> goerr + httpResponse \<Rightarrow> (goerr, unit) res \<Rightarrow> event list \<Rightarrow> bool" where
  "epochFixed m mx h0 r out h \<longleftrightarrow> (\<exists>y. answers readEpoch r y \<and>
     (case y of
        Inl e \<Rightarrow> out = Err e \<and> h = EvHttp (epochRequest m) r # h0
      | Inr epoch \<Rightarrow>
          if sint mx \<le> sint epoch then out = Ok () \<and> h = EvHttp (epochRequest m) r # h0
          else \<exists>r2 z. answers (readStatus {200}) r2 z \<and> out = outcome z \<and>
            h = EvHttp (fixEpochRequest m) r2 # EvHttp (epochRequest m) r # h0))"

lemma fixBrokerEpoch_run:
  "\<exists>r. epochFixed m mx (history s) r (fst (fixBrokerEpoch env m mx s)) (history (snd (fixBrokerEpoch env m mx s)))"
proof -
  obtain y t r where one: "brokerClient_getEpoch env m s = (outcome y, t)" "history t = EvHttp (epochRequest m) r # history s"
    "answers readEpoch r y"
    using epo.run_one [OF TrueI, where env = env and s = s and x = m] by blast
  obtain z u r2 where two: "fixEpoch env m t = (outcome z, u)" "history u = EvHttp (fixEpochRequest m) r2 # history t"
    "answers (readStatus {200}) r2 z"
    using fixe.run_one [OF TrueI, where env = env and s = t and x = m] by blast
  have "epochFixed m mx (history s) r (fst (fixBrokerEpoch env m mx s)) (history (snd (fixBrokerEpoch env m mx s)))"
    unfolding epochFixed_def
  proof (intro exI [of _ y] conjI one(3))
    show "case y of
        Inl e \<Rightarrow> fst (fixBrokerEpoch env m mx s) = Err e \<and>
          history (snd (fixBrokerEpoch env m mx s)) = EvHttp (epochRequest m) r # history s
      | Inr epoch \<Rightarrow>
          if sint mx \<le> sint epoch then fst (fixBrokerEpoch env m mx s) = Ok () \<and>
            history (snd (fixBrokerEpoch env m mx s)) = EvHttp (epochRequest m) r # history s
          else \<exists>r2 z. answers (readStatus {200}) r2 z \<and> fst (fixBrokerEpoch env m mx s) = outcome z \<and>
            history (snd (fixBrokerEpoch env m mx s)) = EvHttp (fixEpochRequest m) r2 # EvHttp (epochRequest m) r # history s"
      using one two by (cases y) (auto simp: fixBrokerEpoch_def bindM_def returnM_def)
  qed
  then show ?thesis by blast
qed

section \<open>The highest epoch of the server proxies\<close>

lemma Max_insert_insert: "finite S \<Longrightarrow> Max (insert a (insert b S)) = Max (insert (max a b) S)" for a :: int
  by (cases "S = {}") (simp_all add: max.assoc)

lemma foldl_max:
  "sint (foldl (\<lambda>mx (x, z). if sint (fst z) > sint mx then fst z else mx) a (zip xs zs))
     = Max (insert (sint a) ((\<lambda>z. sint (fst z)) ` set zs))" if "length zs = length xs"
  for a :: i64 and zs :: "(i64 \<times> 'e) list"
  using that
proof (induction zs arbitrary: a xs)
  case Nil
  then show ?case by simp
next
  case (Cons z zs)
  then obtain x xs' where xs: "xs = x # xs'" "length zs = length xs'" by (cases xs) auto
  have "sint (if sint (fst z) > sint a then fst z else a) = max (sint a) (sint (fst z))" by simp
  with Cons.IH [OF xs(2), of "if sint (fst z) > sint a then fst z else a"] xs(1) show ?case
    by (simp add: Max_insert_insert del: Max_insert)
qed

lemma all2_fst: "list_all2 (\<lambda>r y. \<exists>err. y = Inr (g r, err)) rs (map Inr zs) \<Longrightarrow> map fst zs = map g rs"
  by (induction rs arbitrary: zs) (auto simp: list_all2_Cons1)

text \<open>The run of \<open>getMaxEpoch\<close>, given the answer \<open>r\<close> to the endpoint lookup: the proxies that
  belong to the StatefulSet are asked in order, and the result is the highest epoch, at least 0.\<close>

definition maxEpochFound :: "undermoon \<Rightarrow> goerr + endpointAddress list \<Rightarrow> event list \<Rightarrow> (goerr, i64) res \<Rightarrow> event list \<Rightarrow> bool" where
  "maxEpochFound cr eps h1 out h \<longleftrightarrow> (case eps of
     Inl e \<Rightarrow> out = Err e \<and> h = h1
   | Inr eps \<Rightarrow>
       (let as = filter (\<lambda>a. a \<in> set (genStorageStatefulSetAddrs cr)) (map (\<lambda>ep. genStorageAddressFromName (ep_Hostname ep) cr) eps) in
        \<exists>rs mx. length rs = length as \<and> h = rev (map2 (\<lambda>a. EvRedis a epochArgs) as rs) @ h1 \<and> out = Ok mx \<and>
          sint mx = Max (insert 0 (sint ` proxyEpoch ` set rs))))"

lemma maxEpoch_folded:
  assumes "sysInv u"
  shows "\<exists>mx t rs. foldM (\<lambda>mx a. bindM (serverProxyClientPool_getEpoch env a) (\<lambda>z. returnM (if sint (fst z) > sint mx then fst z else mx))) 0 as u = (Ok mx, t) \<and>
    length rs = length as \<and> history t = rev (map2 (\<lambda>a. EvRedis a epochArgs) as rs) @ history u \<and>
    sint mx = Max (insert 0 (sint ` proxyEpoch ` set rs))"
proof -
  let ?f = "\<lambda>mx a z. if sint (fst z) > sint mx then fst z else (mx :: i64)"
  have "\<exists>mx t (zs :: (i64 \<times> goerr option) list). foldM (\<lambda>mx a. bindM (serverProxyClientPool_getEpoch env a) (\<lambda>z. returnM (?f mx a z))) 0 as u = (Ok mx, t) \<and>
      sysInv t \<and> asked (\<lambda>a. EvRedis a epochArgs) (\<lambda>r y. \<exists>err. y = Inr (proxyEpoch r, err)) as (map Inr zs) (history u) (history t) \<and>
      mx = foldl (\<lambda>mx (a, z). ?f mx a z) 0 (zip as zs)"
    by (rule pep.fold_asks_total [OF assms, where env = env and f = ?f and a = 0 and xs = as]) blast
  then obtain mx t and zs :: "(i64 \<times> goerr option) list" where t: "foldM (\<lambda>mx a. bindM (serverProxyClientPool_getEpoch env a) (\<lambda>z. returnM (?f mx a z))) 0 as u = (Ok mx, t)"
    "asked (\<lambda>a. EvRedis a epochArgs) (\<lambda>r y. \<exists>err. y = Inr (proxyEpoch r, err)) as (map Inr zs) (history u) (history t)"
    "mx = foldl (\<lambda>mx (a, z). ?f mx a z) 0 (zip as zs)"
    by blast
  from t(2) obtain rs where rs: "length rs = length as" "history t = rev (map2 (\<lambda>a. EvRedis a epochArgs) as rs) @ history u"
    "list_all2 (\<lambda>r (y :: goerr + _). \<exists>err. y = Inr (proxyEpoch r, err)) rs (map Inr zs)"
    unfolding asked_def by blast
  from rs(3) have zs: "map fst zs = map proxyEpoch rs" by (rule all2_fst)
  have "(\<lambda>z. sint (fst z)) ` set zs = sint ` set (map fst zs)" by (simp add: image_image)
  then have "(\<lambda>z. sint (fst z)) ` set zs = sint ` proxyEpoch ` set rs" by (simp only: zs list.set_map)
  moreover have "length zs = length as" using zs rs(1) by (metis length_map)
  ultimately have "sint mx = Max (insert 0 (sint ` proxyEpoch ` set rs))"
    using t(3) foldl_max [of zs as 0] by simp
  with t(1) rs(1,2) show ?thesis by blast
qed

lemma getMaxEpoch_run:
  assumes "sysInv s"
  shows "\<exists>r. maxEpochFound cr (readEndpoints r) (EvGetEndpoints (svcKey svc) r # history s)
    (fst (getMaxEpoch env svc cr s)) (history (snd (getMaxEpoch env svc cr s)))"
proof -
  obtain r w where r: "bindM (getEndpoints env (meta_Name (svc_Meta svc)) (meta_Namespace (svc_Meta svc))) f s = (case readEndpoints r of
      Inl e \<Rightarrow> (Err e, s\<lparr>world := w, history := EvGetEndpoints (svcKey svc) r # history s\<rparr>)
    | Inr eps \<Rightarrow> f eps (s\<lparr>world := w, history := EvGetEndpoints (svcKey svc) r # history s\<rparr>))"
    (is "_ = (case _ of Inl e \<Rightarrow> (Err e, ?u) | Inr eps \<Rightarrow> _)") for f :: "endpointAddress list \<Rightarrow> ('a, i64) op"
    using getEndpoints_then [of env "meta_Name (svc_Meta svc)" "meta_Namespace (svc_Meta svc)" s] by blast
  show ?thesis
  proof (cases "readEndpoints r")
    case (Inl e)
    then show ?thesis unfolding getMaxEpoch_def r by (intro exI [of _ r]) (simp add: maxEpochFound_def)
  next
    case (Inr eps)
    define as where "as = filter (\<lambda>a. a \<in> set (genStorageStatefulSetAddrs cr)) (map (\<lambda>ep. genStorageAddressFromName (ep_Hostname ep) cr) eps)"
    have loop: "foldM (\<lambda>mx ep. let address = genStorageAddressFromName (ep_Hostname ep) cr in
        if address \<notin> set (genStorageStatefulSetAddrs cr) then returnM mx
        else bindM (serverProxyClientPool_getEpoch env address) (\<lambda>(epoch, err).
          returnM (if sint epoch > sint mx then epoch else mx))) 0 eps
      = foldM (\<lambda>mx a. bindM (serverProxyClientPool_getEpoch env a) (\<lambda>z. returnM (if sint (fst z) > sint mx then fst z else mx))) 0 as"
      unfolding as_def filter_map foldM_map comp_def Let_def foldM_skip by (simp add: case_prod_unfold)
    have "sysInv ?u" using assms by (simp add: sysInv_off_world)
    from maxEpoch_folded [OF this, of env as] loop Inr show ?thesis
      unfolding maxEpochFound_def getMaxEpoch_def r by (intro exI [of _ r]) (auto simp: as_def Let_def)
  qed
qed

section \<open>Announcing the master\<close>

text \<open>The run of \<open>configSetBroker\<close>, given the endpoints of the coordinators: every one of them is
  told the master, whatever the others answered; the result is that of the last one.\<close>

definition announced :: "undermoon \<Rightarrow> string \<Rightarrow> goerr + endpointAddress list \<Rightarrow> event list \<Rightarrow> (goerr, unit) res \<Rightarrow> event list \<Rightarrow> bool" where
  "announced cr m eps h1 out h \<longleftrightarrow> (case eps of
     Inl e \<Rightarrow> out = Err e \<and> h = h1
   | Inr eps \<Rightarrow> (\<exists>ys. asked (\<lambda>a. EvRedis a (announceArgs m)) readReply
       (map (\<lambda>ep. genCoordinatorAddressFromName (ep_Hostname ep) cr) eps) ys h1 h \<and>
       out = (if ys = [] then Ok () else outcome (last ys))))"

lemma foldl_last:
  "length ys = length xs \<Longrightarrow> foldl (\<lambda>err (x, y). case y of Inl e \<Rightarrow> Some e | Inr _ \<Rightarrow> None) a (zip xs ys) =
     (if ys = [] then a else case last ys of Inl e \<Rightarrow> Some e | Inr _ \<Rightarrow> None)"
  by (induction ys arbitrary: a xs) (auto simp: Suc_length_conv)

lemma announce_folded:
  assumes "sysInv u"
  shows "\<exists>b t ys. foldM (\<lambda>err a. bindM (tryM (coordinatorClientPool_setBrokerAddress env a m)) (\<lambda>y.
      returnM (case y of Inl e \<Rightarrow> Some e | Inr _ \<Rightarrow> None))) None as u = (Ok b, t) \<and>
    asked (\<lambda>a. EvRedis a (announceArgs m)) readReply as ys (history u) (history t) \<and>
    b = (if ys = [] then None else case last ys of Inl e \<Rightarrow> Some e | Inr _ \<Rightarrow> None)"
proof -
  let ?f = "\<lambda>err a y. case y of Inl e \<Rightarrow> Some e | Inr _ \<Rightarrow> None"
  let ?loop = "foldM (\<lambda>err a. bindM (tryM (coordinatorClientPool_setBrokerAddress env a m)) (\<lambda>y. returnM (?f err a y))) None as"
  have "\<exists>b t ys. ?loop u = (Ok b, t) \<and> sysInv t \<and>
      asked (\<lambda>a. EvRedis a (announceArgs m)) readReply as ys (history u) (history t) \<and>
      b = foldl (\<lambda>err (a, y). ?f err a y) None (zip as ys)"
    by (rule told.fold_asks [OF assms, where env = env and m = m and f = ?f and a = None and xs = as])
  then obtain b t ys where t: "?loop u = (Ok b, t)"
    "asked (\<lambda>a. EvRedis a (announceArgs m)) readReply as ys (history u) (history t)"
    "b = foldl (\<lambda>err (a, y). ?f err a y) None (zip as ys)"
    by blast
  with foldl_last [OF asked_length [OF t(2)], of None] show ?thesis by auto
qed

lemma configSetBroker_run:
  assumes "sysInv s"
  shows "\<exists>r. announced cr m (readEndpoints r) (EvGetEndpoints (svcKey svc) r # history s)
    (fst (configSetBroker env cr svc m s)) (history (snd (configSetBroker env cr svc m s)))"
proof -
  obtain r w where r: "bindM (getEndpoints env (meta_Name (svc_Meta svc)) (meta_Namespace (svc_Meta svc))) f s = (case readEndpoints r of
      Inl e \<Rightarrow> (Err e, s\<lparr>world := w, history := EvGetEndpoints (svcKey svc) r # history s\<rparr>)
    | Inr eps \<Rightarrow> f eps (s\<lparr>world := w, history := EvGetEndpoints (svcKey svc) r # history s\<rparr>))"
    (is "_ = (case _ of Inl e \<Rightarrow> (Err e, ?u) | Inr eps \<Rightarrow> _)") for f :: "endpointAddress list \<Rightarrow> ('a, unit) op"
    using getEndpoints_then [of env "meta_Name (svc_Meta svc)" "meta_Namespace (svc_Meta svc)" s] by blast
  show ?thesis
  proof (cases "readEndpoints r")
    case (Inl e)
    then show ?thesis unfolding configSetBroker_def r by (intro exI [of _ r]) (simp add: announced_def)
  next
    case (Inr eps)
    define as where "as = map (\<lambda>ep. genCoordinatorAddressFromName (ep_Hostname ep) cr) eps"
    have "sysInv ?u" using assms by (simp add: sysInv_off_world)
    from announce_folded [OF this, of env m as] obtain b t ys where t: "foldM (\<lambda>err a.
        bindM (tryM (coordinatorClientPool_setBrokerAddress env a m)) (\<lambda>y. returnM (case y of Inl e \<Rightarrow> Some e | Inr _ \<Rightarrow> None))) None as ?u = (Ok b, t)"
      and ys: "asked (\<lambda>a. EvRedis a (announceArgs m)) readReply as ys (history ?u) (history t)"
      and b: "b = (if ys = [] then None else case last ys of Inl e \<Rightarrow> Some e | Inr _ \<Rightarrow> None)" by blast
    from t have announce: "bindM (foldM (\<lambda>err ep. let address = genCoordinatorAddressFromName (ep_Hostname ep) cr in
        bindM (tryM (coordinatorClientPool_setBrokerAddress env address m)) (\<lambda>y. returnM (case y of Inl e \<Rightarrow> Some e | Inr _ \<Rightarrow> None)))
        None eps) g ?u = g b t" for g :: "goerr option \<Rightarrow> ('a, unit) op"
      unfolding as_def foldM_map Let_def by (simp add: bindM_def [where f = g])
    have "configSetBroker env cr svc m s = ((if ys = [] then Ok () else outcome (last ys)), t)"
      unfolding configSetBroker_def r Inr sum.case announce b by (auto simp: throwM_def returnM_def split: sum.splits)
    then show ?thesis
      unfolding announced_def using Inr ys by (intro exI [of _ r]) (auto simp: as_def)
  qed
qed

section \<open>The proxies behind the storage service\<close>

text \<open>When the endpoints are pods of the storage StatefulSet with the ordinals \<open>js\<close>, the proxies found have these
  numbers, and their addresses are those that \<open>genStorageAddressFromName\<close> gives the pods.\<close>

lemma storage_getServerProxies_run:
  assumes ep: "getEndpoints env (meta_Name (svc_Meta svc)) (meta_Namespace (svc_Meta svc)) s = (Ok eps, t)"
    and js: "map ep_Hostname eps = map (\<lambda>j. podNameOf (StorageStatefulSetName (crName cr)) (int j)) js"
    and small: "\<forall>j \<in> set js. j < 2 ^ 63"
  shows "\<exists>ps. storage_getServerProxies env svc cr s = (Ok ps, t) \<and>
    map (\<lambda>p. unat (Index p)) ps = js \<and>
    map ProxyAddress ps = map (\<lambda>j. genStorageAddressFromName (podNameOf (StorageStatefulSetName (crName cr)) (int j)) cr) js"
proof -
  let ?pod = "\<lambda>j. podNameOf (StorageStatefulSetName (crName cr)) (int j)"
  let ?proxy = "\<lambda>j. newServerProxyMeta (genStorageFQDNFromName (?pod j) cr) (genStorageFQDNFromName (?pod j) cr) (Port (Spec cr)) (word_of_int (int j))"
  have loop: "foldM (\<lambda>proxies endpoint.
         let hostname = ep_Hostname endpoint in
         case slice_from hostname (LastIndex hostname CHR ''-'' + 1) of
           None \<Rightarrow> panicM ''slice bounds out of range''
         | Some indexStr \<Rightarrow>
             (let (index, err) = ParseInt indexStr;
                  address = genStorageFQDNFromName hostname cr;
                  proxy = newServerProxyMeta address address (Port (Spec cr)) index
              in returnM (proxies @ [proxy]))) acc eps = (returnM (acc @ map ?proxy js) :: ('a, serverProxyMeta list) op)" for acc
    using js small
  proof (induction eps arbitrary: acc js)
    case (Cons e eps)
    then obtain j js' where j: "js = j # js'" "ep_Hostname e = ?pod j" "map ep_Hostname eps = map ?pod js'"
      by (cases js) auto
    from j(1) Cons.prems(2) have "int j < 2 ^ 63" by (simp flip: of_nat_less_iff)
    then have ord: "slice_from (?pod j) (LastIndex (?pod j) CHR ''-'' + 1) = Some (itoa (int j))"
      "ParseInt (itoa (int j)) = (word_of_int (int j), None)"
      using podNameOf_ordinal [of "int j"] by auto
    show ?case
      using Cons.IH [OF j(3)] Cons.prems(2) j(1) by (simp add: j(2) ord Let_def)
  qed simp
  have step: "bindM (getEndpoints env (meta_Name (svc_Meta svc)) (meta_Namespace (svc_Meta svc))) g s = g eps t"
    for g :: "endpointAddress list \<Rightarrow> ('a, serverProxyMeta list) op"
    using ep by (simp add: bindM_def)
  have run: "storage_getServerProxies env svc cr s = (Ok (map ?proxy js), t)"
    unfolding storage_getServerProxies_def step loop by (simp add: returnM_def)
  have "unat (word_of_int (int j) :: i64) = j" if "j \<in> set js" for j
    using small that by (auto simp: unsigned_of_nat take_bit_nat_eq_self_iff dest!: bspec)
  then show ?thesis
    unfolding run by (auto simp: newServerProxyMeta_def genStorageAddressFromName_def intro!: map_idI)
qed

section \<open>Properties\<close>

text \<open>C14: \<open>reconcileServerProxyRegistry\<close> sends one registration per proxy behind the storage service, in order and
  whatever the answers; then asks the broker for the registered addresses, and sends one removal for each
  address in that list that is neither an expected pod of the StatefulSet nor one of the proxies just
  registered, in the order of the list, and no other. It fails only when the list cannot be had.\<close>

theorem registry_exact:
  "\<exists>r. registryReconciled m ps cr (history s) r
     (fst (reconcileServerProxyRegistry env m ps cr s)) (history (snd (reconcileServerProxyRegistry env m ps cr s)))"
  by (rule reconcileServerProxyRegistry_run)

text \<open>C17: \<open>setBrokerReplicas\<close> gives the master the list of its replicas and each replica the empty list, in
  this order; it succeeds exactly when all brokers answered with status 200 and stops at the first failure.\<close>

theorem replication_told:
  "replicationSet m rs (history s) (fst (meta_setBrokerReplicas env m rs s)) (history (snd (meta_setBrokerReplicas env m rs s)))"
  by (rule setBrokerReplicas_run)

text \<open>C16: \<open>fixBrokerEpoch\<close> asks the master for its epoch and sends the recovery request exactly when that epoch is
  below the highest one of the server proxies.\<close>

theorem broker_epoch_fixed:
  "\<exists>r. epochFixed m mx (history s) r (fst (fixBrokerEpoch env m mx s)) (history (snd (fixBrokerEpoch env m mx s)))"
  by (rule fixBrokerEpoch_run)

lemma sysInv_simStart: "sysInv simStart"
  by (simp add: sysInv_def simStart_def poolInv_new) (simp add: newRedisClientPool_def)

text \<open>C15: \<open>getMaxEpoch\<close> asks every server proxy behind the service that is an expected pod for its epoch,
  through the pool's client for that address, and returns the maximum of 0 and the epochs reported; a proxy
  that cannot be reached counts as 0.\<close>

theorem max_epoch_found:
  assumes "sysInv s"
  shows "\<exists>r. maxEpochFound cr (readEndpoints r) (EvGetEndpoints (svcKey svc) r # history s)
    (fst (getMaxEpoch env svc cr s)) (history (snd (getMaxEpoch env svc cr s)))"
  by (rule getMaxEpoch_run [OF assms])

theorem max_epoch_found_witness:
  "sysInv simStart \<and> (\<exists>r. maxEpochFound simResource (readEndpoints r) [EvGetEndpoints \<lparr>nn_Name = ''um-stg-svc'', nn_Namespace = ''ns''\<rparr> r]
    (fst (getMaxEpoch (simEnv simSettled) (createStorageService simResource) simResource simStart))
    (history (snd (getMaxEpoch (simEnv simSettled) (createStorageService simResource) simResource simStart))))"
proof -
  have "svcKey (createStorageService simResource) = \<lparr>nn_Name = ''um-stg-svc'', nn_Namespace = ''ns''\<rparr>"
    by (simp add: createStorageService_def StorageServiceName_def simResource_def simMeta_def Let_def)
  moreover have "history simStart = []" by (simp add: simStart_def)
  ultimately show ?thesis
    using max_epoch_found [OF sysInv_simStart, of simResource "createStorageService simResource" "simEnv simSettled"] sysInv_simStart
    by metis
qed

text \<open>C18: \<open>configSetBroker\<close> tells every coordinator behind the service the master's address, in order and
  whatever the others answer; its result is the last coordinator's, so that the failure of any other one is not
  reported.\<close>

theorem coordinators_told:
  assumes "sysInv s"
  shows "\<exists>r. announced cr m (readEndpoints r) (EvGetEndpoints (svcKey svc) r # history s)
    (fst (configSetBroker env cr svc m s)) (history (snd (configSetBroker env cr svc m s)))"
  by (rule configSetBroker_run [OF assms])

theorem coordinators_told_witness:
  "sysInv simStart \<and> (\<exists>r. announced simResource ''b:1'' (readEndpoints r) [EvGetEndpoints \<lparr>nn_Name = ''um-cd-svc'', nn_Namespace = ''ns''\<rparr> r]
    (fst (configSetBroker (simEnv simSettled) simResource (createCoordinatorService simResource) ''b:1'' simStart))
    (history (snd (configSetBroker (simEnv simSettled) simResource (createCoordinatorService simResource) ''b:1'' simStart))))"
proof -
  have "svcKey (createCoordinatorService simResource) = \<lparr>nn_Name = ''um-cd-svc'', nn_Namespace = ''ns''\<rparr>"
    by (simp add: createCoordinatorService_def CoordinatorServiceName_def simResource_def simMeta_def Let_def)
  moreover have "history simStart = []" by (simp add: simStart_def)
  ultimately show ?thesis
    using coordinators_told [OF sysInv_simStart, of simResource "''b:1''" "createCoordinatorService simResource" "simEnv simSettled"] sysInv_simStart
    by metis
qed

text \<open>C19: For pods named by the StatefulSet controller, \<open>getServerProxies\<close> reads each pod's ordinal back out of
  its host name and builds the address that the operator expects for it: the proxies found have exactly the
  ordinals of the pods behind the service, in order.\<close>

theorem proxies_roundtrip:
  assumes "getEndpoints env (meta_Name (svc_Meta svc)) (meta_Namespace (svc_Meta svc)) s = (Ok eps, t)"
    and "map ep_Hostname eps = map (\<lambda>j. podNameOf (StorageStatefulSetName (crName cr)) (int j)) js"
    and "\<forall>j \<in> set js. j < 2 ^ 63"
  shows "\<exists>ps. storage_getServerProxies env svc cr s = (Ok ps, t) \<and> map (\<lambda>p. unat (Index p)) ps = js \<and>
    map ProxyAddress ps = map (\<lambda>j. genStorageAddressFromName (podNameOf (StorageStatefulSetName (crName cr)) (int j)) cr) js"
  by (rule storage_getServerProxies_run [OF assms])

theorem proxies_roundtrip_witness:
  "\<exists>t ps. storage_getServerProxies (simEnv simSettled) (createStorageService simResource) simResource simStart = (Ok ps, t) \<and>
     map (\<lambda>p. unat (Index p)) ps = [0, 1]"
proof -
  let ?svc = "createStorageService simResource"
  let ?eps = "map (\<lambda>h. \<lparr>ep_Hostname = h, ep_IP = ''10.0.0.1''\<rparr>) [''um-stg-ss-0'', ''um-stg-ss-1'']"
  have "\<exists>t. getEndpoints (simEnv simSettled) (meta_Name (svc_Meta ?svc)) (meta_Namespace (svc_Meta ?svc)) simStart = (Ok ?eps, t)"
    by (simp add: createStorageService_def StorageServiceName_def simResource_def Let_def getEndpoints_def getEndpointsObj_def
        callE_def call_def bindM_def tryM_def liftM_def returnM_def sim_defs)
  then obtain t where t: "getEndpoints (simEnv simSettled) (meta_Name (svc_Meta ?svc)) (meta_Namespace (svc_Meta ?svc)) simStart = (Ok ?eps, t)" ..
  have digits: "char_of (48 :: nat) = CHR ''0''" "char_of (49 :: nat) = CHR ''1''" by code_simp+
  have "map ep_Hostname ?eps = map (\<lambda>j. podNameOf (StorageStatefulSetName (crName simResource)) (int j)) [0, 1]"
    by (simp add: podNameOf_def StorageStatefulSetName_def simResource_def simMeta_def itoa_def utoa.simps digit_char_def digits)
  from proxies_roundtrip [OF t this] show ?thesis by fastforce
qed

end
