(* ===== verification/ClusterMeta.thy ===== *)
theory ClusterMeta
  imports Registry MigrationSafety Robustness
begin

text \<open>
  The cluster in the broker's metadata: when it is created, when its size is changed, and the order
  of the messages of \<open>reconcileMeta\<close> and \<open>changeMeta\<close>. What an operation does is a relation between the
  history before, its outcome and the history after; the relations are composed as the operations
  are.
\<close>

section \<open>Operations as relations\<close>

definition runs :: "(event list \<Rightarrow> (goerr, 'a) res \<Rightarrow> event list \<Rightarrow> bool) \<Rightarrow> ('w, 'a) op \<Rightarrow> bool" where
  "runs R m \<longleftrightarrow> (\<forall>s. R (history s) (fst (m s)) (history (snd (m s))))"

text \<open>First \<open>R\<close>, then, unless it failed, \<open>S\<close> with its value.\<close>

definition followedBy :: "(event list \<Rightarrow> (goerr, 'a) res \<Rightarrow> event list \<Rightarrow> bool)
    \<Rightarrow> ('a \<Rightarrow> event list \<Rightarrow> (goerr, 'b) res \<Rightarrow> event list \<Rightarrow> bool)
    \<Rightarrow> event list \<Rightarrow> (goerr, 'b) res \<Rightarrow> event list \<Rightarrow> bool" where
  "followedBy R S h0 out h \<longleftrightarrow> (\<exists>o1 h1. R h0 o1 h1 \<and> (case o1 of
     Ok x \<Rightarrow> S x h1 out h | Err e \<Rightarrow> out = Err e \<and> h = h1 | Panic p \<Rightarrow> out = Panic p \<and> h = h1))"

lemma runsI: "(\<And>s r t. m s = (r, t) \<Longrightarrow> R (history s) r (history t)) \<Longrightarrow> runs R m"
  unfolding runs_def by (metis prod.collapse)

lemma runsD: "runs R m \<Longrightarrow> m s = (r, t) \<Longrightarrow> R (history s) r (history t)"
  unfolding runs_def by (metis fst_conv snd_conv)

lemma runs_bind:
  assumes "runs R m" and "\<And>x. runs (S x) (f x)"
  shows "runs (followedBy R S) (bindM m f)"
proof (rule runsI)
  fix s r t assume b: "bindM m f s = (r, t)"
  obtain o1 u where m: "m s = (o1, u)" by fastforce
  from runsD [OF assms(1) m] b m show "followedBy R S (history s) r (history t)"
    unfolding followedBy_def
    by (intro exI [of _ o1] exI [of _ "history u"]) (auto simp: bindM_def split: res.splits dest: runsD [OF assms(2)])
qed

lemma runs_throw: "runs (\<lambda>h0 out h. out = Err e \<and> h = h0) (throwM e)"
  by (simp add: runs_def throwM_def)

lemma runs_return: "runs (\<lambda>h0 out h. out = Ok x \<and> h = h0) (returnM x)"
  by (simp add: runs_def returnM_def)

lemma runs_if: "runs R m \<Longrightarrow> runs S n \<Longrightarrow> runs (if b then R else S) (if b then m else n)"
  by simp

section \<open>Answers of the broker\<close>

definition accepted :: "goerr + httpResponse \<Rightarrow> bool" where
  "accepted r \<longleftrightarrow> (\<exists>res. r = Inr res \<and> StatusCode res = 200)"

text \<open>The answer has one of these status codes and this code in its body.\<close>

definition says :: "int set \<Rightarrow> string \<Rightarrow> goerr + httpResponse \<Rightarrow> bool" where
  "says codes str r \<longleftrightarrow> (\<exists>res. r = Inr res \<and> StatusCode res \<in> codes \<and> errorIs res str)"

lemma says_unique: "says c a r \<Longrightarrow> says d b r \<Longrightarrow> a = b"
  by (auto simp: says_def errorIs_def split: option.splits)

lemma says_not_accepted: "says c a r \<Longrightarrow> 200 \<notin> c \<Longrightarrow> \<not> accepted r"
  by (auto simp: says_def accepted_def)

lemmas errStr_defs = errStrAlreadyExists_def errStrMigrationRunning_def errStrNoAvailableResource_def
  errStrFreeNodeFound_def errStrFreeNodeNotFound_def

text \<open>An operation that is one request: its outcome is a function of the answer.\<close>

definition oneAnswer :: "httpRequest \<Rightarrow> (goerr + httpResponse \<Rightarrow> (goerr, 'a) res \<Rightarrow> bool)
    \<Rightarrow> event list \<Rightarrow> (goerr, 'a) res \<Rightarrow> event list \<Rightarrow> bool" where
  "oneAnswer q M h0 out h \<longleftrightarrow> (\<exists>r. h = EvHttp q r # h0 \<and> M r out)"

lemma runs_http:
  assumes "\<And>q w e. fst (Http env q w) = Inl e \<Longrightarrow> \<not> sentinel e"
    and "\<And>e. \<not> sentinel e \<Longrightarrow> M (Inl e) (Err e)"
    and "\<And>res s. M (Inr res) (fst (f res s)) \<and> history (snd (f res s)) = history s"
  shows "runs (oneAnswer q M) (bindM (http env q) f)"
proof (rule runsI)
  fix s x t assume b: "bindM (http env q) f s = (x, t)"
  obtain r w where r: "Http env q (world s) = (r, w)" by fastforce
  show "oneAnswer q M (history s) x (history t)"
  proof (cases r)
    case (Inl e)
    with b r have "x = Err e" "history t = EvHttp q (Inl e) # history s"
      by (auto simp: http_def callE_def call_def bindM_def liftM_def throwM_def)
    moreover have "\<not> sentinel e" using assms(1) [of q "world s" e] r Inl by simp
    ultimately show ?thesis using assms(2) by (auto simp: oneAnswer_def)
  next
    case (Inr res)
    let ?u = "s\<lparr>world := w, history := EvHttp q (Inr res) # history s\<rparr>"
    from b r Inr have "f res ?u = (x, t)"
      by (auto simp: http_def callE_def call_def bindM_def liftM_def returnM_def)
    with assms(3) [of res ?u] show ?thesis by (auto simp: oneAnswer_def)
  qed
qed

lemma runs_mono: "runs R m \<Longrightarrow> (\<And>h0 out h. R h0 out h \<Longrightarrow> R' h0 out h) \<Longrightarrow> runs R' m"
  unfolding runs_def by blast

lemma oneAnswer_mono: "oneAnswer q M h0 out h \<Longrightarrow> (\<And>r out. M r out \<Longrightarrow> M' r out) \<Longrightarrow> oneAnswer q M' h0 out h"
  unfolding oneAnswer_def by blast

text \<open>Code that looks at the error of such an operation and makes no further call.\<close>

lemma oneAnswer_then:
  assumes "runs (oneAnswer q M) m" and "\<And>r x s. M r (Ok x) \<Longrightarrow> M' r (fst (f (Inr x) s)) \<and> snd (f (Inr x) s) = s"
    and "\<And>r e s. M r (Err e) \<Longrightarrow> M' r (fst (f (Inl e) s)) \<and> snd (f (Inl e) s) = s" and "\<And>r p. \<not> M r (Panic p)"
  shows "runs (oneAnswer q M') (bindM (tryM m) f)"
proof (rule runsI)
  fix s x t assume b: "bindM (tryM m) f s = (x, t)"
  obtain o1 u where m: "m s = (o1, u)" by fastforce
  from runsD [OF assms(1) m] obtain r where r: "history u = EvHttp q r # history s" "M r o1"
    by (auto simp: oneAnswer_def)
  show "oneAnswer q M' (history s) x (history t)"
  proof (cases o1)
    case (Ok y)
    with b m have "f (Inr y) u = (x, t)" by (simp add: bindM_def tryM_def)
    with assms(2) [of r y u] r Ok show ?thesis by (auto simp: oneAnswer_def)
  next
    case (Err e)
    with b m have "f (Inl e) u = (x, t)" by (simp add: bindM_def tryM_def)
    with assms(3) [of r e u] r Err show ?thesis by (auto simp: oneAnswer_def)
  qed (use r assms(4) in simp)
qed

section \<open>Creating the cluster\<close>

abbreviation namesRequest :: "string \<Rightarrow> httpRequest" where
  "namesRequest address \<equiv> (request GET (''http://'' @ address @ ''/api/v2/clusters/names''))\<lparr>req_SetResult := Some KClusterNames\<rparr>"

abbreviation createRequest :: "string \<Rightarrow> string \<Rightarrow> i64 \<Rightarrow> httpRequest" where
  "createRequest address clusterName nodeNumber \<equiv> (request POST (''http://'' @ address @ ''/api/v2/clusters/meta/'' @ clusterName))
     \<lparr>req_Body := Some (PCreateCluster \<lparr>NodeNumber = nodeNumber\<rparr>), req_SetError := Some KErrorResponse\<rparr>"

definition readNames :: "goerr + httpResponse \<Rightarrow> string list option" where
  "readNames r = (case r of Inl _ \<Rightarrow> None | Inr res \<Rightarrow>
     if StatusCode res = 200 then map_option Names (asClusterNames (resp_Result res)) else None)"

text \<open>The cluster is asked for with four nodes per chunk, exactly when the broker does not list it. That it exists
  already is a success, that there are not enough proxies a reason to retry.\<close>

definition clusterCreated :: "string \<Rightarrow> undermoon \<Rightarrow> event list \<Rightarrow> (goerr, unit) res \<Rightarrow> event list \<Rightarrow> bool" where
  "clusterCreated m cr = followedBy
     (oneAnswer (namesRequest m) (\<lambda>r out. case readNames r of
        None \<Rightarrow> \<exists>e. \<not> sentinel e \<and> out = Err e
      | Some names \<Rightarrow> out = Ok (ClusterName (Spec cr) \<in> set names)))
     (\<lambda>exists. if exists then (\<lambda>h0 out h. out = Ok () \<and> h = h0)
      else oneAnswer (createRequest m (ClusterName (Spec cr)) (word_of_int (4 * uint (ChunkNumber (Spec cr))))) (\<lambda>r out.
        if accepted r \<or> says {409} ''ALREADY_EXISTED'' r then out = Ok ()
        else if says {409} ''NO_AVAILABLE_RESOURCE'' r then out = Err errRetryReconciliation
        else \<exists>e. \<not> sentinel e \<and> out = Err e))"

lemma nodes_of_chunks: "int_of_u32 c * chunkNodeNumber = word_of_int (4 * uint c)"
  by (simp add: int_of_u32_def chunkNodeNumber_def mult.commute)

lemma createCluster_runs:
  assumes "foreignErrors env"
  shows "runs (clusterCreated m cr) (meta_createCluster env m cr)"
proof -
  have foreign: "fst (Http env q w) = Inl e \<Longrightarrow> \<not> sentinel e" for q w e using assms by (auto simp: foreignErrors_def)
  have "runs (oneAnswer (namesRequest m) (\<lambda>r out. case readNames r of
        None \<Rightarrow> \<exists>e. \<not> sentinel e \<and> out = Err e | Some names \<Rightarrow> out = Ok (ClusterName (Spec cr) \<in> set names)))
      (clusterExists env m (ClusterName (Spec cr)))"
    unfolding clusterExists_def
    by (rule runs_http [OF foreign])
      (auto simp: readNames_def throwM_def returnM_def list_ex_iff split: option.splits)
  moreover have "runs (oneAnswer (createRequest m (ClusterName (Spec cr)) (word_of_int (4 * uint (ChunkNumber (Spec cr))))) (\<lambda>r out.
        if accepted r \<or> says {409} ''ALREADY_EXISTED'' r then out = Ok ()
        else if says {409} ''NO_AVAILABLE_RESOURCE'' r then out = Err errRetryReconciliation
        else \<exists>e. \<not> sentinel e \<and> out = Err e))
      (brokerClient_createCluster env m (ClusterName (Spec cr)) (int_of_u32 (ChunkNumber (Spec cr))))"
    unfolding brokerClient_createCluster_def nodes_of_chunks
    by (rule runs_http [OF foreign])
      (auto simp: accepted_def says_def errorIs_def errStr_defs throwM_def returnM_def split: option.splits)
  ultimately show ?thesis
    unfolding meta_createCluster_def clusterCreated_def by (intro runs_bind runs_if runs_return)
qed

section \<open>Changing the size\<close>

abbreviation freeNodesRequest :: "string \<Rightarrow> string \<Rightarrow> httpRequest" where
  "freeNodesRequest address clusterName \<equiv>
     (request DELETE (''http://'' @ address @ ''/api/v2/clusters/free_nodes/'' @ clusterName))\<lparr>req_SetError := Some KErrorResponse\<rparr>"

text \<open>While a migration runs nothing is sent. Otherwise the broker is asked to move the slots to four nodes per
  chunk; when it accepts, or says that there are free nodes in the way, it is asked to remove the free nodes, which
  is also fine when there are none. Free nodes in the way and a running migration are reasons to retry.\<close>

definition sizeChanged :: "string \<Rightarrow> undermoon \<Rightarrow> clusterInfo \<Rightarrow> event list \<Rightarrow> (goerr, unit) res \<Rightarrow> event list \<Rightarrow> bool" where
  "sizeChanged m cr info = (if IsMigrating info then (\<lambda>h0 out h. out = Err errRetryReconciliation \<and> h = h0)
     else followedBy
       (oneAnswer (scaleRequest m (ClusterName (Spec cr)) (word_of_int (4 * uint (ChunkNumber (Spec cr))))) (\<lambda>r out.
          if accepted r then out = Ok False
          else if says {400, 409} ''FREE_NODE_FOUND'' r then out = Ok True
          else if says {400, 409} ''MIGRATION_RUNNING'' r then out = Err errRetryReconciliation
          else \<exists>e. \<not> sentinel e \<and> out = Err e))
       (\<lambda>retry. oneAnswer (freeNodesRequest m (ClusterName (Spec cr))) (\<lambda>r out.
          if accepted r \<or> says {404, 409} ''FREE_NODE_NOT_FOUND'' r
          then out = (if retry then Err errRetryReconciliation else Ok ())
          else if says {404, 409} ''MIGRATION_RUNNING'' r then out = Err errRetryReconciliation
          else \<exists>e. \<not> sentinel e \<and> out = Err e)))"

lemma scaleNodes_runs:
  assumes "foreignErrors env"
  shows "runs (oneAnswer (scaleRequest m c (word_of_int (4 * uint n))) (\<lambda>r out.
        if accepted r then out = Ok ()
        else if says {400, 409} ''FREE_NODE_FOUND'' r then out = Err errFreeNodeFound
        else if says {400, 409} ''MIGRATION_RUNNING'' r then out = Err errMigrationRunning
        else \<exists>e. \<not> sentinel e \<and> out = Err e)) (scaleNodes env m c (int_of_u32 n))"
proof -
  have foreign: "fst (Http env q w) = Inl e \<Longrightarrow> \<not> sentinel e" for q w e using assms by (auto simp: foreignErrors_def)
  show ?thesis
    unfolding scaleNodes_def nodes_of_chunks Let_def
    by (rule runs_http [OF foreign])
      (auto simp: accepted_def says_def errorIs_def errStr_defs throwM_def returnM_def split: option.splits)
qed

lemma removeFreeNodes_runs:
  assumes "foreignErrors env"
  shows "runs (oneAnswer (freeNodesRequest m c) (\<lambda>r out.
        if accepted r \<or> says {404, 409} ''FREE_NODE_NOT_FOUND'' r then out = Ok ()
        else if says {404, 409} ''MIGRATION_RUNNING'' r then out = Err errMigrationRunning
        else \<exists>e. \<not> sentinel e \<and> out = Err e)) (removeFreeNodes env m c)"
proof -
  have foreign: "fst (Http env q w) = Inl e \<Longrightarrow> \<not> sentinel e" for q w e using assms by (auto simp: foreignErrors_def)
  show ?thesis
    unfolding removeFreeNodes_def
    by (rule runs_http [OF foreign])
      (auto simp: accepted_def says_def errorIs_def errStr_defs throwM_def returnM_def split: option.splits)
qed

text \<open>The two requests of \<open>changeNodeNumber\<close>, each with the code that looks at its error.\<close>

lemma changeNodeNumber_eq:
  "changeNodeNumber env m cr =
     bindM (bindM (tryM (scaleNodes env m (ClusterName (Spec cr)) (int_of_u32 (ChunkNumber (Spec cr))))) (\<lambda>r. case r of
         Inl e \<Rightarrow> if e = errFreeNodeFound then returnM True
           else if e = errMigrationRunning then throwM errRetryReconciliation else throwM e
       | Inr _ \<Rightarrow> returnM False))
     (\<lambda>retry. bindM (tryM (removeFreeNodes env m (ClusterName (Spec cr)))) (\<lambda>r. case r of
         Inl e \<Rightarrow> if e = errMigrationRunning then throwM errRetryReconciliation else throwM e
       | Inr _ \<Rightarrow> if retry then throwM errRetryReconciliation else returnM ()))"
  unfolding changeNodeNumber_def Let_def bindM_assoc
  by (rule arg_cong2 [where f = bindM, OF refl], rule ext) (simp split: sum.split)

lemma changeNodeNumber_runs:
  assumes "foreignErrors env" and "\<not> IsMigrating info"
  shows "runs (sizeChanged m cr info) (changeNodeNumber env m cr)"
  unfolding changeNodeNumber_eq sizeChanged_def if_not_P [OF assms(2)]
  by (intro runs_bind oneAnswer_then [OF scaleNodes_runs [OF assms(1)]] oneAnswer_then [OF removeFreeNodes_runs [OF assms(1)]])
    (auto simp: returnM_def throwM_def sentinel_def split: if_splits)

lemma sizeChanged_errors: "sizeChanged m cr info h0 out h \<Longrightarrow> out \<noteq> Err errMigrationRunning \<and> (\<forall>p. out \<noteq> Panic p)"
  by (auto simp: sizeChanged_def followedBy_def oneAnswer_def sentinel_def split: if_splits res.splits)

lemma changeMeta_runs:
  assumes "foreignErrors env"
  shows "runs (sizeChanged m cr info) (changeMeta env m cr info)"
proof (cases "IsMigrating info")
  case True
  then show ?thesis by (simp add: changeMeta_def sizeChanged_def runs_throw)
next
  case False
  note run = changeNodeNumber_runs [OF assms False, of m cr]
  have "changeMeta env m cr info s = changeNodeNumber env m cr s" for s
    using runsD [OF run, THEN sizeChanged_errors, of s] False
    by (cases "changeNodeNumber env m cr s", cases "fst (changeNodeNumber env m cr s)")
      (auto simp: changeMeta_def bindM_def tryM_def returnM_def throwM_def)
  with run show ?thesis by (simp add: runs_def)
qed

section \<open>The reconciliation of the metadata\<close>

definition infoOutcome :: "goerr + httpResponse \<Rightarrow> (goerr, clusterInfo) res \<Rightarrow> bool" where
  "infoOutcome r out \<longleftrightarrow> (case r of
     Inr res \<Rightarrow> (if StatusCode res = 200 then (case asClusterInfo (resp_Result res) of
        Some info \<Rightarrow> out = Ok info | None \<Rightarrow> (\<exists>e. \<not> sentinel e \<and> out = Err e)) else (\<exists>e. \<not> sentinel e \<and> out = Err e))
   | Inl e \<Rightarrow> out = Err e)"

text \<open>First the replication among the brokers, then the registry of proxies, then, only when all storage pods are
  ready, the cluster and the report on it.\<close>

definition metaReconciled :: "string \<Rightarrow> string list \<Rightarrow> serverProxyMeta list \<Rightarrow> undermoon \<Rightarrow> bool
    \<Rightarrow> event list \<Rightarrow> (goerr, clusterInfo) res \<Rightarrow> event list \<Rightarrow> bool" where
  "metaReconciled m rs ps cr ready =
     followedBy (replicationSet m rs) (\<lambda>_.
     followedBy (\<lambda>h0 out h. \<exists>r. registryReconciled m ps cr h0 r out h) (\<lambda>_.
     if \<not> ready then (\<lambda>h0 out h. out = Err errRetryReconciliation \<and> h = h0)
     else followedBy (clusterCreated m cr) (\<lambda>_.
       oneAnswer (infoRequest m (ClusterName (Spec cr))) infoOutcome)))"

lemma reconcileMeta_runs:
  assumes "foreignErrors env"
  shows "runs (metaReconciled m rs ps cr ready) (reconcileMeta env m rs ps cr ready)"
proof -
  have foreign: "fst (Http env q w) = Inl e \<Longrightarrow> \<not> sentinel e" for q w e using assms by (auto simp: foreignErrors_def)
  have info: "runs (oneAnswer (infoRequest m (ClusterName (Spec cr))) infoOutcome) (meta_getClusterInfo env m cr)"
    unfolding meta_getClusterInfo_def brokerClient_getClusterInfo_def
    by (rule runs_http [OF foreign]) (auto simp: infoOutcome_def throwM_def returnM_def split: option.splits)
  have "runs (replicationSet m rs) (meta_setBrokerReplicas env m rs)"
    unfolding runs_def by (blast intro: setBrokerReplicas_run)
  moreover have "runs (\<lambda>h0 out h. \<exists>r. registryReconciled m ps cr h0 r out h) (reconcileServerProxyRegistry env m ps cr)"
    unfolding runs_def by (blast intro: reconcileServerProxyRegistry_run)
  ultimately show ?thesis
    unfolding reconcileMeta_def metaReconciled_def
    by (intro runs_bind runs_if runs_throw createCluster_runs [OF assms] info)
qed

section \<open>Properties\<close>

text \<open>C12: \<open>reconcileMeta\<close> works in a fixed order and stops at the first failure: the replication among the brokers, the registry of server proxies,
  then, only when all storage pods are ready (otherwise it asks for a retry and sends nothing more), the creation of the cluster, which is
  requested with four nodes per chunk exactly when the broker does not list it, and the report on the cluster.\<close>

theorem meta_reconciled:
  assumes "foreignErrors env"
  shows "metaReconciled m rs ps cr ready (history s) (fst (reconcileMeta env m rs ps cr ready s))
    (history (snd (reconcileMeta env m rs ps cr ready s)))"
  using reconcileMeta_runs [OF assms] unfolding runs_def by blast

theorem meta_reconciled_witness:
  "foreignErrors (simEnv simSettled) \<and>
   metaReconciled ''b:1'' [] [] simResource True [] (fst (reconcileMeta (simEnv simSettled) ''b:1'' [] [] simResource True simStart))
    (history (snd (reconcileMeta (simEnv simSettled) ''b:1'' [] [] simResource True simStart)))"
  using meta_reconciled [of "simEnv simSettled" "''b:1''" "[]" "[]" simResource True simStart] documented_sim [of simSettled]
  by (simp add: documented_def simStart_def)

text \<open>C13: \<open>changeMeta\<close> sends nothing while a migration runs. Otherwise it asks the broker to move the slots to four nodes per chunk, and when this
  is accepted or the broker says that free nodes are in the way, to remove the free nodes; it succeeds exactly when the
  first request was accepted and the second was accepted or found no free nodes. A running migration and free nodes in
  the way become the request to retry; every other failure is passed on as an error that is none of the operator's sentinels.\<close>

theorem size_changed:
  assumes "foreignErrors env"
  shows "sizeChanged m cr info (history s) (fst (changeMeta env m cr info s)) (history (snd (changeMeta env m cr info s)))"
  using changeMeta_runs [OF assms] unfolding runs_def by blast

theorem size_changed_witness:
  "foreignErrors (simEnv simSettled) \<and>
   sizeChanged ''b:1'' simResource simInfo [] (fst (changeMeta (simEnv simSettled) ''b:1'' simResource simInfo simStart))
    (history (snd (changeMeta (simEnv simSettled) ''b:1'' simResource simInfo simStart)))"
  using size_changed [of "simEnv simSettled" "''b:1''" simResource simInfo simStart] documented_sim [of simSettled]
  by (simp add: documented_def simStart_def)

end
