(* ===== verification/Capacity.thy ===== *)
theory Capacity
  imports CallRules Simulation
begin

text \<open>
  How many pods the operator asks for and how many it waits for: the creation of the storage
  workload, its growth and its shrinking, and the readiness of the three workloads.
\<close>

section \<open>Growing\<close>

text \<open>The StatefulSet \<open>ss0\<close> that the API server holds is updated, with nothing but its replica count changed, exactly
  when it is smaller than two pods per chunk.\<close>

definition grownTo :: "undermoon \<Rightarrow> statefulSet \<Rightarrow> statefulSet \<Rightarrow> event list \<Rightarrow> event list \<Rightarrow> bool" where
  "grownTo cr ss0 ss h0 h \<longleftrightarrow> (\<exists>n. ss_Replicas ss0 = Some n \<and>
     (if sint n < sint (replicasOf (ChunkNumber (Spec cr)))
      then h = EvUpdateStatefulSet (ss0\<lparr>ss_Replicas := Some (replicasOf (ChunkNumber (Spec cr)))\<rparr>) (Inr ss) # h0
      else ss = ss0 \<and> h = h0))"

lemma replicas_two_ways: "i32_of_u32 c * 2 = replicasOf c"
  by (simp add: replicasOf_def i32_chunk_mult)

lemma update_runs:
  "hvalid (\<lambda>h. h = h0) (updateStorageStatefulSet env cr ss)
     (\<lambda>ss' h. h = EvUpdateStatefulSet (ss\<lparr>ss_Replicas := Some (replicasOf (ChunkNumber (Spec cr)))\<rparr>) (Inr ss') # h0)
     (\<lambda>e h. \<exists>e'. h = EvUpdateStatefulSet (ss\<lparr>ss_Replicas := Some (replicasOf (ChunkNumber (Spec cr)))\<rparr>) (Inl e') # h0 \<and>
        e = Some (if IsConflict e' then errRetryReconciliation else e'))"
  (is "hvalid _ _ ?Q ?E")
proof -
  let ?ss = "ss\<lparr>ss_Replicas := Some (replicasOf (ChunkNumber (Spec cr)))\<rparr>"
  have "hvalid (\<lambda>h. h = h0) (tryM (updateStatefulSet env ?ss)) (\<lambda>r h. h = EvUpdateStatefulSet ?ss r # h0) ?E"
    unfolding updateStatefulSet_def by (intro hvalid_try hvalid_callE) auto
  then show ?thesis
    unfolding updateStorageStatefulSet_def Let_def replicasOf_def [symmetric]
    by (rule hvalid_bind) (auto intro!: hrules)
qed

lemma grow_runs:
  "hvalid (\<lambda>h. h = h0)
     (case ss_Replicas ss0 of None \<Rightarrow> panicM p | Some n \<Rightarrow>
        if sint (i32_of_u32 (ChunkNumber (Spec cr)) * 2) > sint n
        then bindM (updateStorageStatefulSet env cr ss0) (\<lambda>ss. returnM (ss, svc)) else returnM (ss0, svc))
     (\<lambda>(ss, svc') h. svc' = svc \<and> grownTo cr ss0 ss h0 h) (\<lambda>_ h. \<exists>es. h = es @ h0)"
proof -
  have up: "hvalid (\<lambda>h. h = h0) (bindM (updateStorageStatefulSet env cr ss0) (\<lambda>ss. returnM (ss, svc)))
      (\<lambda>(ss, svc') h. svc' = svc \<and> h = EvUpdateStatefulSet (ss0\<lparr>ss_Replicas := Some (replicasOf (ChunkNumber (Spec cr)))\<rparr>) (Inr ss) # h0)
      (\<lambda>_ h. \<exists>es. h = es @ h0)"
    by (rule hvalid_bind, rule hvalid_post [OF update_runs], assumption) (auto intro!: hrules)
  show ?thesis
    unfolding replicas_two_ways
    by (intro hvalid_case_option hvalid_if hvalid_post [OF up] hvalid_return hvalid_panic) (auto simp: grownTo_def)
qed

text \<open>A whole run: whatever became of the public service, the headless service and the StatefulSet were obtained
  and the StatefulSet grown.\<close>

definition storageObtained :: "'w env \<Rightarrow> undermoon \<Rightarrow> event list \<Rightarrow> statefulSet \<Rightarrow> service \<Rightarrow> event list \<Rightarrow> bool" where
  "storageObtained env cr h0 ss svc h \<longleftrightarrow> (\<exists>es h1 es'.
     obtained (SetControllerReference_Service env cr (createStorageService cr)) (\<lambda>x. EvGetService (svcKey x)) EvCreateService svc (es @ h0) h1 \<and>
     obtained (SetControllerReference_StatefulSet env cr (createStorageStatefulSet cr)) (\<lambda>x. EvGetStatefulSet (ssKey x)) EvCreateStatefulSet
       ss (es' @ h1) h)"

text \<open>The end of \<open>createStorage\<close>, from the StatefulSet \<open>ss\<close> on.\<close>

abbreviation growStorage :: "'w env \<Rightarrow> undermoon \<Rightarrow> statefulSet \<Rightarrow> service \<Rightarrow> ('w, statefulSet \<times> service) op" where
  "growStorage env cr ss svc \<equiv> (case ss_Replicas ss of
     None \<Rightarrow> panicM ''invalid memory address or nil pointer dereference''
   | Some replicas \<Rightarrow>
       if sint (i32_of_u32 (ChunkNumber (Spec cr)) * 2) > sint replicas
       then bindM (updateStorageStatefulSet env cr ss) (\<lambda>storage'. returnM (storage', svc))
       else returnM (ss, svc))"

lemma createStorage_eq:
  "createStorage env cr =
     bindM (tryM (createServiceGuard (getOrCreateStorageService env cr (createStoragePublicService cr)))) (\<lambda>_.
     bindM (bindM (createServiceGuard (getOrCreateStorageService env cr (createStorageService cr))) (\<lambda>svc.
       bindM (createStatefulSetGuard (getOrCreateStorageStatefulSet env cr)) (\<lambda>ss. returnM (ss, svc)))) (\<lambda>(ss, svc).
     growStorage env cr ss svc))"
  unfolding createStorage_def bindM_assoc by simp

lemma obtained_extends: "obtained o1 f c y (es @ h0) h \<Longrightarrow> \<exists>es. h = es @ h0"
  by (auto simp: obtained_def simp flip: append_Cons)

lemma storageObtained_extends: "storageObtained env cr h0 ss svc h \<Longrightarrow> \<exists>es. h = es @ h0"
  by (auto simp: storageObtained_def dest!: obtained_extends)

lemma grow_obtained:
  "hvalid (storageObtained env cr h0 ss svc) (growStorage env cr ss svc)
     (\<lambda>(ss, svc) h. \<exists>ss0 h2. storageObtained env cr h0 ss0 svc h2 \<and> grownTo cr ss0 ss h2 h) (\<lambda>_ h. \<exists>es. h = es @ h0)"
proof (rule hvalid_at)
  fix h2 assume h2: "storageObtained env cr h0 ss svc h2"
  then obtain es where "h2 = es @ h0" using storageObtained_extends by blast
  with h2 show "hvalid (\<lambda>h. h = h2) (growStorage env cr ss svc)
      (\<lambda>(ss, svc) h. \<exists>ss0 h2. storageObtained env cr h0 ss0 svc h2 \<and> grownTo cr ss0 ss h2 h) (\<lambda>_ h. \<exists>es. h = es @ h0)"
    by (intro hvalid_post [OF grow_runs]) auto
qed

lemma pair_obtained:
  "hvalid (\<lambda>h. \<exists>es. h = es @ h0)
     (bindM (createServiceGuard (getOrCreateStorageService env cr (createStorageService cr))) (\<lambda>svc.
       bindM (createStatefulSetGuard (getOrCreateStorageStatefulSet env cr)) (\<lambda>ss. returnM (ss, svc))))
     (\<lambda>(ss, svc) h. storageObtained env cr h0 ss svc h) (\<lambda>_ h. \<exists>es. h = es @ h0)"
  unfolding createServiceGuard_def createStatefulSetGuard_def numeral_3_eq_3 storageObtained_def
  by (rule workload_obtained [OF stg_svc.guarded_obtains stg_ss.guarded_obtains])

lemma createStorage_runs:
  "hvalid (\<lambda>h. h = h0) (createStorage env cr)
     (\<lambda>(ss, svc) h. \<exists>ss0 h2. storageObtained env cr h0 ss0 svc h2 \<and> grownTo cr ss0 ss h2 h)
     (\<lambda>_ h. \<exists>es. h = es @ h0)"
  unfolding createStorage_eq
proof (rule hvalid_bind)
  show "hvalid (\<lambda>h. h = h0) (tryM (createServiceGuard (getOrCreateStorageService env cr (createStoragePublicService cr))))
      (\<lambda>_ h. \<exists>es. h = es @ h0) (\<lambda>_ h. \<exists>es. h = es @ h0)"
    unfolding createServiceGuard_def numeral_3_eq_3
    by (rule hvalid_try, rule hvalid_conseq [OF stg_svc.guarded_obtains])
      (auto simp: obtained_def split: option.splits simp flip: append_Cons append_assoc)
qed (rule hvalid_bind [OF pair_obtained], auto intro: grow_obtained)

section \<open>Shrinking\<close>

text \<open>Without a call and with the request to retry when the slots are not on exactly four nodes per chunk; otherwise one
  update of the replica count alone, where a conflict is a reason to retry.\<close>

definition storageResized :: "undermoon \<Rightarrow> statefulSet \<Rightarrow> clusterInfo \<Rightarrow> event list \<Rightarrow> (goerr, statefulSet) res \<Rightarrow> event list \<Rightarrow> bool" where
  "storageResized cr ss info h0 out h \<longleftrightarrow>
     (if sint (NodeNumberWithSlots info) \<noteq> 4 * uint (ChunkNumber (Spec cr)) then out = Err errRetryReconciliation \<and> h = h0
      else \<exists>r. h = EvUpdateStatefulSet (ss\<lparr>ss_Replicas := Some (replicasOf (ChunkNumber (Spec cr)))\<rparr>) r # h0 \<and>
        out = (case r of Inr ss' \<Rightarrow> Ok ss' | Inl e \<Rightarrow> Err (if IsConflict e then errRetryReconciliation else e)))"

lemma resize_run:
  "storageResized cr ss info (history s) (fst (scaleDownStorageStatefulSet env cr ss info s))
     (history (snd (scaleDownStorageStatefulSet env cr ss info s)))"
proof (cases "sint (NodeNumberWithSlots info) = 4 * uint (ChunkNumber (Spec cr))")
  case True
  let ?ss = "ss\<lparr>ss_Replicas := Some (replicasOf (ChunkNumber (Spec cr)))\<rparr>"
  obtain r w where "Update_StatefulSet env ?ss (world s) = (r, w)" by fastforce
  with True show ?thesis
    by (cases r) (simp_all add: storageResized_def scaleDownStorageStatefulSet_def sint_chunk_mult updateStorageStatefulSet_def
        Let_def replicasOf_def [symmetric] updateStatefulSet_def callE_def call_def bindM_def tryM_def liftM_def throwM_def returnM_def)
qed (auto simp: storageResized_def scaleDownStorageStatefulSet_def sint_chunk_mult Let_def throwM_def)

section \<open>Readiness\<close>

text \<open>One endpoint lookup, whose number of addresses decides.\<close>

definition counted :: "service \<Rightarrow> (int \<Rightarrow> bool) \<Rightarrow> ('w, bool) op \<Rightarrow> bool" where
  "counted svc P m \<longleftrightarrow> (\<forall>s. \<exists>r. history (snd (m s)) = EvGetEndpoints (svcKey svc) r # history s \<and>
     fst (m s) = (case readEndpoints r of Inl e \<Rightarrow> Err e | Inr eps \<Rightarrow> Ok (P (len eps))))"

lemma counted_lookup:
  "counted svc P (bindM (bindM (getEndpoints env (meta_Name (svc_Meta svc)) (meta_Namespace (svc_Meta svc))) (\<lambda>eps. returnM (len eps)))
     (\<lambda>n. returnM (P n)))"
  unfolding counted_def
proof
  fix s :: "'a sys"
  obtain r w where "getEndpoints env (meta_Name (svc_Meta svc)) (meta_Namespace (svc_Meta svc)) s =
      (outcome (readEndpoints r), s\<lparr>world := w, history := EvGetEndpoints (svcKey svc) r # history s\<rparr>)"
    using getEndpoints_run [of env "meta_Name (svc_Meta svc)" "meta_Namespace (svc_Meta svc)" s] by blast
  then show "\<exists>r. history (snd (bindM (bindM (getEndpoints env (meta_Name (svc_Meta svc)) (meta_Namespace (svc_Meta svc)))
        (\<lambda>eps. returnM (len eps))) (\<lambda>n. returnM (P n)) s)) = EvGetEndpoints (svcKey svc) r # history s \<and>
      fst (bindM (bindM (getEndpoints env (meta_Name (svc_Meta svc)) (meta_Namespace (svc_Meta svc)))
        (\<lambda>eps. returnM (len eps))) (\<lambda>n. returnM (P n)) s) = (case readEndpoints r of Inl e \<Rightarrow> Err e | Inr eps \<Rightarrow> Ok (P (len eps)))"
    by (intro exI [of _ r]) (cases "readEndpoints r", simp_all add: bindM_def returnM_def)
qed

lemma sint_replicas:
  assumes "chunkFits cr"
  shows "sint (replicasOf (ChunkNumber (Spec cr))) = 2 * uint (ChunkNumber (Spec cr))"
    and "sint (replicasOf (ChunkNumber (Spec cr)) - 1) = 2 * uint (ChunkNumber (Spec cr)) - 1"
proof -
  show r: "sint (replicasOf (ChunkNumber (Spec cr))) = 2 * uint (ChunkNumber (Spec cr))"
    using assms by (simp add: replicasOf_def chunkFits_def sint_replicas_fits)
  have "int (unat (ChunkNumber (Spec cr))) < int (2 ^ 30)" using assms by (simp only: chunkFits_def of_nat_less_iff)
  then have "uint (ChunkNumber (Spec cr)) < 2 ^ 30" by simp
  moreover have "- (2 ^ 31) \<le> 2 * uint (ChunkNumber (Spec cr)) - 1"
    using order_trans [of "- (2 ^ 31) + 1" 0 "2 * uint (ChunkNumber (Spec cr))"] by simp
  ultimately show "sint (replicasOf (ChunkNumber (Spec cr)) - 1) = 2 * uint (ChunkNumber (Spec cr)) - 1"
    by (simp only: sint_word_ariths r) (simp add: signed_take_bit_int_eq_self)
qed

lemma storage_counted:
  assumes "chunkFits cr"
  shows "counted svc (\<lambda>n. 2 * uint (ChunkNumber (Spec cr)) - 1 \<le> n) (storageReady env svc cr)"
    and "counted svc (\<lambda>n. 2 * uint (ChunkNumber (Spec cr)) \<le> n) (storageAllReady env svc cr)"
  using counted_lookup [of svc "\<lambda>n. 2 * uint (ChunkNumber (Spec cr)) - 1 \<le> n"]
    counted_lookup [of svc "\<lambda>n. 2 * uint (ChunkNumber (Spec cr)) \<le> n"]
  by (simp_all add: storageReady_def storageAllReady_def storage_getServiceEndpointsNum_def Let_def sint_int_of_i32
      replicasOf_def [symmetric] sint_replicas [OF assms])

lemma stable_counted:
  assumes "chunkFits cr" and "ss_Replicas ss = Some n"
  shows "counted svc (\<lambda>k. 2 * uint (ChunkNumber (Spec cr)) \<le> k \<and> ss_StatusCurrentReplicas ss = n \<and> ss_StatusReplicas ss = n)
    (storageAllReadyAndStable env svc ss cr)"
  unfolding counted_def
proof
  fix s :: "'a sys"
  obtain o1 t where m: "storageAllReady env svc cr s = (o1, t)" by fastforce
  with storage_counted(2) [OF assms(1), where svc = svc and env = env, unfolded counted_def, THEN spec, of s]
  obtain r where r: "history t = EvGetEndpoints (svcKey svc) r # history s"
    "o1 = (case readEndpoints r of Inl e \<Rightarrow> Err e | Inr eps \<Rightarrow> Ok (2 * uint (ChunkNumber (Spec cr)) \<le> len eps))" by auto
  from m r assms(2) show "\<exists>r. history (snd (storageAllReadyAndStable env svc ss cr s)) = EvGetEndpoints (svcKey svc) r # history s \<and>
      fst (storageAllReadyAndStable env svc ss cr s) = (case readEndpoints r of Inl e \<Rightarrow> Err e | Inr eps \<Rightarrow>
        Ok (2 * uint (ChunkNumber (Spec cr)) \<le> len eps \<and> ss_StatusCurrentReplicas ss = n \<and> ss_StatusReplicas ss = n))"
    by (intro exI [of _ r]) (auto simp: storageAllReadyAndStable_def bindM_def returnM_def split: sum.splits)
qed

section \<open>Properties\<close>

text \<open>C23: \<open>createStorage\<close> goes on with the headless service and the StatefulSet of the API server (found under the computed names, or created with
  the owner set right after the API server said that there is none), and makes the StatefulSet larger, changing nothing but its
  replica count, exactly when it is smaller than two pods per chunk; it never makes it smaller.\<close>

theorem storage_created:
  "hvalid (\<lambda>h. h = h0) (createStorage env cr)
     (\<lambda>(ss, svc) h. \<exists>ss0 h2. storageObtained env cr h0 ss0 svc h2 \<and> grownTo cr ss0 ss h2 h)
     (\<lambda>_ h. \<exists>es. h = es @ h0)"
  by (rule createStorage_runs)

text \<open>C36: The failure to create the public service is dropped: when it fails, and the headless service and the StatefulSet are obtained and large
  enough, \<open>createStorage\<close> succeeds.\<close>

theorem public_service_error_dropped:
  assumes "createServiceGuard (getOrCreateStorageService env cr (createStoragePublicService cr)) s = (Err e, t)"
    and "createServiceGuard (getOrCreateStorageService env cr (createStorageService cr)) t = (Ok svc, u)"
    and "createStatefulSetGuard (getOrCreateStorageStatefulSet env cr) u = (Ok ss, v)"
    and "ss_Replicas ss = Some n" and "sint (replicasOf (ChunkNumber (Spec cr))) \<le> sint n"
  shows "createStorage env cr s = (Ok (ss, svc), v)"
  using assms by (simp add: createStorage_def bindM_def tryM_def returnM_def replicas_two_ways)

definition simNoPublic :: "i32 env" where
  "simNoPublic = (simEnv simSettled)\<lparr>Get_Service := (\<lambda>k w. (if nn_Name k = ''um'' then Inl (StatusError ReasonOther ''forbidden'')
     else Inr (simService k), w))\<rparr>"

theorem public_service_error_dropped_witness:
  "\<exists>e t ss svc u. createServiceGuard (getOrCreateStorageService simNoPublic simResource (createStoragePublicService simResource)) simStart = (Err e, t) \<and>
     createStorage simNoPublic simResource simStart = (Ok (ss, svc), u)"
proof -
  note evals = getOrCreateStorageService_def getOrCreateStorageStatefulSet_def createServiceGuard_def createStatefulSetGuard_def numeral_3_eq_3
    simNoPublic_def simEnv_def getService_def getStatefulSet_def createService_def createStatefulSet_def
    callE_def call_def bindM_def tryM_def liftM_def throwM_def returnM_def IsNotFound_def IsAlreadyExists_def
    createStorageService_def createStoragePublicService_def StorageServiceName_def StoragePublicServiceName_def Let_def simResource_def simMeta_def
  obtain e t where 1: "createServiceGuard (getOrCreateStorageService simNoPublic simResource (createStoragePublicService simResource)) simStart = (Err e, t)"
    and w: "world t = 4"
    by (simp add: evals simStart_def)
  obtain svc u where 2: "createServiceGuard (getOrCreateStorageService simNoPublic simResource (createStorageService simResource)) t = (Ok svc, u)"
    and w2: "world u = 4"
    using w by (simp add: evals)
  obtain ss v where 3: "createStatefulSetGuard (getOrCreateStorageStatefulSet simNoPublic simResource) u = (Ok ss, v)"
    and ss: "ss_Replicas ss = Some 4"
    using w2 by (simp add: getOrCreateStorageStatefulSet_def createStatefulSetGuard_def numeral_3_eq_3 simNoPublic_def simEnv_def
        getStatefulSet_def callE_def call_def bindM_def tryM_def liftM_def returnM_def simStatefulSet_def)
  have "sint (replicasOf (ChunkNumber (Spec simResource))) \<le> sint (4 :: i32)"
    by (simp add: replicasOf_def i32_chunk_mult i32_of_u32_def simResource_def)
  from public_service_error_dropped [OF 1 2 3 ss this] 1 show ?thesis by blast
qed

text \<open>C24: \<open>scaleDownStorageStatefulSet\<close> makes no call and asks for a retry unless the report has the slots on exactly four nodes per chunk; then it
  makes one update, of the replica count alone, to two pods per chunk; a conflict becomes the request to retry.\<close>

theorem storage_resized:
  "storageResized cr ss info (history s) (fst (scaleDownStorageStatefulSet env cr ss info s))
     (history (snd (scaleDownStorageStatefulSet env cr ss info s)))"
  by (rule resize_run)

text \<open>C25: Each readiness check makes one endpoint lookup and is decided by the number of addresses and the status of the StatefulSet: two of three
  brokers, one of three coordinators, all but one storage pod; the \<open>AllReady\<close> checks ask for all of them, and the check before
  scaling also for a StatefulSet whose current and existing pods are those asked for. (Up to \<open>2 ^ 30 - 1\<close> chunks.)\<close>

theorem readiness:
  assumes "chunkFits cr" and "ss_Replicas ss = Some n"
  shows "counted svc (\<lambda>k. 2 \<le> sint (ss_StatusReadyReplicas ss) \<and> 2 \<le> k) (brokerReady env ss svc) \<and>
    counted svc (\<lambda>k. ss_StatusReadyReplicas ss = 3 \<and> 3 \<le> k) (brokerAllReady env ss svc) \<and>
    counted svc (\<lambda>k. 1 \<le> sint (ss_StatusReadyReplicas ss) \<and> 1 \<le> k) (coordinatorReady env ss svc) \<and>
    counted svc (\<lambda>k. 3 \<le> sint (ss_StatusReadyReplicas ss) \<and> 3 \<le> k) (coordiantorAllReady env ss svc) \<and>
    counted svc (\<lambda>k. 2 * uint (ChunkNumber (Spec cr)) - 1 \<le> k) (storageReady env svc cr) \<and>
    counted svc (\<lambda>k. 2 * uint (ChunkNumber (Spec cr)) \<le> k) (storageAllReady env svc cr) \<and>
    counted svc (\<lambda>k. 2 * uint (ChunkNumber (Spec cr)) \<le> k \<and> ss_StatusCurrentReplicas ss = n \<and> ss_StatusReplicas ss = n)
      (storageAllReadyAndStable env svc ss cr)"
  using counted_lookup [of svc "\<lambda>k. 2 \<le> sint (ss_StatusReadyReplicas ss) \<and> 2 \<le> k" env]
    counted_lookup [of svc "\<lambda>k. ss_StatusReadyReplicas ss = 3 \<and> 3 \<le> k" env]
    counted_lookup [of svc "\<lambda>k. 1 \<le> sint (ss_StatusReadyReplicas ss) \<and> 1 \<le> k" env]
    counted_lookup [of svc "\<lambda>k. 3 \<le> sint (ss_StatusReadyReplicas ss) \<and> 3 \<le> k" env]
    storage_counted [OF assms(1), of svc env] stable_counted [OF assms, of svc env]
  by (simp add: brokerReady_def brokerAllReady_def broker_getServiceEndpointsNum_def coordinatorReady_def coordiantorAllReady_def
      coordinator_getServiceEndpointsNum_def brokerNum_def coordinatorNum_def sint_int_of_i32)

theorem readiness_witness:
  "chunkFits simResource \<and> counted (simService (NamespacedName simRequest)) (\<lambda>n. 2 \<le> n)
     (storageAllReady (simEnv simSettled) (simService (NamespacedName simRequest)) simResource)"
  using readiness [of simResource "simStatefulSet (NamespacedName simRequest) 4" 4 "simService (NamespacedName simRequest)" "simEnv simSettled"]
  by (simp add: chunkFits_def simResource_def simStatefulSet_def)

end
