(* ===== verification/Deployment.thy ===== *)
theory Deployment
  imports Broker Coordinator BrokerClient Simulation
begin

text \<open>
  The three workloads side by side: the addresses the operator computes are those Kubernetes gives
  the pods, the selectors keep the workloads apart, the replica counts have the bounds of their
  integer types, and the ports in the metadata are those the containers listen on.
\<close>

section \<open>Addresses\<close>

text \<open>C28: The addresses computed for the storage pods (\<open>genStorageStatefulSetAddrs\<close>) are the DNS
  names, with the port of the resource, of the pods that the StatefulSet built by \<open>createStorageStatefulSet\<close>
  gets, ordinal by ordinal, under its governing service and namespace; there are two per chunk
  and they are pairwise different, as long as twice the chunk number fits \<open>int32\<close>.\<close>

theorem storage_addresses:
  assumes "chunkFits cr"
  shows "genStorageStatefulSetAddrs cr =
      map (\<lambda>i. podNameOf (meta_Name (ss_Meta (createStorageStatefulSet cr))) (int i) @ ''.'' @
        ss_ServiceName (createStorageStatefulSet cr) @ ''.'' @ meta_Namespace (ss_Meta (createStorageStatefulSet cr)) @
        ''.svc.cluster.local:'' @ utoa (unat (Port (Spec cr)))) [0..<2 * unat (ChunkNumber (Spec cr))] \<and>
    distinct (genStorageStatefulSetAddrs cr) \<and>
    ss_ServiceName (createStorageStatefulSet cr) = meta_Name (svc_Meta (createStorageService cr))"
proof -
  have "nat (sint (the (ss_Replicas (createStorageStatefulSet cr)))) = 2 * unat (ChunkNumber (Spec cr))"
    using assms by (simp add: createStorageStatefulSet_def Let_def chunkFits_def sint_replicas_fits nat_mult_distrib)
  with stg.addrs_are_pod_dns [OF assms] stg.distinct_addrs [OF assms] stg.governing_service show ?thesis
    by simp
qed

theorem storage_addresses_witness:
  "chunkFits simResource \<and> length (genStorageStatefulSetAddrs simResource) = 2 \<and>
   distinct (genStorageStatefulSetAddrs simResource)"
proof -
  have fits: "chunkFits simResource" by (simp add: chunkFits_def simResource_def)
  note all = storage_addresses [OF fits]
  have "unat (ChunkNumber (Spec simResource)) = 1" by (simp add: simResource_def)
  with arg_cong [OF conjunct1 [OF all], of length] have "length (genStorageStatefulSetAddrs simResource) = 2" by simp
  with fits conjunct1 [OF conjunct2 [OF all]] show ?thesis by blast
qed

text \<open>C29: The same for brokers and coordinators, which have three pods each: the computed addresses are
  the DNS names of the pods of the StatefulSets, on the fixed ports, and pairwise different.\<close>

theorem control_plane_addresses:
  "genBrokerStatefulSetAddrs cr =
      map (\<lambda>i. podNameOf (meta_Name (ss_Meta (createBrokerStatefulSet cr))) (int i) @ ''.'' @
        ss_ServiceName (createBrokerStatefulSet cr) @ ''.'' @ meta_Namespace (ss_Meta (createBrokerStatefulSet cr)) @
        ''.svc.cluster.local:'' @ utoa brokerPort) [0..<3] \<and>
   genCoordinatorStatefulSetAddrs cr =
      map (\<lambda>i. podNameOf (meta_Name (ss_Meta (createCoordinatorStatefulSet cr))) (int i) @ ''.'' @
        ss_ServiceName (createCoordinatorStatefulSet cr) @ ''.'' @ meta_Namespace (ss_Meta (createCoordinatorStatefulSet cr)) @
        ''.svc.cluster.local:'' @ utoa coordinatorPort) [0..<3] \<and>
   distinct (genBrokerStatefulSetAddrs cr) \<and> distinct (genCoordinatorStatefulSetAddrs cr) \<and>
   ss_Replicas (createBrokerStatefulSet cr) = Some 3 \<and> ss_Replicas (createCoordinatorStatefulSet cr) = Some 3"
proof -
  have b: "ss_Replicas (createBrokerStatefulSet cr) = Some 3" by (simp add: createBrokerStatefulSet_def brokerNum_def Let_def)
  have c: "ss_Replicas (createCoordinatorStatefulSet cr) = Some 3" by (simp add: createCoordinatorStatefulSet_def coordinatorNum_def Let_def)
  have n: "nat (sint (the (Some 3 :: i32 option))) = 3" by simp
  show ?thesis
    by (intro conjI b c bk.distinct_addrs cd.distinct_addrs TrueI
        bk.addrs_are_pod_dns [OF TrueI, of cr, unfolded b n] cd.addrs_are_pod_dns [OF TrueI, of cr, unfolded c n])
qed

section \<open>Selectors\<close>

lemma less_four: "(4 :: nat) = Suc (Suc (Suc (Suc 0)))"
  by simp

text \<open>C30: Each of the four services of a resource, the public one included, selects the pods of a resource (in the same namespace) exactly when they are of the
  workload of the service (the public service goes to the storage pods) and the two resources have the same name and the same cluster name; and each headless
  service is the governing service of its own StatefulSet.\<close>

theorem selectors_isolate:
  "let svcs = [createBrokerService, createCoordinatorService, createStorageService, createStoragePublicService];
       sets = [createBrokerStatefulSet, createCoordinatorStatefulSet, createStorageStatefulSet] in
   (\<forall>i<4. \<forall>j<3. selects (svc_Selector ((svcs ! i) cr)) (tpl_Labels (ss_Template ((sets ! j) cr'))) \<longleftrightarrow>
      (i = j \<or> i = 3 \<and> j = 2) \<and> crName cr = crName cr' \<and> ClusterName (Spec cr) = ClusterName (Spec cr')) \<and>
   (\<forall>i<3. ss_ServiceName ((sets ! i) cr) = meta_Name (svc_Meta ((svcs ! i) cr)) \<and>
      meta_Namespace (ss_Meta ((sets ! i) cr)) = meta_Namespace (svc_Meta ((svcs ! i) cr)) \<and>
      svc_ClusterIP ((svcs ! i) cr) = ''None'')"
proof -
  have sel: "svc_Selector (createBrokerService cr) = undermoonLabels undermoonServiceTypeBroker cr"
    "svc_Selector (createCoordinatorService cr) = undermoonLabels undermoonServiceTypeCoordinator cr"
    "svc_Selector (createStorageService cr) = undermoonLabels undermoonServiceTypeStorage cr"
    "svc_Selector (createStoragePublicService cr) = undermoonLabels undermoonServiceTypeStorage cr"
    "tpl_Labels (ss_Template (createBrokerStatefulSet cr')) = undermoonLabels undermoonServiceTypeBroker cr'"
    "tpl_Labels (ss_Template (createCoordinatorStatefulSet cr')) = undermoonLabels undermoonServiceTypeCoordinator cr'"
    "tpl_Labels (ss_Template (createStorageStatefulSet cr')) = undermoonLabels undermoonServiceTypeStorage cr'"
    by (simp_all add: createBrokerService_def createCoordinatorService_def createStorageService_def createStoragePublicService_def
        createBrokerStatefulSet_def createCoordinatorStatefulSet_def createStorageStatefulSet_def Let_def)
  have types: "undermoonServiceTypeBroker \<noteq> undermoonServiceTypeCoordinator" "undermoonServiceTypeBroker \<noteq> undermoonServiceTypeStorage"
    "undermoonServiceTypeCoordinator \<noteq> undermoonServiceTypeStorage"
    by (simp_all add: undermoonServiceTypeBroker_def undermoonServiceTypeCoordinator_def undermoonServiceTypeStorage_def)
  show ?thesis
    using bk.governing_service cd.governing_service stg.governing_service types types [symmetric]
    by (simp add: Let_def numeral_3_eq_3 less_four All_less_Suc sel selects_undermoonLabels)
qed

theorem selectors_isolate_witness:
  "selects (svc_Selector (createStoragePublicService simResource)) (tpl_Labels (ss_Template (createStorageStatefulSet simResource))) \<and>
   \<not> selects (svc_Selector (createStoragePublicService simResource)) (tpl_Labels (ss_Template (createBrokerStatefulSet simResource)))"
  using selectors_isolate [of simResource simResource] by (simp add: Let_def numeral_3_eq_3 less_four All_less_Suc)

section \<open>Replica counts\<close>

text \<open>C31: The number of storage pods is computed in two ways (\<open>int32(int(n) * halfChunkNodeNumber)\<close> and
  \<open>int32(n) * 2\<close>), which agree for every \<open>uint32\<close> chunk number; the StatefulSet gets this count; it is
  two per chunk, and the expected number of nodes four per chunk, without overflow, up to
  \<open>2 ^ 30 - 1\<close> chunks.\<close>

theorem replica_counts:
  "ss_Replicas (createStorageStatefulSet cr) = Some (i32_of_u32 (ChunkNumber (Spec cr)) * 2) \<and>
   i32_of_int (int_of_u32 (ChunkNumber (Spec cr)) * halfChunkNodeNumber) = i32_of_u32 (ChunkNumber (Spec cr)) * 2 \<and>
   sint (int_of_u32 (ChunkNumber (Spec cr)) * chunkNodeNumber) = 4 * uint (ChunkNumber (Spec cr)) \<and>
   (chunkFits cr \<longrightarrow> sint (the (ss_Replicas (createStorageStatefulSet cr))) = 2 * uint (ChunkNumber (Spec cr)))"
  by (simp add: createStorageStatefulSet_def Let_def i32_chunk_mult sint_chunk_mult chunkFits_def
      sint_replicas_fits [unfolded i32_chunk_mult])

theorem replica_counts_witness:
  "chunkFits simResource \<and> sint (the (ss_Replicas (createStorageStatefulSet simResource))) = 2"
proof -
  have "chunkFits simResource" by (simp add: chunkFits_def simResource_def)
  moreover have "ChunkNumber (Spec simResource) = 1" by (simp add: simResource_def)
  ultimately show ?thesis using replica_counts [of simResource] by (metis mult.right_neutral uint_1)
qed

lemma sint_wrapped:
  "sint (i32_of_u32 c * 2) = 2 * uint c - (if uint c < 2 ^ 30 then 0 else if uint c < 3 * 2 ^ 30 then 2 ^ 32 else 2 ^ 33)"
proof -
  have c: "0 \<le> uint c" "uint c < 2 ^ 32" using uint_bounded [of c] by simp_all
  have "uint (i32_of_u32 c * 2) = (2 * uint c) mod 2 ^ 32" by (simp add: i32_of_u32_def uint_word_ariths mult.commute)
  then have "sint (i32_of_u32 c * 2) = ((2 * uint c) mod 2 ^ 32 + 2 ^ 31) mod 2 ^ 32 - 2 ^ 31"
    by (simp add: sint_uint signed_take_bit_eq_take_bit_shift take_bit_eq_mod)
  then have s: "sint (i32_of_u32 c * 2) = (2 * uint c + 2 ^ 31) mod 2 ^ 32 - 2 ^ 31" by (simp only: mod_add_left_eq)
  have m: "(2 * uint c + 2 ^ 31) mod 2 ^ 32 = 2 * uint c + 2 ^ 31 - k * 2 ^ 32"
    if "0 \<le> 2 * uint c + 2 ^ 31 - k * 2 ^ 32" "2 * uint c + 2 ^ 31 - k * 2 ^ 32 < 2 ^ 32" for k
  proof -
    have "(2 * uint c + 2 ^ 31) mod 2 ^ 32 = (2 * uint c + 2 ^ 31 - k * 2 ^ 32 + k * 2 ^ 32) mod 2 ^ 32" by simp
    also have "\<dots> = (2 * uint c + 2 ^ 31 - k * 2 ^ 32) mod 2 ^ 32" by (rule mod_mult_self1)
    also have "\<dots> = 2 * uint c + 2 ^ 31 - k * 2 ^ 32" by (rule mod_pos_pos_trivial [OF that])
    finally show ?thesis .
  qed
  show ?thesis using m [of 0] m [of 1] m [of 2] c unfolding s by simp
qed

text \<open>C35: The validation of the resource does not bound the chunk number from above: whatever number of chunks, at least one, is put into a resource that it accepts, it
  accepts the result. But the replica count of the StatefulSet is two per chunk only below \<open>2 ^ 30\<close> chunks. From there on it is less by \<open>2 ^ 32\<close> (so that it is
  negative up to \<open>2 ^ 31\<close> chunks, and 0 at \<open>2 ^ 31\<close>), and from \<open>3 * 2 ^ 30\<close> chunks on by \<open>2 ^ 33\<close>.\<close>

theorem replica_count_wraps:
  assumes "validSpec (Spec cr)" and "1 \<le> unat c"
  shows "let cr' = cr\<lparr>Spec := (Spec cr)\<lparr>ChunkNumber := c\<rparr>\<rparr>; n = sint (the (ss_Replicas (createStorageStatefulSet cr'))) in
    validSpec (Spec cr') \<and>
    n = 2 * uint c - (if uint c < 2 ^ 30 then 0 else if uint c < 3 * 2 ^ 30 then 2 ^ 32 else 2 ^ 33) \<and>
    (n = 2 * uint c \<longleftrightarrow> uint c < 2 ^ 30) \<and> (2 ^ 30 \<le> uint c \<and> uint c < 2 ^ 31 \<longrightarrow> n < 0)"
proof -
  have "validSpec (Spec (cr\<lparr>Spec := (Spec cr)\<lparr>ChunkNumber := c\<rparr>\<rparr>))" using assms by (simp add: validSpec_def)
  moreover have "the (ss_Replicas (createStorageStatefulSet (cr\<lparr>Spec := (Spec cr)\<lparr>ChunkNumber := c\<rparr>\<rparr>))) = i32_of_u32 c * 2"
    by (simp add: createStorageStatefulSet_def Let_def i32_chunk_mult)
  ultimately show ?thesis using sint_wrapped [of c] by (simp add: Let_def)
qed

theorem replica_count_wraps_witness:
  "let cr = simResource\<lparr>Spec := (Spec simResource)\<lparr>ChunkNumber := 2 ^ 30\<rparr>\<rparr> in
   validSpec (Spec cr) \<and> sint (the (ss_Replicas (createStorageStatefulSet cr))) = - (2 ^ 31)"
proof -
  have "validSpec (Spec simResource)" by (simp add: validSpec_def simResource_def)
  from replica_count_wraps [OF this, of "2 ^ 30"] show ?thesis by (simp add: Let_def)
qed

section \<open>Ports\<close>

text \<open>C32: What the operator registers for a pod (\<open>newServerProxyMeta\<close>) is what the pod's containers are
  told to listen on: the two Redis containers run on the two Redis ports, the proxy listens on the port of the
  resource, and the pod announces the address under which it is registered (with the pod's name in the
  place of the variable).\<close>

theorem storage_ports_agree:
  "let host = genStorageFQDNFromName pod cr;
       meta = newServerProxyMeta host host (Port (Spec cr)) index;
       ctrs = tpl_Containers (ss_Template (createStorageStatefulSet cr)) in
   ProxyAddress meta = genStorageAddressFromName pod cr \<and>
   (\<exists>proxy redis1 redis2 p1 p2. ctrs = [proxy, redis1, redis2] \<and> distinct (map ctr_Name ctrs) \<and>
      RedisAddresses meta = (host @ '':'' @ p1, host @ '':'' @ p2) \<and> p1 \<noteq> p2 \<and>
      take 2 (drop 2 (ctr_Args redis1)) = [''--port'', p1] \<and> take 2 (drop 2 (ctr_Args redis2)) = [''--port'', p2] \<and>
      envValue ''UNDERMOON_ADDRESS'' (''0.0.0.0:'' @ utoa (unat (Port (Spec cr)))) \<in> set (ctr_Env proxy) \<and>
      ctr_Command proxy = [''sh'', ''-c'', ''UNDERMOON_ANNOUNCE_ADDRESS='' @ dquote @
        genStorageAddressFromName podNameStr cr @ dquote @ '' server_proxy''])"
proof -
  have u: "utoa 1 \<noteq> utoa 2" "utoa redisPort1 \<noteq> utoa redisPort2"
    using utoa_inj [of 1 2] utoa_inj [of redisPort1 redisPort2] by (auto simp: redisPort1_def redisPort2_def)
  have n: "unat (of_nat redisPort1 :: u32) = redisPort1" "unat (of_nat redisPort2 :: u32) = redisPort2"
    by (simp_all add: redisPort1_def redisPort2_def)
  show ?thesis
    using u by (simp add: Let_def createStorageStatefulSet_def newServerProxyMeta_def genStorageAddressFromName_def
        genRedisContainer_def storageEnv_def serverProxyContainerName_def redisContainerName_def n)
qed

text \<open>C39: The validation accepts ports that collide inside the pod: with the resource's port 7001 (or 7002) the server proxy is told to listen on the
  port on which the first (or second) Redis container of the same pod listens.\<close>

theorem storage_port_clash:
  assumes "Port (Spec cr) \<in> {7001, 7002}"
  shows "\<exists>proxy redis p. proxy \<in> set (tpl_Containers (ss_Template (createStorageStatefulSet cr))) \<and>
    redis \<in> set (tpl_Containers (ss_Template (createStorageStatefulSet cr))) \<and> ctr_Name proxy \<noteq> ctr_Name redis \<and>
    envValue ''UNDERMOON_ADDRESS'' (''0.0.0.0:'' @ p) \<in> set (ctr_Env proxy) \<and> take 2 (drop 2 (ctr_Args redis)) = [''--port'', p]"
proof -
  let ?redis = "\<lambda>i port. genRedisContainer i (RedisImage (Spec cr)) (MaxMemory (Spec cr)) (of_nat port) cr"
  obtain proxy where ctrs: "tpl_Containers (ss_Template (createStorageStatefulSet cr)) = [proxy, ?redis 1 redisPort1, ?redis 2 redisPort2]"
    and env: "envValue ''UNDERMOON_ADDRESS'' (''0.0.0.0:'' @ utoa (unat (Port (Spec cr)))) \<in> set (ctr_Env proxy)"
    and name: "ctr_Name proxy = serverProxyContainerName"
    by (simp add: createStorageStatefulSet_def Let_def storageEnv_def)
  have other: "ctr_Name proxy \<noteq> ctr_Name (?redis i port)" for i port
    by (simp add: name genRedisContainer_def serverProxyContainerName_def redisContainerName_def Let_def)
  have args: "take 2 (drop 2 (ctr_Args (?redis i port))) = [''--port'', utoa (unat (of_nat port :: u32))]" for i port
    by (simp add: genRedisContainer_def Let_def)
  from assms have "Port (Spec cr) = of_nat redisPort1 \<or> Port (Spec cr) = of_nat redisPort2"
    by (simp add: redisPort1_def redisPort2_def)
  then show ?thesis
  proof
    assume p: "Port (Spec cr) = of_nat redisPort1"
    show ?thesis unfolding ctrs
      by (intro exI [of _ proxy] exI [of _ "?redis 1 redisPort1"] exI [of _ "utoa (unat (Port (Spec cr)))"] conjI env other)
        (simp_all only: args p list.set insert_iff simp_thms)
  next
    assume p: "Port (Spec cr) = of_nat redisPort2"
    show ?thesis unfolding ctrs
      by (intro exI [of _ proxy] exI [of _ "?redis 2 redisPort2"] exI [of _ "utoa (unat (Port (Spec cr)))"] conjI env other)
        (simp_all only: args p list.set insert_iff simp_thms)
  qed
qed

theorem storage_port_clash_witness:
  "let cr = simResource\<lparr>Spec := (Spec simResource)\<lparr>Port := 7001\<rparr>\<rparr> in validSpec (Spec cr) \<and>
   (\<exists>proxy redis p. proxy \<in> set (tpl_Containers (ss_Template (createStorageStatefulSet cr))) \<and>
    redis \<in> set (tpl_Containers (ss_Template (createStorageStatefulSet cr))) \<and> ctr_Name proxy \<noteq> ctr_Name redis \<and>
    envValue ''UNDERMOON_ADDRESS'' (''0.0.0.0:'' @ p) \<in> set (ctr_Env proxy) \<and> take 2 (drop 2 (ctr_Args redis)) = [''--port'', p])"
  unfolding Let_def
  by (intro conjI storage_port_clash) (simp_all add: validSpec_def simResource_def)

section \<open>Well-formed objects\<close>

text \<open>What the API server requires of a StatefulSet: its selector selects its pods, it has containers with different
  names and images, and no variable is set twice; and of a service: its ports are in range.\<close>

definition wellFormedSet :: "statefulSet \<Rightarrow> bool" where
  "wellFormedSet ss \<longleftrightarrow>
     selects (ss_Selector ss) (tpl_Labels (ss_Template ss)) \<and>
     tpl_Containers (ss_Template ss) \<noteq> [] \<and>
     distinct (map ctr_Name (tpl_Containers (ss_Template ss))) \<and>
     list_all (\<lambda>c. ctr_Image c \<noteq> '''' \<and> distinct (map env_Name (ctr_Env c))) (tpl_Containers (ss_Template ss))"

definition wellFormedService :: "service \<Rightarrow> bool" where
  "wellFormedService svc \<longleftrightarrow> list_all (\<lambda>p. 1 \<le> sint (port_Port p) \<and> sint (port_Port p) \<le> 65535) (svc_Ports svc) \<and>
     distinct (map port_Name (svc_Ports svc))"

lemma sint_port:
  fixes p :: u32
  assumes "1 \<le> unat p" and "unat p \<le> 65535"
  shows "1 \<le> sint (i32_of_u32 p) \<and> sint (i32_of_u32 p) \<le> 65535"
proof -
  have "int (unat p) \<le> int 65535" "int 1 \<le> int (unat p)" using assms by (simp_all only: of_nat_le_iff)
  then have "uint p \<le> 65535" "1 \<le> uint p" by simp_all
  moreover have "- (2 ^ 31) \<le> uint p" using order_trans [of "- (2 ^ 31)" 0 "uint p"] by simp
  ultimately show ?thesis by (simp add: i32_of_u32_def sint_uint signed_take_bit_int_eq_self)
qed

text \<open>C37: Every object built for a resource that passes the validation is well formed: the StatefulSets select their own pods, have containers with
  different names, non-empty images and no variable set twice, the ports of the services are in range, and the names of the four
  services and of the three StatefulSets of a resource are different.\<close>

theorem objects_wellformed:
  assumes "validSpec (Spec cr)"
  shows "list_all wellFormedSet [createBrokerStatefulSet cr, createCoordinatorStatefulSet cr, createStorageStatefulSet cr] \<and>
    list_all wellFormedService [createBrokerService cr, createCoordinatorService cr, createStorageService cr, createStoragePublicService cr] \<and>
    distinct (map (meta_Name \<circ> svc_Meta) [createBrokerService cr, createCoordinatorService cr, createStorageService cr, createStoragePublicService cr]) \<and>
    distinct (map (meta_Name \<circ> ss_Meta) [createBrokerStatefulSet cr, createCoordinatorStatefulSet cr, createStorageStatefulSet cr])"
proof -
  have im: "UndermoonImage (Spec cr) \<noteq> ''''" "RedisImage (Spec cr) \<noteq> ''''" using assms by (auto simp: validSpec_def)
  have port: "1 \<le> sint (i32_of_u32 (Port (Spec cr)))" "sint (i32_of_u32 (Port (Spec cr))) \<le> 65535"
    using assms sint_port [of "Port (Spec cr)"] by (simp_all add: validSpec_def)
  have num: "utoa (Suc 0) \<noteq> utoa 2" using utoa_inj [of "Suc 0" 2] by auto
  have "list_all wellFormedSet [createBrokerStatefulSet cr, createCoordinatorStatefulSet cr, createStorageStatefulSet cr]"
    using im by (simp add: wellFormedSet_def selects_def createBrokerStatefulSet_def createCoordinatorStatefulSet_def
        createStorageStatefulSet_def Let_def brokerEnv_def coordinatorEnv_def storageEnv_def genRedisContainer_def podNameEnv_def podIPEnv_def
        serverProxyContainerName_def redisContainerName_def num)
  moreover have "list_all wellFormedService [createBrokerService cr, createCoordinatorService cr, createStorageService cr, createStoragePublicService cr]"
    using port by (simp add: wellFormedService_def createBrokerService_def createCoordinatorService_def createStorageService_def
        createStoragePublicService_def Let_def brokerPort_def coordinatorPort_def)
  ultimately show ?thesis
    by (simp add: createBrokerService_def createCoordinatorService_def createStorageService_def createStoragePublicService_def
        createBrokerStatefulSet_def createCoordinatorStatefulSet_def createStorageStatefulSet_def Let_def BrokerServiceName_def
        CoordinatorServiceName_def StorageServiceName_def StoragePublicServiceName_def BrokerStatefulSetName_def CoordinatorStatefulSetName_def
        StorageStatefulSetName_def)
qed

theorem objects_wellformed_witness:
  "validSpec (Spec simResource) \<and> wellFormedSet (createStorageStatefulSet simResource) \<and>
   wellFormedService (createStoragePublicService simResource)"
proof -
  have "validSpec (Spec simResource)" by (simp add: validSpec_def simResource_def)
  with objects_wellformed [OF this] show ?thesis by simp
qed

text \<open>The names of the services of a resource.\<close>

definition serviceNames :: "string \<Rightarrow> string set" where
  "serviceNames n = {BrokerServiceName n, CoordinatorServiceName n, StorageServiceName n, StoragePublicServiceName n}"

text \<open>C38: Two resources of different names in one namespace have no service name in common, unless the name of one of them is the other's name followed
  by one of the three suffixes of headless services: then the public service of the one has the name of a headless
  service of the other.\<close>

theorem service_names_clash:
  "serviceNames n \<inter> serviceNames n' \<noteq> {} \<longleftrightarrow>
     n = n' \<or> n' \<in> {n @ ''-bk-svc'', n @ ''-cd-svc'', n @ ''-stg-svc''} \<or> n \<in> {n' @ ''-bk-svc'', n' @ ''-cd-svc'', n' @ ''-stg-svc''}"
proof -
  have suffix: "a @ ''-bk-svc'' \<noteq> b @ ''-cd-svc''" "a @ ''-bk-svc'' \<noteq> b @ ''-stg-svc''" "a @ ''-cd-svc'' \<noteq> b @ ''-stg-svc''" for a b
    by (auto dest!: arg_cong [where f = rev])
  show ?thesis
    unfolding serviceNames_def BrokerServiceName_def CoordinatorServiceName_def StorageServiceName_def StoragePublicServiceName_def
    using suffix suffix [symmetric] by auto
qed

end
