(* ===== verification/Spec2Isabelle.thy ===== *)
theory Spec2Isabelle
  imports Operator Manager ScaleSafety MigrationSafety TrafficGate Convergence Election Registry ClusterMeta Capacity Deployment
begin

text \<open>
  A verification development for undermoon-operator, the Kubernetes operator (in Go) for undermoon, a sharded
  Redis cluster. This theory collects the others and holds the properties that span components.

  \<^bold>\<open>The program.\<close> A custom resource \<open>Undermoon\<close> asks for a cluster of a number of chunks. The operator keeps
  three workloads for it, each a headless service and a StatefulSet: memory brokers (the metadata of the cluster, one of them
  the master), coordinators, and storage pods (a server proxy and two Redis instances each; two pods and four nodes per
  chunk). controller-runtime calls \<open>Reconcile\<close> whenever something changed or a retry is due. A reconciliation creates what is
  missing, waits for brokers and coordinators, elects the master broker and records it in the status, tells the
  coordinators, repairs the broker's epoch, brings the registry of server proxies and the cluster in the master broker in line,
  moves slots when the size is wrong, and shrinks the StatefulSet once no slots are left on the pods to go.

  \<^bold>\<open>How it is modelled.\<close> A Go function that calls the outside is a computation \<open>('w, 'a) op\<close>: it passes a state \<open>'w sys\<close> on (the
  world, the two pools of Redis clients, the history of all calls with their answers, newest first) and ends with a value, an
  error or a panic. \<open>bindM\<close> is Go's early return on an error, \<open>tryM\<close> gives the error to the code that looks at it. The
  outside (the API server through controller-runtime's client, the HTTP library, the Redis library) is the record \<open>'w env\<close> of functions
  on an unspecified world: it is a parameter of every operation, and the safety properties hold for every environment. Machine
  integers are words of their width, Go's maps partial functions, nil pointers \<open>None\<close>. The definitions compute.

  \<^item> \<open>Prelude\<close>: integers, decimal text, \<open>strings\<close> and \<open>strconv\<close>, the computations, loops, the rules of \<open>valid\<close>.
  \<^item> \<open>Types\<close>: the resource (\<open>pkg/apis/undermoon/v1alpha1/undermoon_types.go\<close>), payloads of the broker API, errors, and
    the fields of Kubernetes objects in use.
  \<^item> \<open>World\<close>: environment, history, the logic \<open>hvalid\<close> over histories, \<open>emits\<close> (which calls an operation makes).
  \<^item> \<open>Utils\<close>: \<open>utils.go\<close>, with the pool of Redis clients and the interface \<open>client_pool\<close>.
  \<^item> \<open>Broker\<close>, \<open>Coordinator\<close>, \<open>Storage\<close>: \<open>broker.go\<close>, \<open>coordinator.go\<close>, \<open>storage.go\<close> (names, addresses, services, StatefulSets),
    each an instance of the interface \<open>workload\<close> of \<open>Workload\<close>.
  \<^item> \<open>BrokerClient\<close>: \<open>broker_client.go\<close>; \<open>RedisClients\<close>: \<open>coordinator_client.go\<close> and \<open>proxy_client.go\<close>; their operations are
    instances of \<open>one_call\<close> and \<open>unit_call\<close> of \<open>Calls\<close> (an operation that is one call and whose outcome the answer determines).
  \<^item> \<open>BrokerController\<close>, \<open>CoordinatorController\<close>, \<open>StorageController\<close>, \<open>MetaController\<close>: the controllers of the same names; their six
    \<open>getOrCreate\<close> methods are instances of \<open>get_or_create\<close> of \<open>GetOrCreate\<close>.
  \<^item> \<open>Reconciler\<close>: \<open>Reconcile\<close>, \<open>createResources\<close> and \<open>brokerAndCoordinatorReady\<close> of \<open>undermoon_controller.go\<close>; \<open>Operator\<close>:
    \<open>newReconciler\<close> and the operator as a state machine, whose steps are reconciliations and changes of the world.
  \<^item> \<open>Manager\<close>: \<open>cmd/manager/main.go\<close>, \<open>pkg/controller\<close> and the registration of the controller, over the libraries as a record \<open>libs\<close>.
  \<^item> \<open>Simulation\<close>: small concrete environments, which the witnesses run: one with a single chunk, and a cluster of two chunks with three
    brokers, three coordinators and six storage pods.

  \<^bold>\<open>What is shown.\<close>

  \<^item> \<open>View\<close>: what the operator knows in the current reconciliation, as a function \<open>viewOf\<close> of the history: the name it was asked for, the resource
    as last returned, the broker it made the master (the one written to the status), and the storage StatefulSet and service of this resource as last returned. Every
    reconciliation starts a new view, by reading the resource.
  \<^item> \<open>CallRules\<close>, \<open>ScaleSafety\<close>, \<open>MigrationSafety\<close>: three kinds of calls can do harm; the interface \<open>audit\<close> says when a condition on the
    history is kept by a whole reconciliation, and its instances give the first three properties: when the StatefulSet is resized, when slots are
    moved, which proxies are removed, in every reachable state and for every environment. The conditions (\<open>justified\<close>) speak about the view at the time of
    the call: its resource, its master broker, its StatefulSet and service. \<open>TrafficGate\<close>: nothing is sent before
    brokers and coordinators are there.
  \<^item> \<open>Robustness\<close>: how a reconciliation ends in an environment that is \<open>documented\<close> (library errors are not the operator's own
    variables, the API server fills in the replica count, a decoded result has the type asked for).
  \<^item> \<open>Convergence\<close>: a reconciliation that is done has converged (\<open>finished\<close>). \<open>Health\<close>: in an environment that is \<open>responsive\<close> for a resource
    (the resource and its three workloads are there, each with as many pods as the readiness checks ask for, the storage StatefulSet is steady,
    and the servers accept what is asked or answer that there is nothing to do; nothing is assumed of other objects) a
    reconciliation comes to the change of size; it is then done, starts a migration, or waits for one, as the report says.
  \<^item> \<open>Election\<close>, \<open>Registry\<close>, \<open>ClusterMeta\<close>, \<open>Capacity\<close>: for the operations of the controllers, exactly which calls they make, in which order, and what
    outcome the answers have, on every branch.
  \<^item> \<open>Deployment\<close>: the objects fit together: addresses and DNS names, selectors, replica counts, ports.
  \<^item> \<open>Manager\<close>: the order of the start-up, the watched namespaces.

  \<^bold>\<open>Bounds.\<close> The model has no fuel: the creation guards loop at most three times as the source does (\<open>createGuardLoop 3\<close>), all other
  loops run over lists or count up to a word (\<open>countUp\<close>, which ends by wrap-around). The replica count of the storage is an
  \<open>int32\<close>: results that need two pods per chunk assume \<open>chunkFits\<close> (less than \<open>2 ^ 30\<close> chunks), and \<open>Deployment\<close> shows what happens beyond.

  \<^bold>\<open>Not modelled.\<close> Logging; flags and the printed version; the mutex of a pool (controller-runtime runs one worker here, so that
  reconciliations follow one another); the fields of Kubernetes objects that the operator neither sets nor reads; the scheme
  registration and the generated deep copies (values of HOL are copied by nature); the behaviour of brokers, coordinators and
  proxies themselves, whose code is not in this repository.
\<close>

section \<open>A concrete run\<close>

text \<open>The simulated cluster of two chunks, whose broker reports \<open>info\<close>, is responsive. With the
  report of a settled cluster it is healthy, and a reconciliation scales its storage from six pods to four.\<close>

definition simRun :: "i32 sys" where
  "simRun = snd (Reconcile simHealthy simRequest (newReconciler 4))"

lemma simTwo_simps:
  "crName simTwo = ''um''" "crNamespace simTwo = ''ns''" "ClusterName (Spec simTwo) = ''mycluster''" "ChunkNumber (Spec simTwo) = 2"
  by (simp_all add: simTwo_def simResource_def simMeta_def)

lemma simAnswer_good:
  assumes "J info"
  shows "goodAnswer simTwo J q (simBroker info q)"
proof -
  have p: "ParseInt ''7'' = (7, None)" by (simp add: ParseInt_def ParseUint_def digit_val_def)
  show ?thesis
    by (simp add: goodAnswer_def sim_cluster_defs p assms errorIs_def errStrFreeNodeNotFound_def
        split: httpMethod.split option.split payloadKind.split payload.split)
qed

lemma served_sim:
  "resourceServed (simReporting info) (NamespacedName simRequest) simTwo"
  "serviceServed (simReporting info) simTwo (createBrokerService simTwo) 2"
  "setServed (simReporting info) simTwo (createBrokerStatefulSet simTwo) (\<lambda>ss. 2 \<le> sint (ss_StatusReadyReplicas ss))"
  "serviceServed (simReporting info) simTwo (createCoordinatorService simTwo) 1"
  "setServed (simReporting info) simTwo (createCoordinatorStatefulSet simTwo) (\<lambda>ss. 1 \<le> sint (ss_StatusReadyReplicas ss))"
  "serviceServed (simReporting info) simTwo (createStorageService simTwo) (sint (replicasOf (ChunkNumber (Spec simTwo))))"
  "setServed (simReporting info) simTwo (createStorageStatefulSet simTwo) (stableSet simTwo)"
proof -
  have r: "sint (replicasOf 2) = 4" by (simp add: replicasOf_def i32_chunk_mult i32_of_u32_def)
  show "resourceServed (simReporting info) (NamespacedName simRequest) simTwo"
    by (simp add: resourceServed_def sim_cluster_defs)
  show "serviceServed (simReporting info) simTwo (createBrokerService simTwo) 2"
    "serviceServed (simReporting info) simTwo (createCoordinatorService simTwo) 1"
    "serviceServed (simReporting info) simTwo (createStorageService simTwo) (sint (replicasOf (ChunkNumber (Spec simTwo))))"
    by (simp_all add: serviceServed_def sim_cluster_defs simTwo_simps r readEndpoints_def createBrokerService_def createCoordinatorService_def
        createStorageService_def BrokerServiceName_def CoordinatorServiceName_def StorageServiceName_def Let_def)
  show "setServed (simReporting info) simTwo (createBrokerStatefulSet simTwo) (\<lambda>ss. 2 \<le> sint (ss_StatusReadyReplicas ss))"
    "setServed (simReporting info) simTwo (createCoordinatorStatefulSet simTwo) (\<lambda>ss. 1 \<le> sint (ss_StatusReadyReplicas ss))"
    "setServed (simReporting info) simTwo (createStorageStatefulSet simTwo) (stableSet simTwo)"
    by (simp_all add: setServed_def stableSet_def steady_def sim_cluster_defs simTwo_simps r createBrokerStatefulSet_def createCoordinatorStatefulSet_def
        createStorageStatefulSet_def BrokerStatefulSetName_def CoordinatorStatefulSetName_def StorageStatefulSetName_def Let_def)
qed

lemma responsive_sim:
  assumes "J info"
  shows "responsive (simReporting info) (NamespacedName simRequest) simTwo J"
  unfolding responsive_def
  by (intro conjI served_sim) (simp_all add: simReporting_def simEnv_def simAnswer_good [where J = J, OF assms])

lemma healthy_sim: "healthy simHealthy (NamespacedName simRequest) simTwo"
  unfolding healthy_def simHealthy_def by (rule responsive_sim) (simp add: simTwoInfo_def simInfo_def simTwo_simps)

lemma operates_once: "operates env (snd (Reconcile env req (newReconciler w)))"
  by (rule operates.steps [OF operates.starts opStep.reconciles]) (rule prod.collapse [symmetric])

lemma simRun_operates: "operates simHealthy simRun"
  unfolding simRun_def by (rule operates_once)

text \<open>The run goes all the way: it asks for the slots to be moved and sets the storage to four pods.\<close>

lemma simRun_finished:
  "converged simHealthy (NamespacedName simRequest) [] (history simRun)"
proof -
  have "\<exists>t v. Reconcile simHealthy simRequest (newReconciler 4) = (Ok doneResult, t) \<and> finished simHealthy v (history t) \<and>
      view_Key v = NamespacedName simRequest \<and> view_Before v = history (newReconciler (4 :: i32)) \<and> Spec (view_Cr v) = Spec simTwo"
    by (rule healthy_finishes [OF healthy_sim])
  then show ?thesis unfolding converged_def simRun_def by (auto simp: newReconciler_def)
qed

section \<open>Reachable states of the operator\<close>

text \<open>C1: In every reachable state of the operator, whatever the API server, the brokers and the other servers answered, every
  update of a StatefulSet sent so far was justified. It was of the storage StatefulSet of the resource that the reconciliation had
  read, as the API server had returned it last (found or created under the name computed from the resource, with its owner set), and changed nothing
  but the replica count, to two per chunk of that resource. It came either right after the API server had returned that
  StatefulSet with fewer replicas, or right after the broker that the reconciliation had made the master reported that the slots of the cluster of that resource are
  on exactly four nodes per chunk. So pods are never taken away while the master broker has slots on nodes beyond the wanted size.\<close>

theorem scaling_safe:
  assumes "operates env s"
  shows "scaleSafe env (history s)"
  unfolding scaleSafe_def by (rule operates_history [OF scl.Reconcile_keeps justified.simps(1) [THEN iffD2, OF TrueI] assms])

theorem scaling_safe_witness:
  "operates simHealthy simRun \<and> converged simHealthy (NamespacedName simRequest) [] (history simRun) \<and> scaleSafe simHealthy (history simRun)"
  using scaling_safe [OF simRun_operates] simRun_operates simRun_finished by blast

text \<open>C2: In every reachable state, every request to move slots (\<open>POST .../clusters/migrations/auto/...\<close>) sent so far
  asked the broker that the reconciliation had made the master for four nodes per chunk of the resource it had read. It was sent right after an endpoint
  lookup of the storage service of that resource that showed all its storage pods, while its storage StatefulSet had all its pods when it was returned; and that lookup
  came right after the same broker's report that the cluster of that resource is not migrating.\<close>

theorem migration_safe:
  assumes "operates env s"
  shows "migrationSafe env (history s)"
  unfolding migrationSafe_def by (rule operates_history [OF mig.Reconcile_keeps justified.simps(1) [THEN iffD2, OF TrueI] assms])

theorem migration_safe_witness:
  "operates simHealthy simRun \<and> converged simHealthy (NamespacedName simRequest) [] (history simRun) \<and> migrationSafe simHealthy (history simRun)"
  using migration_safe [OF simRun_operates] simRun_operates simRun_finished by blast

text \<open>C3: In every reachable state, every removal of a server proxy from a broker's registry sent so far was sent to the broker that the
  reconciliation had made the master, for an address that this broker had listed and that is none of the addresses expected for the
  resource that the reconciliation had read.\<close>

theorem removal_safe:
  assumes "operates env s"
  shows "registrySafe env (history s)"
  unfolding registrySafe_def by (rule operates_history [OF dreg.Reconcile_keeps justified.simps(1) [THEN iffD2, OF TrueI] assms])

theorem removal_safe_witness:
  "operates simHealthy simRun \<and> converged simHealthy (NamespacedName simRequest) [] (history simRun) \<and> registrySafe simHealthy (history simRun)"
  using removal_safe [OF simRun_operates] simRun_operates simRun_finished by blast

text \<open>C20: In every reachable state both pools of Redis clients are in order: a client is filed under its own address, no two
  entries of the two pools share a client, and all clients were made by this process.\<close>

theorem pools_in_order:
  assumes "operates env s"
  shows "sysInv s"
  by (rule operates_sysInv [OF assms])

theorem pools_in_order_witness:
  "operates simHealthy simRun \<and> converged simHealthy (NamespacedName simRequest) [] (history simRun) \<and> sysInv simRun"
  using pools_in_order [OF simRun_operates] simRun_operates simRun_finished by blast

section \<open>One reconciliation\<close>

text \<open>C4: When a resource is there with its three workloads (at least two brokers ready and behind their service, at least one
  coordinator, a storage StatefulSet with at least two pods per chunk that has all its pods, and at least two per chunk behind their service), the servers accept
  the operator's requests or answer that there is nothing to do, nothing migrates and the slots are on exactly four nodes per chunk, then a reconciliation of this resource, from any state of
  the operator, ends with success and without a request to be repeated. Its last two calls are the report of the broker it made the master
  on the cluster, with slots on exactly four nodes per chunk, and the accepted update of the storage StatefulSet of the resource to two pods per chunk.\<close>

theorem healthy_converges:
  assumes "healthy env (NamespacedName req) cr"
  shows "\<exists>t v. Reconcile env req s = (Ok doneResult, t) \<and> finished env v (history t) \<and>
    view_Key v = NamespacedName req \<and> view_Before v = history s \<and> Spec (view_Cr v) = Spec cr"
  by (rule healthy_finishes [OF assms])

theorem healthy_converges_witness:
  "healthy simHealthy (NamespacedName simRequest) simTwo \<and> ChunkNumber (Spec simTwo) = 2 \<and>
   (\<exists>t v. Reconcile simHealthy simRequest simStart = (Ok doneResult, t) \<and> finished simHealthy v (history t) \<and> Spec (view_Cr v) = Spec simTwo)"
  using healthy_converges [OF healthy_sim, of simStart] healthy_sim simTwo_simps(4) by blast

text \<open>C5: A reconciliation that ends without error and without asking to be repeated has done its work: either its only call was to read the
  resource, which is gone; or its last two calls are the report of the broker it made the master that the slots of the resource's cluster are on exactly four nodes per
  chunk, and the accepted update of the storage StatefulSet of the resource it was asked for, as returned last, to two pods per chunk.\<close>

theorem done_means_converged:
  assumes "Reconcile env req s = (Ok doneResult, t)"
  shows "gone (NamespacedName req) (history s) (history t) \<or> converged env (NamespacedName req) (history s) (history t)"
  using hvalidD(1) [OF Reconcile_done refl assms] by simp

theorem done_means_converged_witness:
  "\<exists>t. Reconcile simHealthy simRequest simStart = (Ok doneResult, t) \<and>
     (gone (NamespacedName simRequest) (history simStart) (history t) \<or> converged simHealthy (NamespacedName simRequest) (history simStart) (history t))"
  using healthy_finishes [OF healthy_sim, of simStart] done_means_converged by blast




text \<open>C7: A cluster that is migrating is waited for: under the same conditions on the workloads (all storage pods are there and the storage StatefulSet is stable) and the
  servers, when the report says that a migration is running, a
  reconciliation asks to be repeated in 3 seconds and sends no request to move slots.\<close>

theorem migration_awaited:
  assumes "responsive env (NamespacedName req) cr IsMigrating"
  shows "\<exists>t es. Reconcile env req s = (Ok (requeueAfter 3), t) \<and> history t = es @ history s \<and>
    (\<forall>q r. EvHttp q r \<in> set es \<longrightarrow> \<not> isScale q)"
  using migrating_reaches [OF assms, unfolded reaches_def, THEN spec, of s] by auto

theorem migration_awaited_witness:
  "responsive (simReporting (simTwoInfo\<lparr>IsMigrating := True\<rparr>)) (NamespacedName simRequest) simTwo IsMigrating \<and>
   (\<exists>t. Reconcile (simReporting (simTwoInfo\<lparr>IsMigrating := True\<rparr>)) simRequest simStart = (Ok (requeueAfter 3), t))"
proof -
  have "responsive (simReporting (simTwoInfo\<lparr>IsMigrating := True\<rparr>)) (NamespacedName simRequest) simTwo IsMigrating"
    by (rule responsive_sim) simp
  with migration_awaited [OF this] show ?thesis by blast
qed

text \<open>C8: A reconciliation sends no message to a broker, a coordinator or a server proxy before two endpoint lookups in a row have given at
  least two addresses (the brokers' service) and at least one (the coordinators' service); whatever its outcome.\<close>

theorem traffic_gated:
  "gated (history s) (history (snd (Reconcile env req s)))"
proof -
  obtain r t where "Reconcile env req s = (r, t)" by fastforce
  then show ?thesis
    using hvalidD [OF Reconcile_gated [of "history s" env req], where s = s] by (cases r) simp_all
qed

text \<open>C9: When the libraries behave as documented (their errors are not the operator's own sentinels, the API server fills in the replica count, the
  HTTP client decodes into the type it was given), a reconciliation never panics, ends with one of the three results done, retry in 3
  seconds, retry in 10 seconds, or with an error that is none of the sentinels: \<open>errRetryReconciliation\<close> always
  becomes a retry, and \<open>errMigrationRunning\<close> and \<open>errFreeNodeFound\<close> never leave the controllers.\<close>

theorem reconcile_robust:
  assumes "documented env"
  shows "case fst (Reconcile env req s) of
      Ok r \<Rightarrow> r \<in> {doneResult, requeueAfter 3, requeueAfter 10}
    | Err e \<Rightarrow> e \<notin> {errRetryReconciliation, errMigrationRunning, errFreeNodeFound}
    | Panic _ \<Rightarrow> False"
proof -
  obtain r t where "Reconcile env req s = (r, t)" by fastforce
  then show ?thesis
    using validD [OF ends_Reconcile [OF assms, of req, unfolded ends_def], where s = s]
    by (cases r) (simp_all add: sentinel_def)
qed

theorem reconcile_robust_witness:
  "documented (simEnv simSettled) \<and> (\<forall>p. fst (Reconcile (simEnv simSettled) simRequest simStart) \<noteq> Panic p)"
  using reconcile_robust [OF documented_sim, of simSettled simRequest simStart] documented_sim by auto

text \<open>C21: A reconciliation never replaces or drops a pooled Redis client: every client pooled before is afterwards still the one pooled for its
  address, in both pools.\<close>

theorem clients_kept:
  assumes "sysInv s" and "Reconcile env req s = (r, t)"
  shows "clients (coordPool s) \<subseteq>\<^sub>m clients (coordPool t) \<and> clients (proxyPool s) \<subseteq>\<^sub>m clients (proxyPool t) \<and> sysInv t"
  using preservesD [OF grown_Reconcile [of s env req] _ assms(2)] assms(1) by (simp add: grown_refl) (simp add: grown_def)

theorem clients_kept_witness:
  "sysInv simRun \<and> clients (coordPool simRun) \<subseteq>\<^sub>m clients (coordPool (snd (Reconcile simHealthy simRequest simRun)))"
  using clients_kept [of simRun simHealthy simRequest "fst (Reconcile simHealthy simRequest simRun)" "snd (Reconcile simHealthy simRequest simRun)"]
    operates_sysInv [OF simRun_operates] by simp

text \<open>C27: A resource that is not there any more needs nothing: the reconciliation makes the one lookup and is done.\<close>

theorem missing_resource:
  assumes "Get_Undermoon env (NamespacedName req) (world s) = (Inl e, w)" and "IsNotFound e"
  shows "Reconcile env req s = (Ok doneResult, s\<lparr>world := w, history := EvGetUndermoon (NamespacedName req) (Inl e) # history s\<rparr>)"
  using assms by (simp add: Reconcile_def getUndermoon_def callE_def call_def bindM_def tryM_def liftM_def throwM_def returnM_def)

theorem missing_resource_witness:
  "\<exists>t. Reconcile (simHealthy\<lparr>Get_Undermoon := (\<lambda>k w. (Inl (StatusError ReasonNotFound ''gone''), w))\<rparr>) simRequest simStart = (Ok doneResult, t)"
  using missing_resource [of "simHealthy\<lparr>Get_Undermoon := (\<lambda>k w. (Inl (StatusError ReasonNotFound ''gone''), w))\<rparr>" simRequest simStart
      "StatusError ReasonNotFound ''gone''" "world simStart"]
  by (simp add: IsNotFound_def)

section \<open>Creation\<close>

text \<open>C22: The service and the StatefulSet of the brokers, and those of the coordinators, that a reconciliation goes on with are those
  of the API server: each was found under the name computed from the resource, or was created with the owner
  reference set right after the API server said that there is none by that name.\<close>

theorem workloads_obtained:
  "hvalid (\<lambda>h. h = h0) (createBroker env cr)
     (\<lambda>(ss, svc) h. \<exists>es h1 es'.
        obtained (SetControllerReference_Service env cr (createBrokerService cr)) (\<lambda>x. EvGetService (svcKey x)) EvCreateService svc (es @ h0) h1 \<and>
        obtained (SetControllerReference_StatefulSet env cr (createBrokerStatefulSet cr)) (\<lambda>x. EvGetStatefulSet (ssKey x)) EvCreateStatefulSet ss (es' @ h1) h)
     (\<lambda>_ h. \<exists>es. h = es @ h0) \<and>
   hvalid (\<lambda>h. h = h0) (createCoordinator env cr)
     (\<lambda>(ss, svc) h. \<exists>es h1 es'.
        obtained (SetControllerReference_Service env cr (createCoordinatorService cr)) (\<lambda>x. EvGetService (svcKey x)) EvCreateService svc (es @ h0) h1 \<and>
        obtained (SetControllerReference_StatefulSet env cr (createCoordinatorStatefulSet cr)) (\<lambda>x. EvGetStatefulSet (ssKey x)) EvCreateStatefulSet ss (es' @ h1) h)
     (\<lambda>_ h. \<exists>es. h = es @ h0)"
  unfolding createBroker_def createCoordinator_def createServiceGuard_def createStatefulSetGuard_def numeral_3_eq_3
  by (intro conjI hvalid_pre [OF workload_obtained] bk_svc.guarded_obtains bk_ss.guarded_obtains cd_svc.guarded_obtains cd_ss.guarded_obtains) simp_all

text \<open>C26: A creation guard runs the guarded function again only while it reports that the object already exists, at
  most three times in all, and its outcome and state are exactly those of the last run.\<close>

theorem guard_retries:
  "(\<exists>n \<le> 2. (\<forall>k < n. existed m (afterRuns m k s)) \<and> (n = 2 \<or> \<not> existed m (afterRuns m n s)) \<and>
     createServiceGuard m s = m (afterRuns m n s)) \<and>
   (\<exists>n \<le> 2. (\<forall>k < n. existed m' (afterRuns m' k s)) \<and> (n = 2 \<or> \<not> existed m' (afterRuns m' n s)) \<and>
     createStatefulSetGuard m' s = m' (afterRuns m' n s))"
  using createGuardLoop_runs [of 2 m s None] createGuardLoop_runs [of 2 m' s None]
  by (simp add: createServiceGuard_def createStatefulSetGuard_def numeral_3_eq_3 numeral_2_eq_2)

text \<open>A lagging cache: lookups find nothing, creations report that the service is there.\<close>

definition simLagging :: "i32 env" where
  "simLagging = simHealthy\<lparr>Get_Service := (\<lambda>k w. (Inl (StatusError ReasonNotFound ''cache''), w)),
     Create_Service := (\<lambda>x w. (Inl (StatusError ReasonAlreadyExists ''there''), w))\<rparr>"

lemma lagging_run:
  "\<exists>e e'. getOrCreateBrokerService simLagging simResource s =
     (Err (StatusError ReasonAlreadyExists ''there''), s\<lparr>history := e' # e # history s\<rparr>)"
  by (simp add: getOrCreateBrokerService_def simLagging_def simHealthy_def simReporting_def simEnv_def getService_def createService_def
      callE_def call_def bindM_def tryM_def liftM_def throwM_def returnM_def IsNotFound_def) blast

theorem guard_retries_witness:
  "fst (createServiceGuard (getOrCreateBrokerService simLagging simResource) simStart) = Err (StatusError ReasonAlreadyExists ''there'') \<and>
   length (history (snd (createServiceGuard (getOrCreateBrokerService simLagging simResource) simStart))) = 6"
proof -
  let ?m = "getOrCreateBrokerService simLagging simResource"
  have f: "fst (?m s) = Err (StatusError ReasonAlreadyExists ''there'')"
    and l: "length (history (snd (?m s))) = length (history s) + 2" for s
    using lagging_run [of s] by auto
  then have again: "existed ?m s" for s by (simp add: IsAlreadyExists_def)
  obtain n where "n = 2" and n: "createServiceGuard ?m simStart = ?m (afterRuns ?m n simStart)"
    using guard_retries [of ?m simStart] again by auto
  have "length (history (afterRuns ?m k simStart)) = 2 * k" for k
    by (induction k) (simp_all add: l, simp add: simStart_def)
  with n \<open>n = 2\<close> f l show ?thesis by simp
qed

end
